(* ===== verification/Prelude.thy ===== *)
theory Prelude
  imports Main "HOL-Library.AList"
begin

text \<open>
  Shared vocabulary of the development: Python values as they reach the BiDi
  layer (\<open>pyval\<close>), the exceptions the modelled code raises or lets through
  (\<open>exc\<close>), the state-and-exception monad in which every coroutine and method of
  the model is written (\<open>sbind\<close>, \<open>sreturn\<close>, \<open>sraise\<close>), and Python
  dictionaries as insertion-ordered association lists, including the
  \<open>collections.defaultdict\<close> read that inserts a default entry.
\<close>

named_theorems dict_simps "characteristic equations of the Python dict model"
named_theorems st_simps "evaluation rules of the state-and-exception monad"

section \<open>Python values\<close>

text \<open>
  The values the modelled code handles: JSON-like data coming from and going to
  the wire, plus dataclass instances (\<open>PObj\<close>: class name and fields in
  declaration order). A Python \<open>dict\<close> keyed by strings is \<open>PDict\<close>, with the
  entries in insertion order.
\<close>

datatype pyval =
    PNone
  | PBool bool
  | PInt int
  | PStr string
  | PList "pyval list"
  | PDict "(string \<times> pyval) list"
  | PObj string "(string \<times> pyval) list"

type_synonym pydict = "(string \<times> pyval) list"

text \<open>Python truthiness, as used by \<open>if x:\<close>.\<close>

fun truthy :: "pyval \<Rightarrow> bool" where
  "truthy PNone = False"
| "truthy (PBool b) = b"
| "truthy (PInt n) = (n \<noteq> 0)"
| "truthy (PStr s) = (s \<noteq> [])"
| "truthy (PList xs) = (xs \<noteq> [])"
| "truthy (PDict kvs) = (kvs \<noteq> [])"
| "truthy (PObj c fs) = True"

text \<open>
  Python hashability: lists, dicts and (non-frozen) dataclass instances are not
  hashable, so they cannot be dict keys.
\<close>

fun py_hashable :: "pyval \<Rightarrow> bool" where
  "py_hashable (PList xs) = False"
| "py_hashable (PDict kvs) = False"
| "py_hashable (PObj c fs) = False"
| "py_hashable v = True"

section \<open>Exceptions\<close>

text \<open>
  \<open>BrowserError\<close> is the error a well-formed reply of the remote end carries
  (the protocol error of the spec); \<open>ClosedResourceError\<close> is trio's error on a
  closed channel; \<open>AssertionError\<close> is raised by a failing \<open>assert\<close>.
\<close>

datatype exc =
    TypeError string
  | KeyError pyval
  | AttributeError string
  | RuntimeError string
  | BrowserError string
  | ClosedResourceError
  | AssertionError

text \<open>\<open>iter(v)\<close>: the values a \<open>for\<close> loop over \<open>v\<close> visits.\<close>

fun py_iter :: "pyval \<Rightarrow> exc + pyval list" where
  "py_iter (PList xs) = Inr xs"
| "py_iter (PStr cs) = Inr (map (\<lambda>c. PStr [c]) cs)"
| "py_iter (PDict kvs) = Inr (map (\<lambda>kv. PStr (fst kv)) kvs)"
| "py_iter v = Inl (TypeError ''object is not iterable'')"

section \<open>State and exceptions\<close>

text \<open>
  A Python method that mutates its object and may raise is a function from the
  state to the new state and either the exception (\<open>Inl\<close>) or the returned value
  (\<open>Inr\<close>). The state at the raise point is kept: effects before an exception
  are not undone, as in Python.
\<close>

type_synonym ('s, 'a) pyst = "'s \<Rightarrow> 's \<times> (exc + 'a)"

definition sreturn :: "'a \<Rightarrow> ('s, 'a) pyst" where
  "sreturn a = (\<lambda>s. (s, Inr a))"

definition sraise :: "exc \<Rightarrow> ('s, 'a) pyst" where
  "sraise e = (\<lambda>s. (s, Inl e))"

definition sbind :: "('s, 'a) pyst \<Rightarrow> ('a \<Rightarrow> ('s, 'b) pyst) \<Rightarrow> ('s, 'b) pyst" where
  "sbind m f = (\<lambda>s. case m s of (s', Inl e) \<Rightarrow> (s', Inl e) | (s', Inr a) \<Rightarrow> f a s')"

text \<open>A pure computation that may raise, lifted to a state-passing one.\<close>

definition slift :: "exc + 'a \<Rightarrow> ('s, 'a) pyst" where
  "slift r = (\<lambda>s. (s, r))"

text \<open>Bind on pure results that may raise.\<close>

definition rbind :: "exc + 'a \<Rightarrow> ('a \<Rightarrow> exc + 'b) \<Rightarrow> exc + 'b" where
  "rbind r f = (case r of Inl e \<Rightarrow> Inl e | Inr a \<Rightarrow> f a)"

lemma sreturn_apply [simp, st_simps]: "sreturn a s = (s, Inr a)"
  by (simp add: sreturn_def)

lemma sraise_apply [simp, st_simps]: "sraise e s = (s, Inl e)"
  by (simp add: sraise_def)

lemma slift_apply [simp, st_simps]: "slift r s = (s, r)"
  by (simp add: slift_def)

lemma sbind_Inr [simp, st_simps]: "m s = (s', Inr a) \<Longrightarrow> sbind m f s = f a s'"
  by (simp add: sbind_def)

lemma sbind_Inl [simp, st_simps]: "m s = (s', Inl e) \<Longrightarrow> sbind m f s = (s', Inl e)"
  by (simp add: sbind_def)

lemma sbind_slift_Inr [simp, st_simps]: "sbind (slift (Inr a)) f = f a"
  by (simp add: sbind_def slift_def)

lemma sbind_slift_Inl [simp, st_simps]: "sbind (slift (Inl e)) f = sraise e"
  by (simp add: sbind_def slift_def sraise_def)

lemma sbind_cases:
  "sbind m f s = (case m s of (s', Inl e) \<Rightarrow> (s', Inl e) | (s', Inr a) \<Rightarrow> f a s')"
  by (simp add: sbind_def)

lemma sbind_sreturn [simp, st_simps]: "sbind (sreturn a) f = f a"
  by (rule ext) (simp add: sbind_def)

lemma sbind_assoc [st_simps]: "sbind (sbind m f) g = sbind m (\<lambda>a. sbind (f a) g)"
  by (rule ext) (simp add: sbind_def split: prod.splits sum.splits)

lemma rbind_Inl [simp, st_simps]: "rbind (Inl e) f = Inl e"
  by (simp add: rbind_def)

lemma rbind_Inr [simp, st_simps]: "rbind (Inr a) f = f a"
  by (simp add: rbind_def)

text \<open>
  Invariant reasoning through the monad: a property of the state that every
  step keeps is kept by the composition, whether or not it raises.
\<close>

lemma sbind_preserves:
  assumes "\<And>s. P s \<Longrightarrow> P (fst (m s))"
    and "\<And>a s. P s \<Longrightarrow> P (fst (f a s))"
    and "P s"
  shows "P (fst (sbind m f s))"
proof -
  obtain s' r where m: "m s = (s', r)" by (cases "m s")
  from assms(1)[OF assms(3)] m have "P s'" by simp
  with m assms(2) show ?thesis
    by (cases r) (auto simp: sbind_def)
qed

section \<open>Dictionaries\<close>

text \<open>
  A Python dict is an association list with distinct keys in insertion order:
  \<open>d[k] = v\<close> is \<^const>\<open>AList.update\<close> (in place when \<open>k\<close> is present, appended
  otherwise), \<open>d.pop(k)\<close> is \<open>dict_pop\<close> (\<open>KeyError\<close> when absent), iteration
  is over \<open>map fst d\<close>, \<open>d.values()\<close> is \<open>map snd d\<close>.
\<close>

definition dict_of :: "('k \<times> 'v) list \<Rightarrow> ('k \<times> 'v) list" where
  "dict_of ps = foldl (\<lambda>d (k, v). AList.update k v d) [] ps"

definition dict_pop :: "pyval \<Rightarrow> (pyval \<times> 'v) list \<Rightarrow> exc + 'v \<times> (pyval \<times> 'v) list" where
  "dict_pop k d = (if \<not> py_hashable k then Inl (TypeError ''unhashable type'') else
     case map_of d k of
       None \<Rightarrow> Inl (KeyError k)
     | Some v \<Rightarrow> Inr (v, AList.delete k d))"

text \<open>
  \<open>collections.defaultdict.__getitem__\<close>: a missing key is inserted with the
  default value, which is also returned. It is a method of the dict, so the dict
  is its state.
\<close>

definition dd_get :: "'v \<Rightarrow> pyval \<Rightarrow> (pyval \<times> 'v) list \<Rightarrow> ((pyval \<times> 'v) list) \<times> (exc + 'v)" where
  "dd_get dflt k d = (if \<not> py_hashable k then (d, Inl (TypeError ''unhashable type'')) else
     case map_of d k of
       Some v \<Rightarrow> (d, Inr v)
     | None \<Rightarrow> (AList.update k dflt d, Inr dflt))"

text \<open>\<open>d.pop(k)\<close> as a method of \<open>d\<close>.\<close>

definition dict_pop_st :: "pyval \<Rightarrow> ((pyval \<times> 'v) list, 'v) pyst" where
  "dict_pop_st k = (\<lambda>d. case dict_pop k d of Inl e \<Rightarrow> (d, Inl e) | Inr (v, d') \<Rightarrow> (d', Inr v))"

lemma update_absent: "map_of d k = None \<Longrightarrow> AList.update k v d = d @ [(k, v)]"
  by (induction d) auto

lemma dict_pop_None [simp, dict_simps]:
  "py_hashable k \<Longrightarrow> map_of d k = None \<Longrightarrow> dict_pop k d = Inl (KeyError k)"
  by (simp add: dict_pop_def)

lemma dict_pop_Some [simp, dict_simps]:
  "py_hashable k \<Longrightarrow> map_of d k = Some v \<Longrightarrow> dict_pop k d = Inr (v, AList.delete k d)"
  by (simp add: dict_pop_def)

lemma dict_pop_unhashable [simp, dict_simps]:
  "\<not> py_hashable k \<Longrightarrow> dict_pop k d = Inl (TypeError ''unhashable type'')"
  by (simp add: dict_pop_def)

lemma map_of_snoc: "map_of d k = None \<Longrightarrow> map_of (d @ [(k, v)]) k = Some v"
  by (simp add: map_of_append map_add_def)

lemma dd_get_Some [simp, dict_simps]: "py_hashable k \<Longrightarrow> map_of d k = Some v \<Longrightarrow> dd_get dflt k d = (d, Inr v)"
  by (simp add: dd_get_def)

lemma dd_get_None [simp, dict_simps]:
  "py_hashable k \<Longrightarrow> map_of d k = None \<Longrightarrow> dd_get dflt k d = (d @ [(k, dflt)], Inr dflt)"
  by (simp add: dd_get_def update_absent)

lemma dd_get_unhashable [simp, dict_simps]:
  "\<not> py_hashable k \<Longrightarrow> dd_get dflt k d = (d, Inl (TypeError ''unhashable type''))"
  by (simp add: dd_get_def)

lemma dd_get_distinct [dict_simps]:
  "distinct (map fst d) \<Longrightarrow> distinct (map fst (fst (dd_get dflt k d)))"
  by (simp add: dd_get_def distinct_update split: option.splits)

lemma dd_get_entries:
  "set (fst (dd_get dflt k d)) =
     (if py_hashable k \<and> map_of d k = None then insert (k, dflt) (set d) else set d)"
  by (cases "map_of d k") (auto simp: dd_get_def update_absent)

lemma dict_of_distinct: "distinct (map fst (dict_of ps))"
proof -
  have "\<And>d. distinct (map fst d) \<Longrightarrow>
      distinct (map fst (foldl (\<lambda>d (k, v). AList.update k v d) d ps))"
    by (induction ps) (auto simp: distinct_update)
  then show ?thesis by (simp add: dict_of_def)
qed

text \<open>Building a dict from pairs whose keys are already distinct keeps them as they are.\<close>

lemma dict_of_id: "distinct (map fst ps) \<Longrightarrow> dict_of ps = ps"
proof -
  have "\<And>d. distinct (map fst (d @ ps)) \<Longrightarrow>
      foldl (\<lambda>d (k, v). AList.update k v d) d ps = d @ ps"
  proof (induction ps)
    case Nil
    then show ?case by simp
  next
    case (Cons p ps)
    obtain k v where p: "p = (k, v)" by (cases p)
    from Cons.prems p have "k \<notin> set (map fst d)" by auto
    then have "AList.update k v d = d @ [(k, v)]"
      by (induction d) auto
    with Cons p show ?case by simp
  qed
  then show "distinct (map fst ps) \<Longrightarrow> dict_of ps = ps"
    by (simp add: dict_of_def)
qed

lemma delete_distinct [dict_simps]: "distinct (map fst d) \<Longrightarrow> distinct (map fst (AList.delete k d))"
  by (simp add: distinct_delete)

lemma delete_key_set [dict_simps]: "fst ` set (AList.delete k d) = fst ` set d - {k}"
  by (induction d) auto

lemma delete_entries: "set (AList.delete k d) = {p \<in> set d. fst p \<noteq> k}"
  by (auto simp: AList.delete_eq)

lemma delete_entries_distinct:
  assumes "distinct (map fst d)" and "map_of d k = Some v"
  shows "set d = insert (k, v) (set (AList.delete k d))"
proof -
  have "{p \<in> set d. fst p = k} = {(k, v)}"
    using assms by (auto dest: map_of_SomeD eq_key_imp_eq_value)
  then show ?thesis by (auto simp: delete_entries)
qed

lemma update_key_set [dict_simps]: "fst ` set (AList.update k v d) = insert k (fst ` set d)"
  by (induction d) auto
lemma update_values: "snd ` set (AList.update k v d) \<subseteq> insert v (snd ` set d)"
  by (induction d) auto

lemma fold_update_keys:
  "fst ` set (foldl (\<lambda>d (k, v). AList.update k v d) d ps) = fst ` set d \<union> fst ` set ps"
proof (induction ps arbitrary: d)
  case Nil
  then show ?case by simp
next
  case (Cons p ps)
  then show ?case by (cases p) (simp add: update_key_set)
qed

lemma fold_update_values:
  "snd ` set (foldl (\<lambda>d (k, v). AList.update k v d) d ps) \<subseteq> snd ` set d \<union> snd ` set ps"
proof (induction ps arbitrary: d)
  case Nil
  then show ?case by simp
next
  case (Cons p ps)
  obtain k v where p: "p = (k, v)" by (cases p)
  have ih: "snd ` set (foldl (\<lambda>d (k, v). AList.update k v d) (AList.update k v d) ps)
      \<subseteq> snd ` set (AList.update k v d) \<union> snd ` set ps"
    by (rule Cons.IH)
  have eq: "foldl (\<lambda>d (k, v). AList.update k v d) d (p # ps) =
      foldl (\<lambda>d (k, v). AList.update k v d) (AList.update k v d) ps"
    using p by simp
  show ?case
    unfolding eq using ih update_values[of k v d] p
    by (simp only: list.set image_insert snd_conv) blast
qed

lemma dict_of_keys [dict_simps]: "fst ` set (dict_of ps) = fst ` set ps"
  using fold_update_keys[of "[]" ps] by (simp add: dict_of_def)

lemma dict_of_values: "snd ` set (dict_of ps) \<subseteq> snd ` set ps"
  using fold_update_values[of "[]" ps] by (simp add: dict_of_def)
end
