(* ===== verification/Bidi.thy ===== *)
theory Bidi
  imports Prelude
begin

text \<open>
  The message model of \<open>src/py/selenium/webdriver/common/bidi/bidi.py\<close>:
  \<open>BidiObject.to_json\<close> (encoding a dataclass instance as a wire dict),
  \<open>BidiObject.from_json\<close> (\<open>cls(**json)\<close>, i.e. the dataclass constructor
  applied to keyword arguments), \<open>BidiEvent.from_json\<close> and
  \<open>BidiCommand.cmd\<close>. A dataclass is described by its name and its fields in
  declaration order, each with its default value if it has one; calling it is
  \<open>construct\<close>, which follows CPython's argument binding (keyword errors first,
  then too many positional arguments, then missing ones).
\<close>

section \<open>Dataclasses\<close>

record dataclass =
  dc_name :: string
  dc_fields :: "(string \<times> pyval option) list"

fun bind_fields :: "(string \<times> pyval option) list \<Rightarrow> pyval list \<Rightarrow> pydict \<Rightarrow> exc + pydict" where
  "bind_fields [] args kws = Inr []"
| "bind_fields ((n, d) # fs) args kws =
     (let v = (case args of
                 a # _ \<Rightarrow> Some a
               | [] \<Rightarrow> (case map_of kws n of Some x \<Rightarrow> Some x | None \<Rightarrow> d))
      in case v of
           None \<Rightarrow> Inl (TypeError (''missing required argument '' @ n))
         | Some x \<Rightarrow> rbind (bind_fields fs (drop 1 args) kws) (\<lambda>bs. Inr ((n, x) # bs)))"

text \<open>\<open>cls(*args, **kws)\<close> for a dataclass \<open>cls\<close> with the generated \<open>__init__\<close>.\<close>

definition construct :: "dataclass \<Rightarrow> pyval list \<Rightarrow> pydict \<Rightarrow> exc + pyval" where
  "construct c args kws =
     (let names = map fst (dc_fields c) in
      case find (\<lambda>(k, _). k \<notin> set names \<or> k \<in> set (take (length args) names)) kws of
        Some (k, _) \<Rightarrow>
          Inl (TypeError (if k \<notin> set names then ''unexpected keyword argument '' @ k
                          else ''multiple values for argument '' @ k))
      | None \<Rightarrow>
          if length names < length args then Inl (TypeError ''too many positional arguments'')
          else rbind (bind_fields (dc_fields c) args kws) (\<lambda>fs. Inr (PObj (dc_name c) fs)))"

text \<open>\<open>isinstance(v, cls)\<close>.\<close>

fun is_instance :: "dataclass \<Rightarrow> pyval \<Rightarrow> bool" where
  "is_instance c (PObj n fs) = (n = dc_name c)"
| "is_instance c v = False"

text \<open>Attribute access \<open>obj.name\<close> on a dataclass instance.\<close>

fun getattr :: "pyval \<Rightarrow> string \<Rightarrow> exc + pyval" where
  "getattr (PObj c fs) n = (case map_of fs n of Some v \<Rightarrow> Inr v | None \<Rightarrow> Inl (AttributeError n))"
| "getattr v n = Inl (AttributeError n)"

section \<open>Encoding: \<open>to_json\<close>\<close>

text \<open>
  A field name ending in the marker \<open>_\<close> (used for \<open>type_\<close>) loses it in the
  wire key (line 38).
\<close>

definition ends_marker :: "string \<Rightarrow> bool" where
  "ends_marker n = (n \<noteq> [] \<and> last n = CHR ''_'')"

definition json_key :: "string \<Rightarrow> string" where
  "json_key n = (if ends_marker n then butlast n else n)"

text \<open>
  The loop of \<open>to_json\<close> over the fields (lines 28--39): \<open>None\<close> fields are
  skipped; a dataclass value is encoded recursively; the elements of a list and
  the values of a dict are encoded when they have a \<open>to_json\<close> method
  (\<open>enc_item\<close>) and kept as they are otherwise. The encoded pairs are then
  stored into a fresh dict in field order (\<open>json[key] = value\<close>).
\<close>

fun enc_item :: "pyval \<Rightarrow> pyval"
and enc_value :: "pyval \<Rightarrow> pyval"
and enc_fields :: "pydict \<Rightarrow> pydict"
and enc_elems :: "pyval list \<Rightarrow> pyval list"
and enc_entries :: "pydict \<Rightarrow> pydict" where
  "enc_item (PObj c fs) = PDict (dict_of (enc_fields fs))"
| "enc_item v = v"
| "enc_value (PObj c fs) = PDict (dict_of (enc_fields fs))"
| "enc_value (PList vs) = PList (enc_elems vs)"
| "enc_value (PDict kvs) = PDict (enc_entries kvs)"
| "enc_value v = v"
| "enc_fields [] = []"
| "enc_fields ((n, v) # fs) =
     (if v = PNone then enc_fields fs else (json_key n, enc_value v) # enc_fields fs)"
| "enc_elems [] = []"
| "enc_elems (v # vs) = enc_item v # enc_elems vs"
| "enc_entries [] = []"
| "enc_entries ((k, v) # kvs) = (k, enc_item v) # enc_entries kvs"

text \<open>\<open>BidiObject.to_json\<close>, called on a dataclass instance.\<close>

definition to_json :: "pyval \<Rightarrow> pyval" where
  "to_json obj = (case obj of PObj c fs \<Rightarrow> PDict (dict_of (enc_fields fs)) | _ \<Rightarrow> obj)"

section \<open>Decoding: \<open>from_json\<close>\<close>

text \<open>\<open>BidiObject.from_json\<close>: \<open>cls(**json)\<close>; a non-mapping is a \<open>TypeError\<close>.\<close>

definition from_json :: "dataclass \<Rightarrow> pyval \<Rightarrow> exc + pyval" where
  "from_json c json = (case json of
      PDict kvs \<Rightarrow> construct c [] kvs
    | _ \<Rightarrow> Inl (TypeError ''argument after ** must be a mapping''))"

text \<open>
  \<open>BidiEvent.from_json\<close>: the parameters are decoded with the class named by the
  \<open>params\<close> type hint (\<open>pc\<close>), and the event object is built from them.
\<close>

definition event_from_json :: "dataclass \<Rightarrow> dataclass \<Rightarrow> pyval \<Rightarrow> exc + pyval" where
  "event_from_json ev pc json = rbind (from_json pc json) (\<lambda>p. construct ev [p] [])"

section \<open>Commands\<close>

text \<open>
  \<open>BidiCommand.cmd\<close> is a generator that yields the encoded command and returns
  the reply it is resumed with. It is modelled by its two halves: the message
  it yields and the function from the reply to its return value.
\<close>

definition cmd :: "pyval \<Rightarrow> pyval \<times> (pyval \<Rightarrow> pyval)" where
  "cmd c = (to_json c, \<lambda>result. result)"


section \<open>Properties of the encoder and the decoder\<close>

lemma enc_value_None [simp]: "enc_value v = PNone \<longleftrightarrow> v = PNone"
  by (cases v) auto

lemma enc_fields_keys: "fst ` set (enc_fields fs) = json_key ` {k. \<exists>v. (k, v) \<in> set fs \<and> v \<noteq> PNone}"
proof (induction fs)
  case Nil
  then show ?case by simp
next
  case (Cons p fs)
  obtain n v where p: "p = (n, v)" by (cases p)
  have "{k. \<exists>v'. (k, v') \<in> set (p # fs) \<and> v' \<noteq> PNone} =
      (if v = PNone then {} else {n}) \<union> {k. \<exists>v'. (k, v') \<in> set fs \<and> v' \<noteq> PNone}"
    using p by auto
  with Cons.IH p show ?case by (cases "v = PNone") auto
qed

lemma enc_fields_values: "list_all (\<lambda>p. snd p \<noteq> PNone) (enc_fields fs)"
  by (induction fs) auto

lemma enc_elems_mem: "x \<in> set vs \<Longrightarrow> enc_item x \<in> set (enc_elems vs)"
  by (induction vs) auto

lemma enc_fields_mem: "(k, v) \<in> set fs \<Longrightarrow> v \<noteq> PNone \<Longrightarrow> (json_key k, enc_value v) \<in> set (enc_fields fs)"
  by (induction fs) auto

lemma enc_fields_keys_distinct:
  "distinct (map (\<lambda>(k, v). json_key k) fs) \<Longrightarrow> distinct (map fst (enc_fields fs))"
proof (induction fs)
  case Nil
  then show ?case by simp
next
  case (Cons p fs)
  obtain k v where p: "p = (k, v)" by (cases p)
  have "json_key k \<notin> (\<lambda>(k, v). json_key k) ` set fs" using Cons.prems p by simp
  then have "json_key k \<notin> fst ` set (enc_fields fs)"
    unfolding enc_fields_keys by force
  then show ?case using Cons p by auto
qed

lemma to_json_field:
  assumes "distinct (map (\<lambda>(k, v). json_key k) fs)" and "(k, v) \<in> set fs" and "v \<noteq> PNone"
  shows "(json_key k, enc_value v) \<in> set (case to_json (PObj c fs) of PDict kvs \<Rightarrow> kvs | _ \<Rightarrow> [])"
  using assms enc_fields_mem[OF assms(2,3)] by (simp add: to_json_def dict_of_id enc_fields_keys_distinct)

text \<open>A flat field value (one the encoder leaves as it is) with an unmarked name is copied.\<close>

lemma enc_fields_flat:
  "\<forall>(k, v) \<in> set fs. \<not> ends_marker k \<and> enc_value v = v \<Longrightarrow>
   enc_fields fs = filter (\<lambda>(k, v). v \<noteq> PNone) fs"
  by (induction fs) (auto simp: json_key_def)

lemma bind_fields_kw:
  assumes "list_all2 (\<lambda>(k, v) (k', d). k = k' \<and> (v = PNone \<longrightarrow> d = Some PNone)) fs dfs"
    and "\<forall>(k, v) \<in> set fs. map_of kvs k = (if v = PNone then None else Some v)"
  shows "bind_fields dfs [] kvs = Inr fs"
  using assms
proof (induction fs dfs rule: list_all2_induct)
  case Nil
  then show ?case by simp
next
  case (Cons x xs y ys)
  then show ?case by (cases x; cases y) (auto split: if_splits)
qed

text \<open>Keyword arguments that all name fields raise no keyword error.\<close>

lemma construct_kw:
  assumes "fst ` set kws \<subseteq> fst ` set (dc_fields c)"
  shows "construct c [] kws = rbind (bind_fields (dc_fields c) [] kws) (\<lambda>fs. Inr (PObj (dc_name c) fs))"
proof -
  have names: "k \<in> set (map fst (dc_fields c))" if "(k, v) \<in> set kws" for k v
    using assms that by force
  have "find (\<lambda>(k, _). k \<notin> set (map fst (dc_fields c)) \<or> k \<in> set (take 0 (map fst (dc_fields c)))) kws = None"
    unfolding find_None_iff using names by auto
  then show ?thesis by (simp add: construct_def)
qed

lemma map_of_filter_distinct:
  assumes "distinct (map fst xs)" and "(k, v) \<in> set xs"
  shows "map_of (filter (\<lambda>(k, v). P v) xs) k = (if P v then Some v else None)"
proof (cases "P v")
  case True
  with assms show ?thesis by (simp add: map_of_filter_in)
next
  case False
  with assms show ?thesis
    by (auto simp: map_of_eq_None_iff dest: eq_key_imp_eq_value)
qed


subsection \<open>Round trip and wire shape\<close>

text \<open>
  C25. \<open>from_json\<close> inverts \<open>to_json\<close> on the instances it can invert: an
  instance of a dataclass whose field names are distinct and carry no \<open>_\<close>
  marker, whose field values are flat (the encoder leaves them unchanged), and
  whose \<open>None\<close> fields have \<open>None\<close> as default (they are dropped on the wire and
  restored from the default).
\<close>

theorem from_json_to_json:
  assumes inst: "list_all2 (\<lambda>(k, v) (k', d). k = k' \<and> (v = PNone \<longrightarrow> d = Some PNone)) fs (dc_fields c)"
    and dist: "distinct (map fst fs)"
    and flat: "\<forall>(k, v) \<in> set fs. \<not> ends_marker k \<and> enc_value v = v"
  shows "from_json c (to_json (PObj (dc_name c) fs)) = Inr (PObj (dc_name c) fs)"
proof -
  let ?kvs = "filter (\<lambda>(k, v). v \<noteq> PNone) fs"
  have enc: "to_json (PObj (dc_name c) fs) = PDict ?kvs"
    using flat dist by (simp add: to_json_def enc_fields_flat dict_of_id distinct_map_filter)
  have names: "map fst fs = map fst (dc_fields c)"
    using inst by (induction rule: list_all2_induct) auto
  have sub: "fst ` set ?kvs \<subseteq> fst ` set (dc_fields c)"
    using arg_cong[OF names, of set] by auto
  have look: "\<forall>(k, v) \<in> set fs. map_of ?kvs k = (if v = PNone then None else Some v)"
    using dist by (auto simp: map_of_filter_distinct)
  show ?thesis
    using enc construct_kw[OF sub] bind_fields_kw[OF inst look] by (simp add: from_json_def)
qed

text \<open>
  C26. What \<open>to_json\<close> puts on the wire: a dict whose keys are the names of the
  fields that are not \<open>None\<close>, with the \<open>_\<close> marker stripped, and none of
  whose values is \<open>None\<close>.
\<close>

theorem to_json_drops_none:
  "case to_json (PObj c fs) of
     PDict kvs \<Rightarrow> fst ` set kvs = json_key ` {k. \<exists>v. (k, v) \<in> set fs \<and> v \<noteq> PNone}
                 \<and> list_all (\<lambda>p. snd p \<noteq> PNone) kvs
   | _ \<Rightarrow> False"
proof -
  have "snd ` set (dict_of (enc_fields fs)) \<subseteq> snd ` set (enc_fields fs)"
    by (rule dict_of_values)
  moreover have "list_all (\<lambda>p. snd p \<noteq> PNone) (enc_fields fs)"
    by (rule enc_fields_values)
  ultimately have "list_all (\<lambda>p. snd p \<noteq> PNone) (dict_of (enc_fields fs))"
    by (fastforce simp: list_all_iff)
  then show ?thesis
    by (simp add: to_json_def dict_of_keys enc_fields_keys)
qed

lemma construct_Inr_obj: "construct c args kws = Inr v \<Longrightarrow> \<exists>fs. v = PObj (dc_name c) fs"
  by (auto simp: construct_def Let_def rbind_def split: option.splits if_splits sum.splits prod.splits)

lemma construct_unexpected:
  assumes "k \<in> fst ` set kws" and "k \<notin> fst ` set (dc_fields c)"
  shows "\<exists>m. construct c args kws = Inl (TypeError m)"
proof -
  let ?P = "\<lambda>(k, _::pyval). k \<notin> set (map fst (dc_fields c)) \<or> k \<in> set (take (length args) (map fst (dc_fields c)))"
  obtain v where "(k, v) \<in> set kws" using assms(1) by force
  moreover have "?P (k, v)" using assms(2) by simp
  ultimately have "find ?P kws \<noteq> None" by (auto simp: find_None_iff)
  then obtain k' v' where "find ?P kws = Some (k', v')" by force
  then show ?thesis by (simp add: construct_def)
qed

lemma bind_fields_lookup:
  "bind_fields dfs [] kvs = Inr fs \<Longrightarrow> n \<in> fst ` set dfs \<Longrightarrow> map_of kvs n = Some v \<Longrightarrow> map_of fs n = Some v"
proof (induction dfs arbitrary: fs)
  case Nil
  then show ?case by simp
next
  case (Cons f dfs)
  obtain k d where f: "f = (k, d)" by (cases f)
  show ?case
  proof (cases "k = n")
    case True
    with Cons.prems f show ?thesis by (auto simp: rbind_def split: sum.splits)
  next
    case False
    with Cons.prems f have "n \<in> fst ` set dfs" by auto
    with Cons.prems f False show ?thesis
      by (auto simp: rbind_def split: sum.splits option.splits dest: Cons.IH)
  qed
qed

lemma construct_kw_Inr:
  "construct c [] kws = Inr v \<Longrightarrow> \<exists>fs. bind_fields (dc_fields c) [] kws = Inr fs \<and> v = PObj (dc_name c) fs"
  by (auto simp: construct_def Let_def rbind_def split: option.splits if_splits sum.splits prod.splits)

end
