(* ===== verification/Channel.thy ===== *)
theory Channel
  imports Bidi
begin

text \<open>
  The protocol channel the interception code drives. The connection object
  \<open>conn\<close> comes from \<open>selenium/webdriver/common/bidi/cdp.py\<close> and the session
  commands from \<open>.../bidi/session.py\<close> and \<open>.../bidi/browsing_context.py\<close>,
  which are not under \<open>src/\<close>; they are modelled from the spec (section 2,
  ``Protocol Channel'', and section 6): \<open>execute(command)\<close> sends the message
  a command generator yields and returns the reply, or raises the error the
  remote end answers with.

  The remote end is a parameter of type \<open>'w remote\<close>: a function from its
  state and a command message to its new state and its reply. The channel keeps
  the remote state and the log of the messages sent, in order, so that
  properties about which commands the client issues are statements about
  \<open>sent\<close>.
\<close>

type_synonym 'w remote = "'w \<Rightarrow> pyval \<Rightarrow> 'w \<times> (exc + pyval)"

record 'w conn =
  world :: 'w
  sent :: "pyval list"

text \<open>\<open>json.dumps\<close> accepts JSON data only: a dataclass object left in a message is refused.\<close>

fun json_serializable :: "pyval \<Rightarrow> bool" where
  "json_serializable (PList xs) = list_all json_serializable xs"
| "json_serializable (PDict kvs) = list_all (\<lambda>kv. json_serializable (snd kv)) kvs"
| "json_serializable (PObj c fs) = False"
| "json_serializable v = True"

text \<open>
  \<open>conn.execute(gen)\<close>: serialise the message the generator yields (nothing is
  sent when that fails), send it, resume the generator with the reply and return
  what it returns; an error reply is raised.
\<close>

definition conn_execute :: "'w remote \<Rightarrow> pyval \<times> (pyval \<Rightarrow> 'a) \<Rightarrow> ('w conn, 'a) pyst" where
  "conn_execute ex c = (\<lambda>cn.
     if \<not> json_serializable (fst c) then (cn, Inl (TypeError ''Object is not JSON serializable''))
     else case ex (world cn) (fst c) of
       (w', r) \<Rightarrow> (cn\<lparr>world := w', sent := sent cn @ [fst c]\<rparr>,
                  (case r of Inl e \<Rightarrow> Inl e | Inr v \<Rightarrow> Inr (snd c v))))"

text \<open>
  A remote end that accepts every command: the hypothesis under which the
  client's own behaviour, not the remote's refusals, decides the outcome.
\<close>

definition accepts_all :: "'w remote \<Rightarrow> bool" where
  "accepts_all ex \<longleftrightarrow> (\<forall>w m. \<exists>w' v. ex w m = (w', Inr v))"

text \<open>
  A remote end for examples: it accepts every command and answers
  \<open>{"intercept": i}\<close>.
\<close>

definition accept_remote :: "string \<Rightarrow> unit remote" where
  "accept_remote i = (\<lambda>w m. (w, Inr (PDict [(''intercept'', PStr i)])))"

section \<open>Commands defined outside the modelled files\<close>

text \<open>\<open>session_subscribe(event)\<close> and \<open>session_unsubscribe(event)\<close>: they return \<open>None\<close>.\<close>

definition session_subscribe :: "pyval \<Rightarrow> pyval \<times> (pyval \<Rightarrow> pyval)" where
  "session_subscribe ev =
     (PDict [(''method'', PStr ''session.subscribe''), (''params'', PDict [(''events'', PList [ev])])],
      \<lambda>_. PNone)"

definition session_unsubscribe :: "pyval \<Rightarrow> pyval \<times> (pyval \<Rightarrow> pyval)" where
  "session_unsubscribe ev =
     (PDict [(''method'', PStr ''session.unsubscribe''), (''params'', PDict [(''events'', PList [ev])])],
      \<lambda>_. PNone)"

text \<open>\<open>Navigate(NavigateParameters(context, url, wait)).cmd()\<close>.\<close>

definition navigate :: "string \<Rightarrow> string \<Rightarrow> string \<Rightarrow> pyval \<times> (pyval \<Rightarrow> pyval)" where
  "navigate ctx url wait =
     (PDict [(''params'', PDict [(''context'', PStr ctx), (''url'', PStr url), (''wait'', PStr wait)]),
             (''method'', PStr ''browsingContext.navigate'')],
      \<lambda>result. result)"

section \<open>Properties of the channel\<close>

lemma accept_remote_accepts [intro]: "accepts_all (accept_remote i)"
  by (simp add: accepts_all_def accept_remote_def)

lemma conn_execute_sent:
  "sent (fst (conn_execute ex c cn)) = (if json_serializable (fst c) then sent cn @ [fst c] else sent cn)"
  by (simp add: conn_execute_def split: prod.splits)

lemma conn_execute_ok:
  "json_serializable (fst c) \<Longrightarrow> conn_execute ex c cn =
     (cn\<lparr>world := fst (ex (world cn) (fst c)), sent := sent cn @ [fst c]\<rparr>,
      map_sum id (snd c) (snd (ex (world cn) (fst c))))"
  by (simp add: conn_execute_def split: prod.splits sum.splits)

lemma hashable_serializable [simp]: "py_hashable v \<Longrightarrow> json_serializable v"
  by (cases v) auto

lemma conn_execute_accepts:
  assumes "accepts_all ex" and "json_serializable (fst c)"
  obtains v where "conn_execute ex c cn =
    (cn\<lparr>world := fst (ex (world cn) (fst c)), sent := sent cn @ [fst c]\<rparr>, Inr (snd c v))"
proof -
  obtain w' v where "ex (world cn) (fst c) = (w', Inr v)" using assms(1) by (meson accepts_all_def)
  with assms(2) have "conn_execute ex c cn = (cn\<lparr>world := fst (ex (world cn) (fst c)), sent := sent cn @ [fst c]\<rparr>, Inr (snd c v))"
    by (simp add: conn_execute_ok)
  then show ?thesis by (rule that)
qed

end
