(* ===== verification/Encoding.thy ===== *)
theory Encoding
  imports Channel
begin

text \<open>
  What \<open>BidiObject.to_json\<close> (\<open>bidi.py\<close>, lines 26--40) produces for
  \<open>json.dumps\<close>. \<open>encodable\<close> is the shape of value whose encoding \<open>json.dumps\<close>
  accepts. A dataclass may sit at the top, in a field, or as an element of a list
  or dict field. Anywhere deeper, the encoder leaves it unencoded.
\<close>

section \<open>Encodable values\<close>

fun encodable :: "pyval \<Rightarrow> bool" where
  "encodable (PObj c fs) = list_all (\<lambda>(n, v). encodable v) fs"
| "encodable (PList vs) = list_all (\<lambda>v. case v of PObj c fs \<Rightarrow> encodable v | _ \<Rightarrow> json_serializable v) vs"
| "encodable (PDict kvs) = list_all (\<lambda>(k, v). case v of PObj c fs \<Rightarrow> encodable v | _ \<Rightarrow> json_serializable v) kvs"
| "encodable v = True"

section \<open>Properties of the encoder\<close>

lemma encodable_serializable:
  "(case v of PObj c fs \<Rightarrow> encodable v | _ \<Rightarrow> json_serializable v) \<Longrightarrow> json_serializable (enc_item v)"
  "encodable v \<Longrightarrow> json_serializable (enc_value v)"
  "list_all (\<lambda>(n, v). encodable v) fs \<Longrightarrow> list_all (\<lambda>kv. json_serializable (snd kv)) (enc_fields fs)"
  "list_all (\<lambda>v. case v of PObj c fs \<Rightarrow> encodable v | _ \<Rightarrow> json_serializable v) vs \<Longrightarrow> list_all json_serializable (enc_elems vs)"
  "list_all (\<lambda>(k, v). case v of PObj c fs \<Rightarrow> encodable v | _ \<Rightarrow> json_serializable v) kvs \<Longrightarrow>
     list_all (\<lambda>kv. json_serializable (snd kv)) (enc_entries kvs)"
proof (induction v and v and fs and vs and kvs rule: enc_item_enc_value_enc_fields_enc_elems_enc_entries.induct)
  case (1 c fs)
  then show ?case using dict_of_values[of "enc_fields fs"] by (fastforce simp: list_all_iff)
next
  case (3 c fs)
  then show ?case using dict_of_values[of "enc_fields fs"] by (fastforce simp: list_all_iff)
qed (auto split: pyval.splits)

text \<open>
  C24. The encoding of an encodable dataclass instance is JSON data: to_json
  never leaves a dataclass object in it, so json.dumps accepts the message.
\<close>

theorem to_json_serializable:
  "encodable (PObj c fs) \<Longrightarrow> json_serializable (to_json (PObj c fs))"
  using encodable_serializable(2)[of "PObj c fs"] by (simp add: to_json_def)

theorem to_json_serializable_witness:
  "json_serializable (to_json (PObj ''AddInterceptParameters''
     [(''phases'', PList [PStr ''beforeRequestSent'']), (''contexts'', PNone),
      (''urlPatterns'', PList [PObj ''UrlPatternString'' [(''pattern'', PStr ''u1''), (''type_'', PStr ''string'')]])]))"
  using to_json_serializable[of "''AddInterceptParameters''" "[(''phases'', PList [PStr ''beforeRequestSent'']), (''contexts'', PNone),
      (''urlPatterns'', PList [PObj ''UrlPatternString'' [(''pattern'', PStr ''u1''), (''type_'', PStr ''string'')]])]"]
  by simp

end
