(* ===== verification/BidiNetwork.thy ===== *)
theory BidiNetwork
  imports Encoding
begin

text \<open>
  The network module of the BiDi protocol,
  \<open>src/py/selenium/webdriver/common/bidi/network.py\<close>: its dataclasses, one
  descriptor each (name, fields in declaration order, defaults), and the
  \<open>Network\<close> class, whose three coroutines build a command object and run it
  through \<open>conn.execute\<close>. Optional fields default to \<open>None\<close>; the
  \<open>typing.Literal\<close> fields default to their single value.
\<close>

section \<open>Dataclasses\<close>

definition UrlPatternPattern :: dataclass where
  "UrlPatternPattern = \<lparr>dc_name = ''UrlPatternPattern'', dc_fields =
     [(''type_'', Some (PStr ''pattern'')), (''protocol'', Some PNone), (''hostname'', Some PNone),
      (''port'', Some PNone), (''pathname'', Some PNone), (''search'', Some PNone)]\<rparr>"

definition UrlPatternString :: dataclass where
  "UrlPatternString = \<lparr>dc_name = ''UrlPatternString'', dc_fields =
     [(''pattern'', None), (''type_'', Some (PStr ''string''))]\<rparr>"

definition AddInterceptParameters :: dataclass where
  "AddInterceptParameters = \<lparr>dc_name = ''AddInterceptParameters'', dc_fields =
     [(''phases'', None), (''contexts'', Some PNone), (''urlPatterns'', Some PNone)]\<rparr>"

definition AddIntercept :: dataclass where
  "AddIntercept = \<lparr>dc_name = ''AddIntercept'', dc_fields =
     [(''params'', None), (''method'', Some (PStr ''network.addIntercept''))]\<rparr>"

definition StringValue :: dataclass where
  "StringValue = \<lparr>dc_name = ''StringValue'', dc_fields =
     [(''value'', None), (''type_'', Some (PStr ''string''))]\<rparr>"

definition Base64Value :: dataclass where
  "Base64Value = \<lparr>dc_name = ''Base64Value'', dc_fields =
     [(''value'', None), (''type_'', Some (PStr ''base64''))]\<rparr>"

definition CookieHeader :: dataclass where
  "CookieHeader = \<lparr>dc_name = ''CookieHeader'', dc_fields = [(''name'', None), (''value'', None)]\<rparr>"

definition Header :: dataclass where
  "Header = \<lparr>dc_name = ''Header'', dc_fields = [(''name'', None), (''value'', None)]\<rparr>"

definition ContinueRequestParameters :: dataclass where
  "ContinueRequestParameters = \<lparr>dc_name = ''ContinueRequestParameters'', dc_fields =
     [(''request'', None), (''body'', Some PNone), (''cookies'', Some PNone),
      (''headers'', Some PNone), (''method'', Some PNone), (''url'', Some PNone)]\<rparr>"

definition ContinueRequest :: dataclass where
  "ContinueRequest = \<lparr>dc_name = ''ContinueRequest'', dc_fields =
     [(''params'', None), (''method'', Some (PStr ''network.continueRequest''))]\<rparr>"

definition RemoveInterceptParameters :: dataclass where
  "RemoveInterceptParameters = \<lparr>dc_name = ''RemoveInterceptParameters'', dc_fields =
     [(''intercept'', None)]\<rparr>"

definition RemoveIntercept :: dataclass where
  "RemoveIntercept = \<lparr>dc_name = ''RemoveIntercept'', dc_fields =
     [(''params'', None), (''method'', Some (PStr ''network.removeIntercept''))]\<rparr>"

definition Cookie :: dataclass where
  "Cookie = \<lparr>dc_name = ''Cookie'', dc_fields =
     [(''name'', None), (''value'', None), (''domain'', None), (''path'', None), (''size'', None),
      (''httpOnly'', None), (''secure'', None), (''sameSite'', None), (''expiry'', Some PNone)]\<rparr>"

definition FetchTimingInfo :: dataclass where
  "FetchTimingInfo = \<lparr>dc_name = ''FetchTimingInfo'', dc_fields =
     map (\<lambda>n. (n, None))
       [''timeOrigin'', ''requestTime'', ''redirectStart'', ''redirectEnd'', ''fetchStart'',
        ''dnsStart'', ''dnsEnd'', ''connectStart'', ''connectEnd'', ''tlsStart'',
        ''requestStart'', ''responseStart'', ''responseEnd'']\<rparr>"

definition RequestData :: dataclass where
  "RequestData = \<lparr>dc_name = ''RequestData'', dc_fields =
     [(''request'', None), (''url'', None), (''method'', None), (''headersSize'', None),
      (''timings'', None), (''headers'', Some PNone), (''cookies'', Some PNone), (''bodySize'', Some PNone)]\<rparr>"

definition Initiator :: dataclass where
  "Initiator = \<lparr>dc_name = ''Initiator'', dc_fields =
     [(''type_'', None), (''columnNumber'', Some PNone), (''lineNumber'', Some PNone),
      (''stackTrace'', Some PNone), (''request'', Some PNone)]\<rparr>"

definition BeforeRequestSentParameters :: dataclass where
  "BeforeRequestSentParameters = \<lparr>dc_name = ''BeforeRequestSentParameters'', dc_fields =
     [(''isBlocked'', None), (''redirectCount'', None), (''request'', None), (''timestamp'', None),
      (''initiator'', None), (''context'', Some PNone), (''navigation'', Some PNone),
      (''intercepts'', Some PNone)]\<rparr>"

definition BeforeRequestSent :: dataclass where
  "BeforeRequestSent = \<lparr>dc_name = ''BeforeRequestSent'', dc_fields =
     [(''params'', None), (''method'', Some (PStr ''network.beforeRequestSent''))]\<rparr>"

text \<open>The \<open>event_class\<close> decorator names the event \<open>BeforeRequestSent\<close> stands for.\<close>

definition BeforeRequestSent_event_class :: string where
  "BeforeRequestSent_event_class = ''network.beforeRequestSent''"

section \<open>The \<open>Network\<close> class\<close>

text \<open>
  \<open>Network(conn)\<close> keeps only the connection; its coroutines are commands on
  the channel (named here with a \<open>bidi_\<close> prefix, as the interception
  manager calls them through its \<open>bidi_network\<close> attribute).
  \<open>add_intercept\<close> and \<open>continue_request\<close> return the reply,
  \<open>remove_intercept\<close> returns \<open>None\<close>.
\<close>

definition bidi_add_intercept :: "'w remote \<Rightarrow> pyval \<Rightarrow> ('w conn, pyval) pyst" where
  "bidi_add_intercept ex params =
     sbind (slift (construct AddIntercept [params] [])) (\<lambda>c. conn_execute ex (cmd c))"

definition bidi_continue_request :: "'w remote \<Rightarrow> pyval \<Rightarrow> ('w conn, pyval) pyst" where
  "bidi_continue_request ex params =
     sbind (slift (construct ContinueRequest [params] [])) (\<lambda>c. conn_execute ex (cmd c))"

definition bidi_remove_intercept :: "'w remote \<Rightarrow> pyval \<Rightarrow> ('w conn, pyval) pyst" where
  "bidi_remove_intercept ex params =
     sbind (slift (construct RemoveIntercept [params] []))
       (\<lambda>c. sbind (conn_execute ex (cmd c)) (\<lambda>_. sreturn PNone))"

section \<open>Properties of the commands\<close>

lemma construct_command:
  "construct \<lparr>dc_name = n, dc_fields = [(''params'', None), (''method'', Some (PStr m))]\<rparr> [p] [] =
     Inr (PObj n [(''params'', p), (''method'', PStr m)])"
  by (simp add: construct_def)

lemma to_json_command:
  "p \<noteq> PNone \<Longrightarrow> to_json (PObj c [(''params'', p), (''method'', PStr m)]) =
     PDict [(''params'', enc_value p), (''method'', PStr m)]"
  by (simp add: to_json_def dict_of_def json_key_def ends_marker_def)

lemmas command_classes = AddIntercept_def ContinueRequest_def RemoveIntercept_def

text \<open>The message each coroutine sends, for a parameters object.\<close>

lemma bidi_add_intercept_msg:
  "p \<noteq> PNone \<Longrightarrow> bidi_add_intercept ex p =
     conn_execute ex (PDict [(''params'', enc_value p), (''method'', PStr ''network.addIntercept'')], \<lambda>r. r)"
  by (simp add: bidi_add_intercept_def AddIntercept_def construct_command cmd_def to_json_command)

lemma bidi_continue_request_msg:
  "p \<noteq> PNone \<Longrightarrow> bidi_continue_request ex p =
     conn_execute ex (PDict [(''params'', enc_value p), (''method'', PStr ''network.continueRequest'')], \<lambda>r. r)"
  by (simp add: bidi_continue_request_def ContinueRequest_def construct_command cmd_def to_json_command)

lemma bidi_remove_intercept_msg:
  "p \<noteq> PNone \<Longrightarrow> bidi_remove_intercept ex p =
     sbind (conn_execute ex (PDict [(''params'', enc_value p), (''method'', PStr ''network.removeIntercept'')], \<lambda>r. r))
       (\<lambda>_. sreturn PNone)"
  by (simp add: bidi_remove_intercept_def RemoveIntercept_def construct_command cmd_def to_json_command)

section \<open>The message model on the network classes\<close>

text \<open>Witness of C13 on a \<open>ContinueRequestParameters\<close> with a rewritten URL.\<close>

theorem from_json_to_json_witness:
  "from_json ContinueRequestParameters (to_json (PObj (dc_name ContinueRequestParameters)
      [(''request'', PStr ''r1''), (''body'', PNone), (''cookies'', PNone), (''headers'', PNone),
       (''method'', PNone), (''url'', PStr ''u3'')]))
   = Inr (PObj (dc_name ContinueRequestParameters)
      [(''request'', PStr ''r1''), (''body'', PNone), (''cookies'', PNone), (''headers'', PNone),
       (''method'', PNone), (''url'', PStr ''u3'')])"
  using from_json_to_json[of "[(''request'', PStr ''r1''), (''body'', PNone), (''cookies'', PNone),
      (''headers'', PNone), (''method'', PNone), (''url'', PStr ''u3'')]" ContinueRequestParameters]
  by (simp add: ContinueRequestParameters_def ends_marker_def)

text \<open>
  C27. The round trip fails on every instance with a marked field that is set:
  to_json writes a field such as type_ under the key with the marker stripped
  (type), which names no field of the class, so from_json passes it back to the
  constructor as an unexpected keyword argument and raises TypeError. The
  classes UrlPatternPattern, UrlPatternString, StringValue, Base64Value and
  Initiator have such a field, and the first four set it by default.
\<close>

theorem marked_field_roundtrip_fails:
  assumes f: "(k, v) \<in> set fs" and m: "ends_marker k" and v: "v \<noteq> PNone"
    and nf: "json_key k \<notin> fst ` set (dc_fields c)"
  shows "\<exists>msg. from_json c (to_json (PObj n fs)) = Inl (TypeError msg)"
proof -
  have "json_key k \<in> json_key ` {k. \<exists>v. (k, v) \<in> set fs \<and> v \<noteq> PNone}" using f v by blast
  then have "json_key k \<in> fst ` set (dict_of (enc_fields fs))"
    by (simp add: dict_of_keys enc_fields_keys)
  then show ?thesis
    using construct_unexpected[OF _ nf, of "dict_of (enc_fields fs)" "[]"] by (simp add: to_json_def from_json_def)
qed

theorem marked_field_roundtrip_fails_witness:
  "construct UrlPatternString [PStr ''u1''] [] =
     Inr (PObj ''UrlPatternString'' [(''pattern'', PStr ''u1''), (''type_'', PStr ''string'')]) \<and>
   (\<exists>msg. from_json UrlPatternString (to_json (PObj ''UrlPatternString'' [(''pattern'', PStr ''u1''), (''type_'', PStr ''string'')]))
      = Inl (TypeError msg))"
  using marked_field_roundtrip_fails[where k = "''type_''" and v = "PStr ''string''" and c = UrlPatternString
      and fs = "[(''pattern'', PStr ''u1''), (''type_'', PStr ''string'')]" and n = "''UrlPatternString''"]
  by (simp add: construct_def UrlPatternString_def json_key_def ends_marker_def)

text \<open>
  C28. to_json encodes the elements of a list field one level deep only:
  whenever a field (its key distinct on the wire) holds a list whose element is
  a list containing a dataclass object, that object is left unencoded, the
  result is not JSON data, and the addIntercept command built from such
  parameters is refused by conn.execute before anything is sent.
\<close>

theorem nested_list_unencoded:
  assumes d: "distinct (map (\<lambda>(k, v). json_key k) fs)"
    and f: "(k, PList vs) \<in> set fs" and l: "PList ws \<in> set vs" and o: "PObj n gs \<in> set ws"
  shows "\<not> json_serializable (to_json (PObj c fs)) \<and>
         bidi_add_intercept ex (PObj c fs) cn = (cn, Inl (TypeError ''Object is not JSON serializable''))"
proof -
  have "(json_key k, PList (enc_elems vs)) \<in> set (case to_json (PObj c fs) of PDict kvs \<Rightarrow> kvs | _ \<Rightarrow> [])"
    using to_json_field[OF d f] by simp
  moreover have "PList ws \<in> set (enc_elems vs)" using enc_elems_mem[OF l] by simp
  moreover have "\<not> json_serializable (PList ws)"
    unfolding json_serializable.simps list_all_iff using o by force
  ultimately have ns: "\<not> json_serializable (to_json (PObj c fs))"
    by (fastforce simp: to_json_def list_all_iff)
  then have "\<not> json_serializable (enc_value (PObj c fs))" by (simp add: to_json_def)
  then show ?thesis
    using ns by (simp add: bidi_add_intercept_msg conn_execute_def del: enc_value.simps)
qed

theorem nested_list_unencoded_witness:
  "\<not> json_serializable (to_json (PObj ''AddInterceptParameters''
      [(''phases'', PList [PStr ''beforeRequestSent'']), (''contexts'', PNone),
       (''urlPatterns'', PList [PList [PObj ''UrlPatternString'' [(''pattern'', PStr ''u1''), (''type_'', PStr ''string'')]]])])) \<and>
   bidi_add_intercept (accept_remote ''i'') (PObj ''AddInterceptParameters''
      [(''phases'', PList [PStr ''beforeRequestSent'']), (''contexts'', PNone),
       (''urlPatterns'', PList [PList [PObj ''UrlPatternString'' [(''pattern'', PStr ''u1''), (''type_'', PStr ''string'')]]])])
      \<lparr>world = (), sent = []\<rparr> = (\<lparr>world = (), sent = []\<rparr>, Inl (TypeError ''Object is not JSON serializable''))"
  by (rule nested_list_unencoded[where k = "''urlPatterns''"
      and vs = "[PList [PObj ''UrlPatternString'' [(''pattern'', PStr ''u1''), (''type_'', PStr ''string'')]]]"
      and ws = "[PObj ''UrlPatternString'' [(''pattern'', PStr ''u1''), (''type_'', PStr ''string'')]]"
      and n = "''UrlPatternString''" and gs = "[(''pattern'', PStr ''u1''), (''type_'', PStr ''string'')]"])
     (simp_all add: json_key_def ends_marker_def)

text \<open>
  C29. BidiEvent.from_json is not recursive: decoding a beforeRequestSent event
  whose parameters bind builds the event object around the parameters object,
  and the parameters' request field is the wire value itself (a raw dict, not a
  RequestData instance).
\<close>

lemma event_from_json_raw_params:
  assumes p: "construct BeforeRequestSentParameters [] kvs = Inr p" and r: "map_of kvs ''request'' = Some r"
  shows "event_from_json BeforeRequestSent BeforeRequestSentParameters (PDict kvs) =
           Inr (PObj ''BeforeRequestSent'' [(''params'', p), (''method'', PStr ''network.beforeRequestSent'')]) \<and>
         getattr p ''request'' = Inr r"
proof -
  obtain fs where b: "bind_fields (dc_fields BeforeRequestSentParameters) [] kvs = Inr fs"
    and pv: "p = PObj ''BeforeRequestSentParameters'' fs"
    using construct_kw_Inr[OF p] by (auto simp: BeforeRequestSentParameters_def)
  have "map_of fs ''request'' = Some r"
    using bind_fields_lookup[OF b _ r] by (simp add: BeforeRequestSentParameters_def)
  then show ?thesis
    using p pv by (simp add: event_from_json_def from_json_def BeforeRequestSent_def construct_command)
qed

lemma event_from_json_raw_params_witness:
  "event_from_json BeforeRequestSent BeforeRequestSentParameters
     (PDict [(''isBlocked'', PBool True), (''redirectCount'', PInt 0), (''request'', (PDict [(''request'', PStr ''r1''), (''url'', PStr ''u1''), (''method'', PStr ''GET''), (''headersSize'', PInt 0)])),
             (''timestamp'', PInt 0), (''initiator'', PDict [(''type'', PStr ''other'')])]) =
   Inr (PObj ''BeforeRequestSent''
     [(''params'', PObj ''BeforeRequestSentParameters''
        [(''isBlocked'', PBool True), (''redirectCount'', PInt 0), (''request'', (PDict [(''request'', PStr ''r1''), (''url'', PStr ''u1''), (''method'', PStr ''GET''), (''headersSize'', PInt 0)])),
         (''timestamp'', PInt 0), (''initiator'', PDict [(''type'', PStr ''other'')]),
         (''context'', PNone), (''navigation'', PNone), (''intercepts'', PNone)]),
      (''method'', PStr ''network.beforeRequestSent'')]) \<and>
   getattr (PObj ''BeforeRequestSentParameters''
        [(''isBlocked'', PBool True), (''redirectCount'', PInt 0), (''request'', (PDict [(''request'', PStr ''r1''), (''url'', PStr ''u1''), (''method'', PStr ''GET''), (''headersSize'', PInt 0)])),
         (''timestamp'', PInt 0), (''initiator'', PDict [(''type'', PStr ''other'')]),
         (''context'', PNone), (''navigation'', PNone), (''intercepts'', PNone)]) ''request'' = Inr (PDict [(''request'', PStr ''r1''), (''url'', PStr ''u1''), (''method'', PStr ''GET''), (''headersSize'', PInt 0)])"
  using event_from_json_raw_params[where kvs = "[(''isBlocked'', PBool True), (''redirectCount'', PInt 0), (''request'', (PDict [(''request'', PStr ''r1''), (''url'', PStr ''u1''), (''method'', PStr ''GET''), (''headersSize'', PInt 0)])),
             (''timestamp'', PInt 0), (''initiator'', PDict [(''type'', PStr ''other'')])]"
      and p = "PObj ''BeforeRequestSentParameters''
        [(''isBlocked'', PBool True), (''redirectCount'', PInt 0), (''request'', (PDict [(''request'', PStr ''r1''), (''url'', PStr ''u1''), (''method'', PStr ''GET''), (''headersSize'', PInt 0)])),
         (''timestamp'', PInt 0), (''initiator'', PDict [(''type'', PStr ''other'')]),
         (''context'', PNone), (''navigation'', PNone), (''intercepts'', PNone)]" and r = "PDict [(''request'', PStr ''r1''), (''url'', PStr ''u1''), (''method'', PStr ''GET''), (''headersSize'', PInt 0)]"]
  by (simp add: construct_def BeforeRequestSentParameters_def)

end
