(* ===== verification/RemoteNetwork.thy ===== *)
theory RemoteNetwork
  imports BidiNetwork
begin

text \<open>
  The interception manager, \<open>src/py/selenium/webdriver/remote/network.py\<close>,
  class \<open>Network\<close>. Its state (\<open>'w net\<close>) is the object's attributes:
  \<^item> \<open>conn\<close>: the connection (with the remote state \<open>'w\<close> and the log of sent
    messages, theory \<open>Channel\<close>);
  \<^item> \<open>listeners\<close>: \<open>self.listeners\<close>, event name to the open event stream
    (a handle number; \<open>next_listener\<close> numbers the streams \<open>conn.listen\<close> opens);
  \<^item> \<open>intercepts\<close>: the \<open>defaultdict\<close> \<open>self.intercepts\<close>, intercept id to an
    entry \<open>{"event_name": ..., "handlers": [...]}\<close>;
  \<^item> \<open>pending\<close>: the listener tasks \<open>nursery.start_soon\<close> has scheduled and that
    have not run yet (their event names).

  Coroutines are state transformers in the state-and-exception monad of the
  prelude. The listener tasks run at checkpoints: trio runs every scheduled
  task at the next \<open>await\<close> that blocks, and each \<open>conn.execute\<close> blocks for the
  reply, so \<open>await_conn\<close> first starts the pending tasks (\<open>run_pending\<close>) and
  then runs the command. Between two operations of the caller, an event taken by
  a listener task is one step (\<open>listener_event\<close>); the finer interleavings
  inside an operation are not modelled.
\<close>

section \<open>State\<close>

type_synonym handler = "pyval \<Rightarrow> exc + pyval"

record entry =
  event_name :: pyval
  handlers :: "handler list"

text \<open>The default factory of \<open>self.intercepts\<close> (line 38).\<close>

definition default_entry :: entry where
  "default_entry = \<lparr>event_name = PNone, handlers = []\<rparr>"

record 'w net =
  conn :: "'w conn"
  listeners :: "(pyval \<times> nat) list"
  intercepts :: "(pyval \<times> entry) list"
  pending :: "pyval list"
  next_listener :: nat

text \<open>\<open>Network(driver)\<close> once \<open>set_context\<close> has opened the connection \<open>c\<close>.\<close>

definition net_init :: "'w conn \<Rightarrow> 'w net" where
  "net_init c = \<lparr>conn = c, listeners = [], intercepts = [], pending = [], next_listener = 0\<rparr>"

section \<open>Listener tasks and checkpoints\<close>

text \<open>
  The start of the task \<open>add_listener(event, callback)\<close> (lines 60--64): it
  ends at once when a listener for the event exists, and otherwise opens a
  stream with \<open>conn.listen\<close> and stores it.
\<close>

definition start_listener :: "pyval \<Rightarrow> 'w net \<Rightarrow> 'w net" where
  "start_listener ev s =
     (if ev \<in> fst ` set (listeners s) then s
      else s\<lparr>listeners := AList.update ev (next_listener s) (listeners s),
             next_listener := Suc (next_listener s)\<rparr>)"

definition run_pending :: "'w net \<Rightarrow> 'w net" where
  "run_pending s = foldl (\<lambda>s ev. start_listener ev s) (s\<lparr>pending := []\<rparr>) (pending s)"

text \<open>\<open>await\<close> of a channel command: a checkpoint, then the command.\<close>

definition await_conn :: "('w conn, 'a) pyst \<Rightarrow> ('w net, 'a) pyst" where
  "await_conn m = (\<lambda>s. let s0 = run_pending s in case m (conn s0) of (c', r) \<Rightarrow> (s0\<lparr>conn := c'\<rparr>, r))"

text \<open>A method of \<open>self.intercepts\<close> run on the manager's state.\<close>

definition on_intercepts :: "((pyval \<times> entry) list, 'a) pyst \<Rightarrow> ('w net, 'a) pyst" where
  "on_intercepts m = (\<lambda>s. case m (intercepts s) of (d', r) \<Rightarrow> (s\<lparr>intercepts := d'\<rparr>, r))"

text \<open>\<open>d[k][field] = ...\<close> through the \<open>defaultdict\<close>: read (inserting the default), then store the changed entry.\<close>

definition dd_modify :: "pyval \<Rightarrow> (entry \<Rightarrow> entry) \<Rightarrow> ((pyval \<times> entry) list, unit) pyst" where
  "dd_modify k f = sbind (dd_get default_entry k) (\<lambda>e d. (AList.update k (f e) d, Inr ()))"

section \<open>Navigation\<close>

text \<open>\<open>get(url, wait)\<close> (lines 56--58); \<open>ctx\<close> is \<open>driver.current_window_handle\<close>.\<close>

definition get :: "'w remote \<Rightarrow> string \<Rightarrow> string \<Rightarrow> string \<Rightarrow> ('w net, unit) pyst" where
  "get ex ctx url wait = sbind (await_conn (conn_execute ex (navigate ctx url wait))) (\<lambda>_. sreturn ())"

section \<open>Registering handlers\<close>

text \<open>\<open>event_name.split(".")[-1]\<close>.\<close>

definition phase_of :: "string \<Rightarrow> string" where
  "phase_of ev = rev (takeWhile (\<lambda>c. c \<noteq> CHR ''.'') (rev ev))"

text \<open>\<open>result["intercept"]\<close> on the reply.\<close>

definition subscript :: "pyval \<Rightarrow> string \<Rightarrow> exc + pyval" where
  "subscript v k = (case v of
      PDict kvs \<Rightarrow> (case map_of kvs k of Some x \<Rightarrow> Inr x | None \<Rightarrow> Inl (KeyError (PStr k)))
    | _ \<Rightarrow> Inl (TypeError ''object is not subscriptable''))"

text \<open>Lines 83--84: set the entry's event name, append the handler.\<close>

definition register_intercept :: "pyval \<Rightarrow> pyval \<Rightarrow> handler \<Rightarrow> ((pyval \<times> entry) list, unit) pyst" where
  "register_intercept intercept ev handler =
     sbind (dd_modify intercept (\<lambda>e. e\<lparr>event_name := ev\<rparr>)) (\<lambda>_.
     dd_modify intercept (\<lambda>e. e\<lparr>handlers := handlers e @ [handler]\<rparr>))"

text \<open>
  \<open>add_handler(event, handler, urlPatterns)\<close> (lines 73--86), with the event
  class given by its name \<open>name\<close> (\<open>event_name = event.event_class\<close>).
\<close>

definition add_handler :: "'w remote \<Rightarrow> string \<Rightarrow> handler \<Rightarrow> pyval \<Rightarrow> ('w net, pyval) pyst" where
  "add_handler ex name handler urlPatterns =
     (let phase_name = phase_of name in
      sbind (await_conn (conn_execute ex (session_subscribe (PStr name)))) (\<lambda>_.
      sbind (slift (construct AddInterceptParameters []
                      [(''phases'', PList [PStr phase_name]), (''urlPatterns'', urlPatterns)])) (\<lambda>params.
      sbind (await_conn (bidi_add_intercept ex params)) (\<lambda>result.
      sbind (slift (subscript result ''intercept'')) (\<lambda>intercept.
      sbind (on_intercepts (register_intercept intercept (PStr name) handler)) (\<lambda>_.
      (\<lambda>s. (s\<lparr>pending := pending s @ [PStr name]\<rparr>, Inr intercept))))))))"

definition add_request_handler :: "'w remote \<Rightarrow> handler \<Rightarrow> pyval \<Rightarrow> ('w net, pyval) pyst" where
  "add_request_handler ex handler urlPatterns =
     add_handler ex BeforeRequestSent_event_class handler urlPatterns"

section \<open>The handler pipeline\<close>

text \<open>The inner loop of \<open>handle_requests\<close> (lines 101--102): one rule's handlers in order.\<close>

fun run_handlers :: "handler list \<Rightarrow> pyval \<Rightarrow> exc + pyval" where
  "run_handlers [] request = Inr request"
| "run_handlers (h # hs) request = rbind (h request) (run_handlers hs)"

text \<open>The outer loop (lines 100--102): the rules of the event, in the event's order.\<close>

fun handle_intercepts :: "pyval list \<Rightarrow> pyval \<Rightarrow> ((pyval \<times> entry) list, pyval) pyst" where
  "handle_intercepts [] request = sreturn request"
| "handle_intercepts (i # is) request =
     sbind (dd_get default_entry i) (\<lambda>e.
     sbind (slift (run_handlers (handlers e) request)) (\<lambda>request'.
     handle_intercepts is request'))"

definition handle_requests :: "pyval \<Rightarrow> ('w net, pyval) pyst" where
  "handle_requests params =
     sbind (slift (getattr params ''request'')) (\<lambda>request.
     sbind (slift (rbind (getattr params ''intercepts'') py_iter)) (\<lambda>ids.
     on_intercepts (handle_intercepts ids request)))"

definition handle_events :: "'w remote \<Rightarrow> pyval \<Rightarrow> ('w net, unit) pyst" where
  "handle_events ex event_params =
     (if is_instance BeforeRequestSentParameters event_params then
        sbind (handle_requests event_params) (\<lambda>json.
        sbind (slift (from_json ContinueRequestParameters json)) (\<lambda>params.
        sbind (await_conn (bidi_continue_request ex params)) (\<lambda>_. sreturn ())))
      else sreturn ())"

text \<open>
  One iteration of the \<open>async for\<close> of \<open>add_listener\<close> (lines 66--69), whose
  callback is \<open>handle_events\<close>: a blocked event is handled, another is skipped.
\<close>

definition listener_event :: "'w remote \<Rightarrow> pyval \<Rightarrow> ('w net, unit) pyst" where
  "listener_event ex event =
     sbind (slift (getattr event ''params'')) (\<lambda>request_data.
     sbind (slift (getattr request_data ''isBlocked'')) (\<lambda>blocked.
     if truthy blocked then handle_events ex request_data else sreturn ()))"

section \<open>Removing rules\<close>

definition remove_listener :: "pyval \<Rightarrow> ('w net, unit) pyst" where
  "remove_listener name = (\<lambda>s. case dict_pop name (listeners s) of
      Inl e \<Rightarrow> (s, Inl e)
    | Inr (listener, d) \<Rightarrow> (s\<lparr>listeners := d\<rparr>, Inr ()))"

text \<open>
  Lines 113--117 after the entry is popped: when no rule of its event is left,
  close the event's listener and unsubscribe from the event.
\<close>

definition release_event :: "'w remote \<Rightarrow> entry \<Rightarrow> ('w net, unit) pyst" where
  "release_event ex entry = (\<lambda>s.
     if [i \<leftarrow> map snd (intercepts s). event_name i = event_name entry] = [] then
       sbind (remove_listener (event_name entry)) (\<lambda>_.
       sbind (await_conn (conn_execute ex (session_unsubscribe (event_name entry)))) (\<lambda>_.
       sreturn ())) s
     else (s, Inr ()))"

definition remove_intercept :: "'w remote \<Rightarrow> pyval \<Rightarrow> ('w net, unit) pyst" where
  "remove_intercept ex intercept =
     sbind (slift (construct RemoveInterceptParameters [intercept] [])) (\<lambda>params.
     sbind (await_conn (bidi_remove_intercept ex params)) (\<lambda>_.
     sbind (on_intercepts (dict_pop_st intercept)) (\<lambda>entry.
     release_event ex entry)))"

text \<open>
  \<open>clear_intercepts\<close> (lines 119--121) iterates over the dict it mutates. A
  CPython dict iterator records the size at creation (\<open>n\<close>) and raises
  \<open>RuntimeError\<close> at the next step once the size differs; otherwise it yields
  the key at its position.
\<close>

function clear_loop :: "'w remote \<Rightarrow> nat \<Rightarrow> nat \<Rightarrow> ('w net, unit) pyst" where
  "clear_loop ex n pos = (\<lambda>s.
     if length (intercepts s) \<noteq> n then (s, Inl (RuntimeError ''dictionary changed size during iteration''))
     else if pos < n then sbind (remove_intercept ex (fst (intercepts s ! pos))) (\<lambda>_. clear_loop ex n (Suc pos)) s
     else (s, Inr ()))"
  by pat_completeness auto
termination
  by (relation "measure (\<lambda>(ex, n, pos). n - pos)") auto

declare clear_loop.simps [simp del]

definition clear_intercepts :: "'w remote \<Rightarrow> ('w net, unit) pyst" where
  "clear_intercepts ex = (\<lambda>s. clear_loop ex (length (intercepts s)) 0 s)"

text \<open>The aliases set in \<open>__init__\<close> (lines 43--44).\<close>

definition remove_request_handler :: "'w remote \<Rightarrow> pyval \<Rightarrow> ('w net, unit) pyst" where
  "remove_request_handler = remove_intercept"

definition clear_request_handlers :: "'w remote \<Rightarrow> ('w net, unit) pyst" where
  "clear_request_handlers = clear_intercepts"

section \<open>Evaluation of the operations\<close>

text \<open>
  Characteristic equations of the checkpoints and of the multi-step operations,
  in the form the pipeline and registry proofs rewrite with.
\<close>

lemma foldl_start_listener:
  "intercepts (foldl (\<lambda>s ev. start_listener ev s) s evs) = intercepts s \<and>
   conn (foldl (\<lambda>s ev. start_listener ev s) s evs) = conn s \<and>
   pending (foldl (\<lambda>s ev. start_listener ev s) s evs) = pending s \<and>
   fst ` set (listeners (foldl (\<lambda>s ev. start_listener ev s) s evs)) = fst ` set (listeners s) \<union> set evs \<and>
   (distinct (map fst (listeners s)) \<longrightarrow> distinct (map fst (listeners (foldl (\<lambda>s ev. start_listener ev s) s evs))))"
proof (induction evs arbitrary: s)
  case Nil
  then show ?case by simp
next
  case (Cons ev evs)
  have "intercepts (start_listener ev s) = intercepts s \<and> conn (start_listener ev s) = conn s \<and>
      pending (start_listener ev s) = pending s \<and>
      fst ` set (listeners (start_listener ev s)) = insert ev (fst ` set (listeners s)) \<and>
      (distinct (map fst (listeners s)) \<longrightarrow> distinct (map fst (listeners (start_listener ev s))))"
    by (auto simp: start_listener_def update_key_set distinct_update)
  with Cons.IH[of "start_listener ev s"] show ?case by auto
qed

lemma run_pending_intercepts [simp]: "intercepts (run_pending s) = intercepts s"
  and run_pending_conn [simp]: "conn (run_pending s) = conn s"
  and run_pending_pending [simp]: "pending (run_pending s) = []"
  and run_pending_keys: "fst ` set (listeners (run_pending s)) = fst ` set (listeners s) \<union> set (pending s)"
  and run_pending_distinct: "distinct (map fst (listeners s)) \<Longrightarrow> distinct (map fst (listeners (run_pending s)))"
  using foldl_start_listener[of "s\<lparr>pending := []\<rparr>" "pending s"] by (simp_all add: run_pending_def)

lemma run_pending_idle: "pending s = [] \<Longrightarrow> run_pending s = s"
  by (simp add: run_pending_def)

lemma await_conn_apply:
  "await_conn m s = ((run_pending s)\<lparr>conn := fst (m (conn s))\<rparr>, snd (m (conn s)))"
  by (simp add: await_conn_def split: prod.splits)

lemma on_intercepts_apply:
  "on_intercepts m s = (s\<lparr>intercepts := fst (m (intercepts s))\<rparr>, snd (m (intercepts s)))"
  by (simp add: on_intercepts_def split: prod.splits)

lemma construct_RemoveInterceptParameters:
  "construct RemoveInterceptParameters [i] [] = Inr (PObj ''RemoveInterceptParameters'' [(''intercept'', i)])"
  by (simp add: construct_def RemoveInterceptParameters_def)

lemma remove_intercept_apply:
  "remove_intercept ex i s =
     (case await_conn (bidi_remove_intercept ex (PObj ''RemoveInterceptParameters'' [(''intercept'', i)])) s of
        (s1, Inl x) \<Rightarrow> (s1, Inl x)
      | (s1, Inr _) \<Rightarrow> (case dict_pop i (intercepts s1) of
            Inl x \<Rightarrow> (s1, Inl x)
          | Inr (e, d') \<Rightarrow> release_event ex e (s1\<lparr>intercepts := d'\<rparr>)))"
  by (simp add: remove_intercept_def construct_RemoveInterceptParameters sbind_def on_intercepts_def
      dict_pop_st_def split: prod.splits sum.splits)

lemma update_entries:
  "distinct (map fst d) \<Longrightarrow> set (AList.update k v d) = insert (k, v) (set (AList.delete k d))"
proof (induction d)
  case Nil
  then show ?case by simp
next
  case (Cons p d)
  obtain k' v' where p: "p = (k', v')" by (cases p)
  show ?case
  proof (cases "k' = k")
    case True
    with Cons.prems p have "k \<notin> fst ` set d" by simp
    then have "AList.delete k d = d" by simp
    with True p show ?thesis by auto
  next
    case False
    with Cons p show ?thesis by auto
  qed
qed

lemma update_snoc: "k \<notin> fst ` set d \<Longrightarrow> AList.update k v (d @ [(k, x)]) = d @ [(k, v)]"
  by (induction d) auto

lemma register_intercept_apply:
  fixes ev :: pyval and h :: handler
  assumes "py_hashable i" and dist: "distinct (map fst d)"
  defines "new \<equiv> (case map_of d i of Some e \<Rightarrow> e | None \<Rightarrow> default_entry)
                    \<lparr>event_name := ev, handlers := handlers (case map_of d i of Some e \<Rightarrow> e | None \<Rightarrow> default_entry) @ [h]\<rparr>"
  shows "snd (register_intercept i ev h d) = Inr () \<and>
         distinct (map fst (fst (register_intercept i ev h d))) \<and>
         set (fst (register_intercept i ev h d)) = insert (i, new) (set (AList.delete i d))"
proof (cases "map_of d i")
  case None
  then have ni: "i \<notin> fst ` set d" by (simp add: map_of_eq_None_iff)
  let ?e1 = "default_entry\<lparr>event_name := ev\<rparr>"
  have s1: "dd_get default_entry i d = (d @ [(i, default_entry)], Inr default_entry)"
    using assms(1) None by simp
  have u1: "AList.update i ?e1 (d @ [(i, default_entry)]) = d @ [(i, ?e1)]"
    using ni by (rule update_snoc)
  have m2: "map_of (d @ [(i, ?e1)]) i = Some ?e1"
    using None by (simp add: map_add_def)
  have s2: "dd_get default_entry i (d @ [(i, ?e1)]) = (d @ [(i, ?e1)], Inr ?e1)"
    using assms(1) m2 by simp
  have u2: "AList.update i new (d @ [(i, ?e1)]) = d @ [(i, new)]"
    using ni by (rule update_snoc)
  have "new = ?e1\<lparr>handlers := handlers ?e1 @ [h]\<rparr>"
    using None by (simp add: new_def)
  then have "register_intercept i ev h d = (d @ [(i, new)], Inr ())"
    using s1 u1 s2 u2 by (simp add: register_intercept_def dd_modify_def sbind_def)
  with None ni dist show ?thesis by simp
next
  case (Some e)
  let ?d1 = "AList.update i (e\<lparr>event_name := ev\<rparr>) d"
  have d1: "map_of ?d1 i = Some (e\<lparr>event_name := ev\<rparr>)" by (simp add: update_conv')
  have "register_intercept i ev h d = (AList.update i new ?d1, Inr ())"
    using assms Some d1 by (simp add: register_intercept_def dd_modify_def sbind_def)
  moreover have "AList.update i new ?d1 = AList.update i new d"
    by simp
  ultimately show ?thesis
    using dist by (simp add: update_entries distinct_update)
qed

lemma construct_AddInterceptParameters:
  "construct AddInterceptParameters [] [(''phases'', x), (''urlPatterns'', y)] =
     Inr (PObj ''AddInterceptParameters'' [(''phases'', x), (''contexts'', PNone), (''urlPatterns'', y)])"
  by (simp add: construct_def AddInterceptParameters_def)

lemma add_handler_apply:
  "add_handler ex name h pats s =
     (case await_conn (conn_execute ex (session_subscribe (PStr name))) s of
        (s1, Inl x) \<Rightarrow> (s1, Inl x)
      | (s1, Inr _) \<Rightarrow>
        (case await_conn (bidi_add_intercept ex (PObj ''AddInterceptParameters''
                [(''phases'', PList [PStr (phase_of name)]), (''contexts'', PNone), (''urlPatterns'', pats)])) s1 of
           (s2, Inl x) \<Rightarrow> (s2, Inl x)
         | (s2, Inr r) \<Rightarrow>
           (case subscript r ''intercept'' of
              Inl x \<Rightarrow> (s2, Inl x)
            | Inr i \<Rightarrow>
              (case register_intercept i (PStr name) h (intercepts s2) of
                 (d', Inl x) \<Rightarrow> (s2\<lparr>intercepts := d'\<rparr>, Inl x)
               | (d', Inr _) \<Rightarrow> (s2\<lparr>intercepts := d', pending := pending s2 @ [PStr name]\<rparr>, Inr i)))))"
  by (simp add: add_handler_def construct_AddInterceptParameters sbind_def on_intercepts_def
      split: prod.splits sum.splits)

lemma run_handlers_append:
  "run_handlers (hs1 @ hs2) r = rbind (run_handlers hs1 r) (run_handlers hs2)"
  by (induction hs1 arbitrary: r) (auto simp: rbind_def split: sum.splits)

lemma clear_loop_preserves:
  "(\<And>i s. P s \<Longrightarrow> P (fst (remove_intercept ex i s))) \<Longrightarrow> P s \<Longrightarrow> P (fst (clear_loop ex n pos s))"
proof (induction ex n pos arbitrary: s rule: clear_loop.induct)
  case (1 ex' n pos)
  show ?case
  proof (cases "length (intercepts s) \<noteq> n \<or> \<not> pos < n")
    case True
    with "1.prems"(2) show ?thesis by (subst clear_loop.simps) auto
  next
    case False
    then have "fst (clear_loop ex' n pos s) =
        fst (sbind (remove_intercept ex' (fst (intercepts s ! pos))) (\<lambda>_. clear_loop ex' n (Suc pos)) s)"
      by (subst clear_loop.simps) simp
    also have "P \<dots>"
      using "1.prems" False
      by (intro sbind_preserves[where P = P] "1.prems"(1) "1.IH") auto
    finally show ?thesis .
  qed
qed

end
