(* ===== verification/Pipeline.thy ===== *)
theory Pipeline
  imports RemoteNetwork
begin

text \<open>
  The request pipeline of \<open>remote/network.py\<close> (\<open>handle_requests\<close>,
  \<open>handle_events\<close>) against the spec's \<open>handlersFor\<close> (section 4.2), and
  what it sends back to the browser.
\<close>

section \<open>Specification of the pipeline\<close>

text \<open>
  \<open>handlers_for d ids\<close> is the spec's \<open>handlersFor\<close>: the handlers of every
  rule whose id is in the event's list, in the list's order and then in
  registration order; unknown ids are skipped.
\<close>

definition handlers_for :: "(pyval \<times> entry) list \<Rightarrow> pyval list \<Rightarrow> handler list" where
  "handlers_for d ids = concat (map (\<lambda>i. case map_of d i of Some e \<Rightarrow> handlers e | None \<Rightarrow> []) ids)"

text \<open>The \<open>continueRequest\<close> message for a parameters object (\<open>ContinueRequest(params).cmd()\<close>).\<close>

abbreviation continue_msg :: "pyval \<Rightarrow> pyval" where
  "continue_msg params \<equiv> PDict [(''params'', enc_value params), (''method'', PStr ''network.continueRequest'')]"

section \<open>Examples\<close>

text \<open>
  \<open>request_handler url3\<close> is the handler of the repository's test
  (\<open>test/selenium/webdriver/common/bidi_network_tests.py\<close>): it keeps the
  request id and redirects to \<open>url3\<close>. \<open>ex_params\<close> is a blocked
  \<open>beforeRequestSent\<close> event as \<open>BidiEvent.from_json\<close> builds it: its
  request is the wire dict, since decoding is not recursive.
\<close>

definition request_handler :: "string \<Rightarrow> handler" where
  "request_handler url3 = (\<lambda>params. case params of
      PDict kvs \<Rightarrow> (case map_of kvs ''request'' of
          Some request \<Rightarrow> Inr (PDict [(''request'', request), (''url'', PStr url3)])
        | None \<Rightarrow> Inl (KeyError (PStr ''request'')))
    | _ \<Rightarrow> Inl (TypeError ''object is not subscriptable''))"

definition ex_request :: pyval where
  "ex_request = PDict [(''request'', PStr ''r1''), (''url'', PStr ''u1''), (''method'', PStr ''GET''),
                       (''headersSize'', PInt 0)]"

definition ex_params :: "pyval list \<Rightarrow> pyval" where
  "ex_params ids = PObj ''BeforeRequestSentParameters''
     [(''isBlocked'', PBool True), (''redirectCount'', PInt 0), (''request'', ex_request),
      (''timestamp'', PInt 0), (''initiator'', PDict [(''type'', PStr ''other'')]),
      (''context'', PNone), (''navigation'', PNone), (''intercepts'', PList ids)]"

definition ex_state :: "handler list \<Rightarrow> unit net" where
  "ex_state hs = (net_init \<lparr>world = (), sent = []\<rparr>)
     \<lparr>intercepts := [(PStr ''i1'', \<lparr>event_name = PStr ''network.beforeRequestSent'', handlers = hs\<rparr>)]\<rparr>"

section \<open>The pipeline against handlersFor\<close>

lemma handlers_for_dd_get:
  "py_hashable i \<Longrightarrow> handlers_for (fst (dd_get default_entry i d)) ids = handlers_for d ids"
  by (cases "map_of d i") (auto simp: handlers_for_def default_entry_def intro!: arg_cong[where f = concat] split: option.splits if_splits)

lemma handle_intercepts_refines:
  "list_all py_hashable ids \<Longrightarrow> snd (handle_intercepts ids r d) = run_handlers (handlers_for d ids) r"
proof (induction ids arbitrary: r d)
  case Nil
  then show ?case by (simp add: handlers_for_def)
next
  case (Cons i ids)
  obtain d' where d': "dd_get default_entry i d = (d', Inr (case map_of d i of Some e \<Rightarrow> e | None \<Rightarrow> default_entry))"
    using Cons.prems by (cases "map_of d i") auto
  have hf: "handlers_for d' ids = handlers_for d ids"
    using handlers_for_dd_get[of i d ids] d' Cons.prems by simp
  have hd: "handlers (case map_of d i of Some e \<Rightarrow> e | None \<Rightarrow> default_entry) =
      (case map_of d i of Some e \<Rightarrow> handlers e | None \<Rightarrow> [])"
    by (simp add: default_entry_def split: option.splits)
  show ?case
  proof (cases "run_handlers (handlers (case map_of d i of Some e \<Rightarrow> e | None \<Rightarrow> default_entry)) r")
    case (Inl e)
    with d' hd show ?thesis by (simp add: handlers_for_def run_handlers_append)
  next
    case (Inr r')
    with d' hd Cons.IH[of r' d'] Cons.prems hf show ?thesis
      by (simp add: handlers_for_def run_handlers_append)
  qed
qed

section \<open>Evaluation of the pipeline\<close>

lemma handle_requests_apply:
  "getattr p ''request'' = Inr r \<Longrightarrow> getattr p ''intercepts'' = Inr (PList ids) \<Longrightarrow>
   handle_requests p s = (s\<lparr>intercepts := fst (handle_intercepts ids r (intercepts s))\<rparr>, snd (handle_intercepts ids r (intercepts s)))"
  by (simp add: handle_requests_def on_intercepts_apply)

lemma handle_events_apply:
  "is_instance BeforeRequestSentParameters p \<Longrightarrow> handle_events ex p s =
     (case handle_requests p s of
        (s1, Inl x) \<Rightarrow> (s1, Inl x)
      | (s1, Inr json) \<Rightarrow> (case from_json ContinueRequestParameters json of
           Inl x \<Rightarrow> (s1, Inl x)
         | Inr params \<Rightarrow> (case await_conn (bidi_continue_request ex params) s1 of
              (s2, Inl x) \<Rightarrow> (s2, Inl x)
            | (s2, Inr _) \<Rightarrow> (s2, Inr ()))))"
  by (simp add: handle_events_def sbind_def split: prod.splits sum.splits)

lemma handle_requests_conn: "conn (fst (handle_requests p s)) = conn s \<and> pending (fst (handle_requests p s)) = pending s"
  by (simp add: handle_requests_def sbind_def on_intercepts_apply split: sum.splits)

lemma handle_requests_result:
  assumes "getattr p ''request'' = Inr r" and "getattr p ''intercepts'' = Inr (PList ids)"
    and "list_all py_hashable ids"
  shows "snd (handle_requests p s) = run_handlers (handlers_for (intercepts s) ids) r \<and>
         conn (fst (handle_requests p s)) = conn s \<and> pending (fst (handle_requests p s)) = pending s"
  using assms handle_requests_conn[of p s] by (simp add: handle_requests_apply handle_intercepts_refines)

lemma handle_intercepts_known:
  "list_all (\<lambda>i. py_hashable i \<and> map_of d i \<noteq> None) ids \<Longrightarrow> fst (handle_intercepts ids r d) = d"
proof (induction ids arbitrary: r)
  case Nil
  then show ?case by simp
next
  case (Cons i ids)
  then obtain e where hi: "py_hashable i" and e: "map_of d i = Some e" by auto
  show ?case
    using Cons e hi by (cases "run_handlers (handlers e) r") (simp_all add: sbind_def)
qed

lemma handle_events_undecodable:
  assumes inst: "is_instance BeforeRequestSentParameters p"
    and hr: "handle_requests p s = (s1, Inr (PDict kvs))" and hs: "''headersSize'' \<in> fst ` set kvs"
  shows "(\<exists>m. snd (handle_events ex p s) = Inl (TypeError m)) \<and> fst (handle_events ex p s) = s1"
proof -
  obtain m where "construct ContinueRequestParameters [] kvs = Inl (TypeError m)"
    using construct_unexpected[OF hs, of ContinueRequestParameters] by (auto simp: ContinueRequestParameters_def)
  then show ?thesis
    using inst hr by (simp add: handle_events_apply from_json_def)
qed

lemmas ex_defs = BeforeRequestSentParameters_def ex_params_def ex_request_def ex_state_def net_init_def request_handler_def

section \<open>Properties of the pipeline\<close>

text \<open>
  C4. Dispatch runs exactly the spec's handler sequence: for a parameters object whose request and intercept list can be read and whose ids are hashable, handle_requests returns the fold of handlers_for over the request (handlers in the order of the event's ids, then in registration order; unknown ids contribute nothing).
\<close>

lemma handle_requests_handlers_for:
  assumes "getattr p ''request'' = Inr r" and "getattr p ''intercepts'' = Inr (PList ids)"
    and "list_all py_hashable ids"
  shows "snd (handle_requests p s) = run_handlers (handlers_for (intercepts s) ids) r"
  using handle_requests_result[OF assms, of s] by simp

lemma handle_requests_handlers_for_witness: "snd (handle_requests (ex_params [PStr ''i1'', PStr ''i2'']) (ex_state [request_handler ''u3'', request_handler ''u4''])) =
   Inr (PDict [(''request'', PStr ''r1''), (''url'', PStr ''u4'')])"
  using handle_requests_handlers_for[where p = "ex_params [PStr ''i1'', PStr ''i2'']" and r = ex_request
      and ids = "[PStr ''i1'', PStr ''i2'']" and s = "ex_state [request_handler ''u3'', request_handler ''u4'']"]
  by (simp add: ex_defs handlers_for_def)

text \<open>
  C15. When the pipeline succeeds and the final request decodes as ContinueRequestParameters, handle_events sends exactly one message, the network.continueRequest command carrying the decoded parameters (nothing when it is not JSON serialisable).
\<close>

lemma handle_events_continuation:
  assumes inst: "is_instance BeforeRequestSentParameters p"
    and req: "getattr p ''request'' = Inr r" and ids: "getattr p ''intercepts'' = Inr (PList ids)"
    and hash: "list_all py_hashable ids"
    and run: "run_handlers (handlers_for (intercepts s) ids) r = Inr json"
    and dec: "from_json ContinueRequestParameters json = Inr params"
  shows "sent (conn (fst (handle_events ex p s))) =
           sent (conn s) @ (if json_serializable (continue_msg params) then [continue_msg params] else [])"
proof -
  obtain s1 where hr: "handle_requests p s = (s1, Inr json)" and c1: "conn s1 = conn s"
    using handle_requests_result[OF req ids hash, of s] run
    by (cases "handle_requests p s") auto
  have np: "params \<noteq> PNone" using dec by (auto simp: from_json_def dest!: construct_Inr_obj split: pyval.splits)
  show ?thesis
    using inst hr dec c1 np
    by (simp add: handle_events_apply await_conn_apply bidi_continue_request_msg conn_execute_sent
        split: prod.splits sum.splits)
qed

lemma handle_events_continuation_witness: "sent (conn (fst (handle_events (accept_remote ''i'') (ex_params [PStr ''i1'']) (ex_state [request_handler ''u3''])))) =
   [PDict [(''params'', PDict [(''request'', PStr ''r1''), (''url'', PStr ''u3'')]), (''method'', PStr ''network.continueRequest'')]]"
  using handle_events_continuation[where p = "ex_params [PStr ''i1'']" and r = ex_request
      and ids = "[PStr ''i1'']" and s = "ex_state [request_handler ''u3'']"
      and json = "PDict [(''request'', PStr ''r1''), (''url'', PStr ''u3'')]"
      and params = "PObj ''ContinueRequestParameters'' [(''request'', PStr ''r1''), (''body'', PNone), (''cookies'', PNone), (''headers'', PNone), (''method'', PNone), (''url'', PStr ''u3'')]"
      and ex = "accept_remote ''i''"]
  by (simp add: ex_defs handlers_for_def from_json_def construct_def ContinueRequestParameters_def
      to_json_def dict_of_def json_key_def ends_marker_def)

text \<open>
  C18. With no applicable handler the request dict of the event, which has a headersSize key, is passed unchanged to ContinueRequestParameters(**json): that raises a TypeError and no continuation is sent, although the spec requires one (sections 4.4 and 8).
\<close>

lemma handle_events_no_handlers:
  assumes inst: "is_instance BeforeRequestSentParameters p"
    and req: "getattr p ''request'' = Inr (PDict kvs)" and ids: "getattr p ''intercepts'' = Inr (PList ids)"
    and hash: "list_all py_hashable ids"
    and none: "handlers_for (intercepts s) ids = []"
    and hs: "''headersSize'' \<in> fst ` set kvs"
  shows "(\<exists>m. snd (handle_events ex p s) = Inl (TypeError m)) \<and> sent (conn (fst (handle_events ex p s))) = sent (conn s)"
proof -
  obtain s1 where hr: "handle_requests p s = (s1, Inr (PDict kvs))" and c1: "conn s1 = conn s"
    using handle_requests_result[OF req ids hash, of s] none
    by (cases "handle_requests p s") auto
  then show ?thesis
    using handle_events_undecodable[OF inst hr hs, of ex] by simp
qed

lemma handle_events_no_handlers_witness: "snd (handle_events (accept_remote ''i'') (ex_params [PStr ''i9'']) (ex_state [request_handler ''u3''])) =
     Inl (TypeError ''unexpected keyword argument headersSize'') \<and>
   sent (conn (fst (handle_events (accept_remote ''i'') (ex_params [PStr ''i9'']) (ex_state [request_handler ''u3''])))) = []"
  using handle_events_no_handlers[where p = "ex_params [PStr ''i9'']" and kvs = "[(''request'', PStr ''r1''), (''url'', PStr ''u1''), (''method'', PStr ''GET''), (''headersSize'', PInt 0)]"
      and ids = "[PStr ''i9'']" and s = "ex_state [request_handler ''u3'']" and ex = "accept_remote ''i''"]
  by (simp add: ex_defs handlers_for_def handle_events_def handle_requests_def on_intercepts_apply
      from_json_def construct_def ContinueRequestParameters_def sbind_def default_entry_def)

text \<open>
  C19. When a handler raises, handle_events raises the same exception and sends nothing: the request is left unresolved, although the spec requires a continuation with the last good state (section 7).
\<close>

lemma handle_events_handler_error:
  assumes inst: "is_instance BeforeRequestSentParameters p"
    and req: "getattr p ''request'' = Inr r" and ids: "getattr p ''intercepts'' = Inr (PList ids)"
    and hash: "list_all py_hashable ids"
    and run: "run_handlers (handlers_for (intercepts s) ids) r = Inl x"
  shows "snd (handle_events ex p s) = Inl x \<and> sent (conn (fst (handle_events ex p s))) = sent (conn s)"
proof -
  obtain s1 where hr: "handle_requests p s = (s1, Inl x)" and c1: "conn s1 = conn s"
    using handle_requests_result[OF req ids hash, of s] run
    by (cases "handle_requests p s") auto
  then show ?thesis using inst by (simp add: handle_events_apply)
qed

lemma handle_events_handler_error_witness: "snd (handle_events (accept_remote ''i'') (ex_params [PStr ''i1'']) (ex_state [\<lambda>_. Inl (RuntimeError ''handler failed'')])) =
     Inl (RuntimeError ''handler failed'') \<and>
   sent (conn (fst (handle_events (accept_remote ''i'') (ex_params [PStr ''i1'']) (ex_state [\<lambda>_. Inl (RuntimeError ''handler failed'')])))) = []"
  using handle_events_handler_error[where p = "ex_params [PStr ''i1'']" and r = ex_request
      and ids = "[PStr ''i1'']" and s = "ex_state [\<lambda>_. Inl (RuntimeError ''handler failed'')]" and x = "RuntimeError ''handler failed''"
      and ex = "accept_remote ''i''"]
  by (simp add: ex_defs handlers_for_def)

text \<open>
  C23. A listener task skips an event that is not blocked: listener_event
  changes nothing and sends nothing (spec section 4.3, step 2).
\<close>

lemma listener_event_not_blocked:
  assumes "getattr ev ''params'' = Inr rd" and "getattr rd ''isBlocked'' = Inr b" and "\<not> truthy b"
  shows "listener_event ex ev s = (s, Inr ())"
  using assms by (simp add: listener_event_def)

lemma listener_event_not_blocked_witness:
  "listener_event (accept_remote ''i'')
     (PObj ''BeforeRequestSent'' [(''params'', PObj ''BeforeRequestSentParameters''
        [(''isBlocked'', PBool False), (''request'', ex_request), (''intercepts'', PList [PStr ''i1''])])])
     (ex_state [request_handler ''u3'']) = (ex_state [request_handler ''u3''], Inr ())"
  using listener_event_not_blocked[where ev = "PObj ''BeforeRequestSent'' [(''params'', PObj ''BeforeRequestSentParameters''
        [(''isBlocked'', PBool False), (''request'', ex_request), (''intercepts'', PList [PStr ''i1''])])]"
      and rd = "PObj ''BeforeRequestSentParameters''
        [(''isBlocked'', PBool False), (''request'', ex_request), (''intercepts'', PList [PStr ''i1''])]"
      and b = "PBool False"]
  by simp

end
