(* ===== verification/Registry.thy ===== *)
theory Registry
  imports Pipeline
begin

text \<open>
  The registry invariant of the interception manager (\<open>Network\<close> in
  \<open>remote/network.py\<close>) and its preservation by every operation.
\<close>

section \<open>Specification of the registry\<close>

text \<open>
  \<open>rule_events\<close> are the event types with at least one live rule; an entry
  with event name \<open>None\<close> is a default entry the \<open>defaultdict\<close> created on a
  read. \<open>net_inv\<close> says that the dict is a dict (distinct hashable keys), that
  default entries carry no handlers, and that the event types with an open or
  scheduled listener are exactly those with a live rule (the spec's
  ActiveSubscription invariant, section 3). \<open>fresh_for\<close> is what the remote
  end promises of a new intercept id.
\<close>

definition rule_events :: "(pyval \<times> entry) list \<Rightarrow> pyval set" where
  "rule_events d = event_name ` snd ` set d - {PNone}"

definition regs_ok :: "(pyval \<times> entry) list \<Rightarrow> bool" where
  "regs_ok d \<longleftrightarrow> distinct (map fst d) \<and> list_all (\<lambda>e. event_name e = PNone \<longrightarrow> handlers e = []) (map snd d)
     \<and> list_all (\<lambda>e. py_hashable (event_name e)) (map snd d) \<and> list_all py_hashable (map fst d)"

definition net_inv :: "'w net \<Rightarrow> bool" where
  "net_inv s \<longleftrightarrow> regs_ok (intercepts s) \<and> distinct (map fst (listeners s))
     \<and> fst ` set (listeners s) \<union> set (pending s) = rule_events (intercepts s)"

text \<open>An id the remote end returns names no live rule of the client.\<close>

definition fresh_for :: "(pyval \<times> entry) list \<Rightarrow> pyval \<Rightarrow> bool" where
  "fresh_for d i = (case map_of d i of None \<Rightarrow> True | Some e \<Rightarrow> event_name e = PNone)"

text \<open>The \<open>removeIntercept\<close> and \<open>addIntercept\<close> messages the manager sends.\<close>

abbreviation remove_msg :: "pyval \<Rightarrow> pyval" where
  "remove_msg i \<equiv> PDict [(''params'', enc_value (PObj ''RemoveInterceptParameters'' [(''intercept'', i)])),
                         (''method'', PStr ''network.removeIntercept'')]"

abbreviation add_msg :: "string \<Rightarrow> pyval \<Rightarrow> pyval" where
  "add_msg name pats \<equiv> PDict [(''params'', enc_value (PObj ''AddInterceptParameters''
       [(''phases'', PList [PStr (phase_of name)]), (''contexts'', PNone), (''urlPatterns'', pats)])),
     (''method'', PStr ''network.addIntercept'')]"

section \<open>Example states\<close>

text \<open>
  \<open>ex_two\<close>: two rules of the test's handler on the request phase, with the
  phase's listener open; \<open>ex_phantom\<close> adds a default entry in front, as
  \<open>handle_requests\<close> leaves one for an id it does not know.
\<close>

definition ex_rule :: entry where
  "ex_rule = \<lparr>event_name = PStr ''network.beforeRequestSent'', handlers = [request_handler ''u3'']\<rparr>"

definition ex_two :: "unit net" where
  "ex_two = \<lparr>conn = \<lparr>world = (), sent = []\<rparr>, listeners = [(PStr ''network.beforeRequestSent'', 0)],
     intercepts = [(PStr ''i1'', ex_rule), (PStr ''i2'', ex_rule)], pending = [], next_listener = 1\<rparr>"

definition ex_phantom :: "unit net" where
  "ex_phantom = ex_two\<lparr>intercepts := (PStr ''i9'', default_entry) # intercepts ex_two\<rparr>"

section \<open>Preservation of the invariant\<close>

lemma net_inv_run_pending: "net_inv s \<Longrightarrow> net_inv (run_pending s)"
  by (simp add: net_inv_def run_pending_keys run_pending_distinct)

lemma net_inv_await:
  "net_inv s \<Longrightarrow> net_inv (fst (await_conn m s)) \<and> pending (fst (await_conn m s)) = [] \<and>
     intercepts (fst (await_conn m s)) = intercepts s"
  using net_inv_run_pending[of s] by (simp add: await_conn_apply net_inv_def)

lemma rule_events_delete:
  assumes "distinct (map fst d)" and "map_of d i = Some e"
  shows "rule_events d = rule_events (AList.delete i d) \<union> ({event_name e} - {PNone})"
proof -
  have "set d = insert (i, e) (set (AList.delete i d))"
    by (rule delete_entries_distinct[OF assms])
  then have "event_name ` snd ` set d = insert (event_name e) (event_name ` snd ` set (AList.delete i d))"
    by (metis image_insert snd_conv)
  then show ?thesis by (auto simp: rule_events_def)
qed

lemma regs_ok_delete: "regs_ok d \<Longrightarrow> regs_ok (AList.delete i d)"
  unfolding regs_ok_def using distinct_delete[of d i] by (auto simp: list_all_iff delete_entries)

lemma mem_events: "x \<in> event_name ` snd ` set d \<longleftrightarrow> (\<exists>i e. (i, e) \<in> set d \<and> event_name e = x)"
  by force

lemma release_event_inv:
  assumes ok: "regs_ok (intercepts s)" and dl: "distinct (map fst (listeners s))"
    and p: "pending s = []" and hash: "py_hashable (event_name e)"
    and keys: "fst ` set (listeners s) = rule_events (intercepts s) \<union> ({event_name e} - {PNone})"
  shows "net_inv (fst (release_event ex e s))"
proof (cases "[i \<leftarrow> map snd (intercepts s). event_name i = event_name e] = []")
  case False
  then obtain x where "x \<in> set (map snd (intercepts s))" and "event_name x = event_name e"
    by (auto simp: filter_empty_conv)
  then have "event_name e \<in> event_name ` snd ` set (intercepts s)"
    by (metis image_eqI list.set_map)
  then have "fst ` set (listeners s) = rule_events (intercepts s)"
    using keys by (auto simp: rule_events_def)
  then have "net_inv s" using ok dl p by (simp add: net_inv_def)
  moreover have "release_event ex e s = (s, Inr ())"
    using False by (simp add: release_event_def)
  ultimately show ?thesis by simp
next
  case True
  then have gone: "event_name e \<notin> rule_events (intercepts s)"
    by (auto simp: rule_events_def filter_empty_conv)
  show ?thesis
  proof (cases "event_name e = PNone")
    case True
    then have "map_of (listeners s) PNone = None"
      using keys by (auto simp: rule_events_def map_of_eq_None_iff)
    then have "remove_listener (event_name e) s = (s, Inl (KeyError PNone))"
      using True by (simp add: remove_listener_def)
    then have "release_event ex e s = (s, Inl (KeyError PNone))"
      using \<open>[i \<leftarrow> map snd (intercepts s). event_name i = event_name e] = []\<close>
      by (simp add: release_event_def)
    moreover have "net_inv s" using ok dl p keys True by (simp add: net_inv_def)
    ultimately show ?thesis by simp
  next
    case False
    then have "event_name e \<in> fst ` set (listeners s)" using keys by auto
    then obtain l where l: "map_of (listeners s) (event_name e) = Some l"
      by (cases "map_of (listeners s) (event_name e)") (auto simp: map_of_eq_None_iff)
    let ?s2 = "s\<lparr>listeners := AList.delete (event_name e) (listeners s)\<rparr>"
    have rl: "remove_listener (event_name e) s = (?s2, Inr ())"
      using l hash by (simp add: remove_listener_def)
    have "fst ` set (listeners ?s2) = rule_events (intercepts s)"
      using keys gone False by (auto simp: delete_key_set)
    then have "net_inv ?s2"
      using ok dl p by (simp add: net_inv_def distinct_delete)
    then have "net_inv (fst (await_conn (conn_execute ex (session_unsubscribe (event_name e))) ?s2))"
      using net_inv_await by blast
    moreover have "fst (release_event ex e s) =
        fst (await_conn (conn_execute ex (session_unsubscribe (event_name e))) ?s2)"
      using \<open>[i \<leftarrow> map snd (intercepts s). event_name i = event_name e] = []\<close> rl
      by (simp add: release_event_def sbind_def split: prod.splits sum.splits)
    ultimately show ?thesis by simp
  qed
qed

text \<open>Lines 113--117: the entry is popped and its event released.\<close>

lemma remove_pop_inv:
  assumes inv: "net_inv s" and p: "pending s = []"
  shows "net_inv (fst (sbind (on_intercepts (dict_pop_st i)) (release_event ex) s))"
proof (cases "\<exists>e d'. dict_pop i (intercepts s) = Inr (e, d')")
  case False
  then have "fst (sbind (on_intercepts (dict_pop_st i)) (release_event ex) s) = s"
    by (cases "dict_pop i (intercepts s)")
       (auto simp: sbind_def on_intercepts_apply dict_pop_st_def split: sum.splits prod.splits)
  with inv show ?thesis by simp
next
  case True
  then obtain e d' where pop: "dict_pop i (intercepts s) = Inr (e, d')" by blast
  then have look: "map_of (intercepts s) i = Some e" and d': "d' = AList.delete i (intercepts s)"
    by (auto simp: dict_pop_def split: if_splits option.splits)
  have ok1: "regs_ok (intercepts s)" and dl1: "distinct (map fst (listeners s))"
    and k1: "fst ` set (listeners s) = rule_events (intercepts s)"
    using inv p by (auto simp: net_inv_def)
  have ok2: "regs_ok d'" using regs_ok_delete[OF ok1] d' by simp
  have dist1: "distinct (map fst (intercepts s))" using ok1 by (simp add: regs_ok_def)
  have "(i, e) \<in> set (intercepts s)" using look by (rule map_of_SomeD)
  then have he: "py_hashable (event_name e)"
    using ok1 by (auto simp: regs_ok_def list_all_iff)
  have "net_inv (fst (release_event ex e (s\<lparr>intercepts := d'\<rparr>)))"
    using ok2 dl1 p he k1 rule_events_delete[OF dist1 look] d'
    by (intro release_event_inv) simp_all
  moreover have "sbind (on_intercepts (dict_pop_st i)) (release_event ex) s = release_event ex e (s\<lparr>intercepts := d'\<rparr>)"
    using pop by (simp add: sbind_def on_intercepts_apply dict_pop_st_def)
  ultimately show ?thesis by simp
qed

lemma remove_intercept_inv: "net_inv s \<Longrightarrow> net_inv (fst (remove_intercept ex i s))"
proof -
  assume inv: "net_inv s"
  let ?p = "PObj ''RemoveInterceptParameters'' [(''intercept'', i)]"
  obtain s1 r1 where a: "await_conn (bidi_remove_intercept ex ?p) s = (s1, r1)" by force
  from net_inv_await[OF inv, of "bidi_remove_intercept ex ?p"] a
  have inv1: "net_inv s1" and p1: "pending s1 = []" by auto
  show ?thesis
  proof (cases r1)
    case (Inl x)
    then have "fst (remove_intercept ex i s) = s1"
      using a by (simp add: remove_intercept_def construct_RemoveInterceptParameters)
    with inv1 show ?thesis by simp
  next
    case (Inr x)
    then have "remove_intercept ex i s = sbind (on_intercepts (dict_pop_st i)) (release_event ex) s1"
      using a by (simp add: remove_intercept_def construct_RemoveInterceptParameters)
    with remove_pop_inv[OF inv1 p1, of i ex] show ?thesis by simp
  qed
qed

lemma register_keeps_events:
  assumes ok: "regs_ok d" and hi: "py_hashable i" and fr: "fresh_for d i"
  shows "regs_ok (fst (register_intercept i (PStr n) h d)) \<and>
         rule_events (fst (register_intercept i (PStr n) h d)) = insert (PStr n) (rule_events d)"
proof -
  have dist: "distinct (map fst d)" using ok by (simp add: regs_ok_def)
  let ?e0 = "case map_of d i of Some e \<Rightarrow> e | None \<Rightarrow> default_entry"
  let ?new = "?e0\<lparr>event_name := PStr n, handlers := handlers ?e0 @ [h]\<rparr>"
  have r: "distinct (map fst (fst (register_intercept i (PStr n) h d)))"
    "set (fst (register_intercept i (PStr n) h d)) = insert (i, ?new) (set (AList.delete i d))"
    using register_intercept_apply[OF hi dist, of "PStr n" h] by auto
  have del: "rule_events (AList.delete i d) = rule_events d"
  proof (cases "map_of d i")
    case None
    then show ?thesis by (simp add: map_of_eq_None_iff)
  next
    case (Some e)
    with fr have "event_name e = PNone" by (simp add: fresh_for_def)
    with rule_events_delete[OF dist Some] show ?thesis by simp
  qed
  have "rule_events (fst (register_intercept i (PStr n) h d)) = insert (PStr n) (rule_events (AList.delete i d))"
    using r(2) by (simp add: rule_events_def insert_Diff_if)
  with del have ev: "rule_events (fst (register_intercept i (PStr n) h d)) = insert (PStr n) (rule_events d)"
    by simp
  have "regs_ok (AList.delete i d)" by (rule regs_ok_delete[OF ok])
  then have "regs_ok (fst (register_intercept i (PStr n) h d))"
    using r hi by (auto simp: regs_ok_def list_all_iff)
  with ev show ?thesis by simp
qed

lemma add_handler_inv:
  assumes inv: "net_inv s"
    and fresh: "\<forall>i. snd (add_handler ex name h pats s) = Inr i \<longrightarrow> fresh_for (intercepts s) i"
  shows "net_inv (fst (add_handler ex name h pats s))"
proof -
  let ?p = "PObj ''AddInterceptParameters''
                [(''phases'', PList [PStr (phase_of name)]), (''contexts'', PNone), (''urlPatterns'', pats)]"
  obtain s1 r1 where a1: "await_conn (conn_execute ex (session_subscribe (PStr name))) s = (s1, r1)" by force
  from net_inv_await[OF inv] a1 have inv1: "net_inv s1" and d1: "intercepts s1 = intercepts s"
    by (metis fst_conv)+
  obtain s2 r2 where a2: "await_conn (bidi_add_intercept ex ?p) s1 = (s2, r2)" by force
  from net_inv_await[OF inv1] a2 have inv2: "net_inv s2" and d2: "intercepts s2 = intercepts s"
    and p2: "pending s2 = []"
    using d1 by (metis fst_conv)+
  show ?thesis
  proof (cases "\<exists>x r i. r1 = Inr x \<and> r2 = Inr r \<and> subscript r ''intercept'' = Inr i \<and> py_hashable i")
    case False
    then have "fst (add_handler ex name h pats s) \<in> {s1, s2}"
      using a1 a2
      by (cases r1; cases r2; auto simp: add_handler_apply register_intercept_def dd_modify_def sbind_def
          split: sum.splits prod.splits)
    with inv1 inv2 show ?thesis by auto
  next
    case True
    then obtain x r i where r1: "r1 = Inr x" and r2: "r2 = Inr r" and sub: "subscript r ''intercept'' = Inr i"
      and hi: "py_hashable i" by blast
    have ok2: "regs_ok (intercepts s2)" using inv2 by (simp add: net_inv_def)
    have dist2: "distinct (map fst (intercepts s2))" using ok2 by (simp add: regs_ok_def)
    obtain d' where reg: "register_intercept i (PStr name) h (intercepts s2) = (d', Inr ())"
      using register_intercept_apply[OF hi dist2, of "PStr name" h] by (cases "register_intercept i (PStr name) h (intercepts s2)") auto
    have res: "add_handler ex name h pats s = (s2\<lparr>intercepts := d', pending := [PStr name]\<rparr>, Inr i)"
      using a1 a2 r1 r2 sub reg p2 by (simp add: add_handler_apply)
    with fresh d2 have fr: "fresh_for (intercepts s2) i" by simp
    from register_keeps_events[OF ok2 hi fr, of name h] reg
    have "regs_ok d'" and "rule_events d' = insert (PStr name) (rule_events (intercepts s2))" by auto
    with inv2 p2 res show ?thesis by (auto simp: net_inv_def)
  qed
qed

lemma regs_ok_dd_get:
  assumes "regs_ok d"
  shows "regs_ok (fst (dd_get default_entry i d)) \<and> rule_events (fst (dd_get default_entry i d)) = rule_events d"
proof (cases "py_hashable i \<and> map_of d i = None")
  case True
  then have "dd_get default_entry i d = (d @ [(i, default_entry)], Inr default_entry)" by simp
  with True assms show ?thesis
    by (auto simp: regs_ok_def rule_events_def default_entry_def map_of_eq_None_iff)
next
  case False
  then have "fst (dd_get default_entry i d) = d"
    by (cases "map_of d i") (auto simp: dd_get_def)
  then show ?thesis using assms by simp
qed

lemma handle_intercepts_ok:
  "regs_ok d \<Longrightarrow> regs_ok (fst (handle_intercepts ids r d)) \<and> rule_events (fst (handle_intercepts ids r d)) = rule_events d"
proof (induction ids arbitrary: r d)
  case Nil
  then show ?case by simp
next
  case (Cons i ids)
  obtain d1 x where g: "dd_get default_entry i d = (d1, x)" by force
  from regs_ok_dd_get[OF Cons.prems, of i] g have ok1: "regs_ok d1" and ev1: "rule_events d1 = rule_events d"
    by auto
  show ?case
  proof (cases x)
    case (Inl e)
    with g ok1 ev1 show ?thesis by simp
  next
    case (Inr e)
    show ?thesis
    proof (cases "run_handlers (handlers e) r")
      case (Inl y)
      with g Inr ok1 ev1 show ?thesis by simp
    next
      case (Inr r')
      with g \<open>x = Inr e\<close> Cons.IH[OF ok1, of r'] ev1 show ?thesis by simp
    qed
  qed
qed

lemma handle_requests_inv: "net_inv s \<Longrightarrow> net_inv (fst (handle_requests p s))"
proof -
  assume inv: "net_inv s"
  have "\<And>ids r. net_inv (fst (on_intercepts (handle_intercepts ids r) s))"
    using inv handle_intercepts_ok by (simp add: on_intercepts_apply net_inv_def)
  then show ?thesis
    using inv by (auto simp: handle_requests_def sbind_def rbind_def split: sum.splits prod.splits)
qed

lemma handle_events_inv: "net_inv s \<Longrightarrow> net_inv (fst (handle_events ex p s))"
  unfolding handle_events_def
  by (auto intro!: sbind_preserves[where P = net_inv] handle_requests_inv simp: net_inv_await)

lemma listener_event_inv: "net_inv s \<Longrightarrow> net_inv (fst (listener_event ex ev s))"
  unfolding listener_event_def
  by (auto intro!: sbind_preserves[where P = net_inv] handle_events_inv)

lemma get_inv: "net_inv s \<Longrightarrow> net_inv (fst (get ex ctx url wait s))"
  unfolding get_def by (auto intro!: sbind_preserves[where P = net_inv] simp: net_inv_await)

lemma clear_loop_inv: "net_inv s \<Longrightarrow> net_inv (fst (clear_loop ex n pos s))"
  by (rule clear_loop_preserves[where P = net_inv, OF remove_intercept_inv])

lemma clear_intercepts_inv: "net_inv s \<Longrightarrow> net_inv (fst (clear_intercepts ex s))"
  by (simp add: clear_intercepts_def clear_loop_inv)

section \<open>Removal, registration and clearing\<close>

lemma remove_msg_serializable: "py_hashable i \<Longrightarrow> json_serializable (remove_msg i)"
  by (cases i) (simp_all add: dict_of_def json_key_def ends_marker_def)

lemma filter_events_empty:
  "[x \<leftarrow> map snd d. event_name x = ev] = [] \<longleftrightarrow> ev \<notin> event_name ` snd ` set d"
  by (auto simp: filter_empty_conv)

lemma rule_events_mem: "ev \<noteq> PNone \<Longrightarrow> ev \<in> rule_events d \<longleftrightarrow> ev \<in> event_name ` snd ` set d"
  by (simp add: rule_events_def)

lemma remove_intercept_live:
  assumes inv: "net_inv s" and acc: "accepts_all ex"
    and look: "map_of (intercepts s) i = Some e" and ev: "event_name e \<noteq> PNone"
  defines "rest \<equiv> AList.delete i (intercepts s)"
  shows "snd (remove_intercept ex i s) = Inr () \<and> intercepts (fst (remove_intercept ex i s)) = rest \<and>
         sent (conn (fst (remove_intercept ex i s))) = sent (conn s) @ remove_msg i #
           (if event_name e \<in> rule_events rest then [] else [fst (session_unsubscribe (event_name e))]) \<and>
         (event_name e \<in> fst ` set (listeners (fst (remove_intercept ex i s))) \<longleftrightarrow> event_name e \<in> rule_events rest)"
proof -
  have ok: "regs_ok (intercepts s)" and dl: "distinct (map fst (listeners s))"
    and keys: "fst ` set (listeners s) \<union> set (pending s) = rule_events (intercepts s)"
    using inv by (auto simp: net_inv_def)
  have mem: "(i, e) \<in> set (intercepts s)" using look by (rule map_of_SomeD)
  then have hi: "py_hashable i" and he: "py_hashable (event_name e)"
    using ok by (auto simp: regs_ok_def list_all_iff)
  have dist: "distinct (map fst (intercepts s))" using ok by (simp add: regs_ok_def)
  obtain v where ce: "conn_execute ex (remove_msg i, \<lambda>r. r) (conn s) =
      ((conn s)\<lparr>world := fst (ex (world (conn s)) (remove_msg i)), sent := sent (conn s) @ [remove_msg i]\<rparr>, Inr v)"
    using conn_execute_accepts[OF acc, of "(remove_msg i, \<lambda>r. r)" "conn s"] remove_msg_serializable[OF hi] by auto
  define s1 where "s1 = (run_pending s)\<lparr>conn := (conn s)\<lparr>world := fst (ex (world (conn s)) (remove_msg i)),
      sent := sent (conn s) @ [remove_msg i]\<rparr>\<rparr>"
  have ri: "remove_intercept ex i s = release_event ex e (s1\<lparr>intercepts := rest\<rparr>)"
    using ce hi look by (simp add: remove_intercept_apply bidi_remove_intercept_msg await_conn_apply s1_def rest_def)
  have p1: "pending s1 = []" and l1: "fst ` set (listeners s1) = rule_events (intercepts s)"
    and dl1: "distinct (map fst (listeners s1))"
    using keys run_pending_keys[of s] run_pending_distinct[OF dl] by (auto simp: s1_def)
  have in1: "event_name e \<in> fst ` set (listeners s1)"
    using l1 mem ev by (force simp: rule_events_def)
  show ?thesis
  proof (cases "event_name e \<in> rule_events rest")
    case True
    then have "[x \<leftarrow> map snd rest. event_name x = event_name e] \<noteq> []"
      using ev by (simp add: filter_events_empty rule_events_mem)
    then have "remove_intercept ex i s = (s1\<lparr>intercepts := rest\<rparr>, Inr ())"
      using ri by (simp add: release_event_def)
    with True in1 show ?thesis by (simp add: s1_def)
  next
    case False
    then have emp: "[x \<leftarrow> map snd rest. event_name x = event_name e] = []"
      using ev by (simp add: filter_events_empty rule_events_mem)
    obtain l where l: "map_of (listeners s1) (event_name e) = Some l"
      using in1 by (cases "map_of (listeners s1) (event_name e)") (auto simp: map_of_eq_None_iff)
    define s2 where "s2 = s1\<lparr>intercepts := rest, listeners := AList.delete (event_name e) (listeners s1)\<rparr>"
    have rl: "remove_listener (event_name e) (s1\<lparr>intercepts := rest\<rparr>) = (s2, Inr ())"
      using l he by (simp add: remove_listener_def s2_def)
    obtain u where ce2: "conn_execute ex (session_unsubscribe (event_name e)) (conn s2) =
        ((conn s2)\<lparr>world := fst (ex (world (conn s2)) (fst (session_unsubscribe (event_name e)))),
                   sent := sent (conn s2) @ [fst (session_unsubscribe (event_name e))]\<rparr>, Inr (snd (session_unsubscribe (event_name e)) u))"
      using conn_execute_accepts[OF acc, of "session_unsubscribe (event_name e)" "conn s2"] he
      by (auto simp: session_unsubscribe_def)
    have "pending s2 = []" using p1 by (simp add: s2_def)
    then have "remove_intercept ex i s =
        (s2\<lparr>conn := (conn s2)\<lparr>world := fst (ex (world (conn s2)) (fst (session_unsubscribe (event_name e)))),
                   sent := sent (conn s2) @ [fst (session_unsubscribe (event_name e))]\<rparr>\<rparr>, Inr ())"
      using ri emp rl ce2 by (simp add: release_event_def await_conn_apply run_pending_idle)
    moreover have "event_name e \<notin> fst ` set (AList.delete (event_name e) (listeners s1))"
      by (simp add: delete_key_set)
    ultimately show ?thesis using False by (simp add: s2_def s1_def rest_def)
  qed
qed

lemma add_handler_sent:
  assumes acc: "accepts_all ex" and js: "json_serializable (add_msg name pats)"
  shows "sent (conn (fst (add_handler ex name h pats s))) =
           sent (conn s) @ [fst (session_subscribe (PStr name)), add_msg name pats]"
proof -
  obtain v1 where c1: "conn_execute ex (session_subscribe (PStr name)) (conn s) =
      ((conn s)\<lparr>world := fst (ex (world (conn s)) (fst (session_subscribe (PStr name)))),
                sent := sent (conn s) @ [fst (session_subscribe (PStr name))]\<rparr>, Inr (snd (session_subscribe (PStr name)) v1))"
    using conn_execute_accepts[OF acc, of "session_subscribe (PStr name)" "conn s"] by (auto simp: session_subscribe_def)
  let ?s1 = "(run_pending s)\<lparr>conn := fst (conn_execute ex (session_subscribe (PStr name)) (conn s))\<rparr>"
  obtain v2 where c2: "conn_execute ex (add_msg name pats, \<lambda>r. r) (conn ?s1) =
      ((conn ?s1)\<lparr>world := fst (ex (world (conn ?s1)) (add_msg name pats)), sent := sent (conn ?s1) @ [add_msg name pats]\<rparr>, Inr v2)"
    using conn_execute_accepts[OF acc, of "(add_msg name pats, \<lambda>r. r)" "conn ?s1"] js by auto
  show ?thesis
    using c1 c2
    by (simp add: add_handler_apply await_conn_apply bidi_add_intercept_msg register_intercept_def
        dd_modify_def sbind_def split: sum.splits prod.splits)
qed

lemma ex_two_inv: "net_inv ex_two"
  by (simp add: ex_two_def ex_rule_def net_inv_def regs_ok_def rule_events_def)

lemma register_fresh:
  assumes ok: "regs_ok d" and hi: "py_hashable i" and fr: "fresh_for d i"
  shows "snd (register_intercept i ev h d) = Inr () \<and>
         map_of (fst (register_intercept i ev h d)) i = Some \<lparr>event_name = ev, handlers = [h]\<rparr>"
proof -
  let ?e0 = "case map_of d i of Some e \<Rightarrow> e | None \<Rightarrow> default_entry"
  have dist: "distinct (map fst d)" using ok by (simp add: regs_ok_def)
  have h0: "handlers ?e0 = []"
  proof (cases "map_of d i")
    case (Some e)
    with fr have "event_name e = PNone" by (simp add: fresh_for_def)
    moreover have "(i, e) \<in> set d" using Some by (rule map_of_SomeD)
    ultimately show ?thesis using ok Some by (auto simp: regs_ok_def list_all_iff)
  qed (simp add: default_entry_def)
  have new: "?e0\<lparr>event_name := ev, handlers := handlers ?e0 @ [h]\<rparr> = \<lparr>event_name = ev, handlers = [h]\<rparr>"
    using h0 by (cases ?e0) simp
  have r: "snd (register_intercept i ev h d) = Inr ()" and dd: "distinct (map fst (fst (register_intercept i ev h d)))"
    and setd: "(i, \<lparr>event_name = ev, handlers = [h]\<rparr>) \<in> set (fst (register_intercept i ev h d))"
    using register_intercept_apply[OF hi dist, of ev h] new by auto
  from dd setd have "map_of (fst (register_intercept i ev h d)) i = Some \<lparr>event_name = ev, handlers = [h]\<rparr>"
    by (rule map_of_is_SomeI)
  with r show ?thesis by simp
qed

lemma fresh_for_subset:
  assumes fr: "fresh_for d i" and dd: "distinct (map fst d)" and dd': "distinct (map fst d')"
    and sub: "set d' \<subseteq> set d \<union> range (\<lambda>k. (k, default_entry))"
  shows "fresh_for d' i"
proof (cases "map_of d' i")
  case (Some e)
  then have "(i, e) \<in> set d'" by (rule map_of_SomeD)
  with sub have "(i, e) \<in> set d \<or> e = default_entry" by auto
  then have "event_name e = PNone"
  proof
    assume "(i, e) \<in> set d"
    with dd have "map_of d i = Some e" by (rule map_of_is_SomeI)
    with fr show ?thesis by (simp add: fresh_for_def)
  qed (simp add: default_entry_def)
  with Some show ?thesis by (simp add: fresh_for_def)
qed (simp add: fresh_for_def)

section \<open>Properties of the registry\<close>

text \<open>
  C17. Removing an unknown rule id: remove_intercept sends network.removeIntercept for it first and then raises KeyError from the dict pop, leaving the registry unchanged. The spec asks for a NotFound error with no effect (section 4.2): the registry is indeed unchanged, but the remote command has already been sent.
\<close>

lemma remove_intercept_unknown:
  assumes acc: "accepts_all ex" and hi: "py_hashable i" and unk: "i \<notin> fst ` set (intercepts s)"
  shows "snd (remove_intercept ex i s) = Inl (KeyError i) \<and> intercepts (fst (remove_intercept ex i s)) = intercepts s \<and>
         sent (conn (fst (remove_intercept ex i s))) = sent (conn s) @ [remove_msg i]"
proof -
  obtain v where ce: "conn_execute ex (remove_msg i, \<lambda>r. r) (conn s) =
      ((conn s)\<lparr>world := fst (ex (world (conn s)) (remove_msg i)), sent := sent (conn s) @ [remove_msg i]\<rparr>, Inr v)"
    using conn_execute_accepts[OF acc, of "(remove_msg i, \<lambda>r. r)" "conn s"] remove_msg_serializable[OF hi] by auto
  have "map_of (intercepts s) i = None" using unk by (simp add: map_of_eq_None_iff)
  then show ?thesis
    using ce hi by (simp add: remove_intercept_apply bidi_remove_intercept_msg await_conn_apply)
qed

lemma remove_intercept_unknown_witness:
  "snd (remove_intercept (accept_remote ''i'') (PStr ''i9'') ex_two) = Inl (KeyError (PStr ''i9'')) \<and>
   intercepts (fst (remove_intercept (accept_remote ''i'') (PStr ''i9'') ex_two)) = intercepts ex_two \<and>
   sent (conn (fst (remove_intercept (accept_remote ''i'') (PStr ''i9'') ex_two))) = [remove_msg (PStr ''i9'')]"
  using remove_intercept_unknown[OF accept_remote_accepts, of "PStr ''i9''" ex_two]
  by (simp add: ex_two_def)

text \<open>
  C3. Two rules share the request phase (and no other rule has it): removing the first keeps the phase's listener, removing the second closes it, and the messages sent are the two removeIntercept commands and exactly one session.unsubscribe (spec section 8).
\<close>

lemma shared_event_teardown:
  assumes inv: "net_inv s" and acc: "accepts_all ex"
    and l1: "map_of (intercepts s) i1 = Some e1" and l2: "map_of (intercepts s) i2 = Some e2" and ne: "i1 \<noteq> i2"
    and ev1: "event_name e1 = ev" and ev2: "event_name e2 = ev" and evn: "ev \<noteq> PNone"
    and only: "\<forall>(k, x) \<in> set (intercepts s). event_name x = ev \<longrightarrow> k = i1 \<or> k = i2"
  shows "ev \<in> fst ` set (listeners (fst (remove_intercept ex i1 s))) \<and>
         ev \<notin> fst ` set (listeners (fst (remove_intercept ex i2 (fst (remove_intercept ex i1 s))))) \<and>
         sent (conn (fst (remove_intercept ex i2 (fst (remove_intercept ex i1 s))))) =
           sent (conn s) @ [remove_msg i1, remove_msg i2, fst (session_unsubscribe ev)]"
proof -
  let ?s1 = "fst (remove_intercept ex i1 s)"
  let ?r1 = "AList.delete i1 (intercepts s)"
  have dist: "distinct (map fst (intercepts s))" using inv by (simp add: net_inv_def regs_ok_def)
  have l2': "map_of ?r1 i2 = Some e2" using l2 ne by (simp add: delete_conv')
  then have "ev \<in> rule_events ?r1" using ev2 evn by (force simp: rule_events_def dest: map_of_SomeD)
  with remove_intercept_live[OF inv acc l1] ev1 evn
  have s1: "intercepts ?s1 = ?r1" "ev \<in> fst ` set (listeners ?s1)" "sent (conn ?s1) = sent (conn s) @ [remove_msg i1]"
    by auto
  have inv1: "net_inv ?s1" using inv by (rule remove_intercept_inv)
  have "ev \<notin> rule_events (AList.delete i2 ?r1)"
    using only by (auto simp: rule_events_def delete_entries)
  with remove_intercept_live[OF inv1 acc, of i2 e2] l2' s1 ev2 evn show ?thesis by auto
qed

lemma shared_event_teardown_witness:
  "PStr ''network.beforeRequestSent'' \<in> fst ` set (listeners (fst (remove_intercept (accept_remote ''i'') (PStr ''i1'') ex_two))) \<and>
   PStr ''network.beforeRequestSent'' \<notin> fst ` set (listeners (fst (remove_intercept (accept_remote ''i'') (PStr ''i2'')
      (fst (remove_intercept (accept_remote ''i'') (PStr ''i1'') ex_two))))) \<and>
   sent (conn (fst (remove_intercept (accept_remote ''i'') (PStr ''i2'') (fst (remove_intercept (accept_remote ''i'') (PStr ''i1'') ex_two))))) =
     [remove_msg (PStr ''i1''), remove_msg (PStr ''i2''), fst (session_unsubscribe (PStr ''network.beforeRequestSent''))]"
  using shared_event_teardown[OF ex_two_inv accept_remote_accepts, of "PStr ''i1''" ex_rule "PStr ''i2''" ex_rule
      "PStr ''network.beforeRequestSent''"]
  by (simp add: ex_two_def ex_rule_def)

text \<open>
  C16. clear_intercepts iterates over the dict it mutates: it removes the first rule and then raises RuntimeError (dictionary changed size during iteration), so every other rule stays registered. The spec requires every rule to be removed (section 4.2).
\<close>

lemma clear_intercepts_first_only:
  assumes inv: "net_inv s" and acc: "accepts_all ex"
    and d: "intercepts s = (i, e) # rest" and ev: "event_name e \<noteq> PNone"
  shows "snd (clear_intercepts ex s) = Inl (RuntimeError ''dictionary changed size during iteration'') \<and>
         intercepts (fst (clear_intercepts ex s)) = rest"
proof -
  have dist: "distinct (map fst ((i, e) # rest))" using inv d by (simp add: net_inv_def regs_ok_def)
  have look: "map_of (intercepts s) i = Some e" using d by simp
  obtain s' where r: "remove_intercept ex i s = (s', Inr ())" and s': "intercepts s' = rest"
    using remove_intercept_live[OF inv acc look ev] d dist by (cases "remove_intercept ex i s") auto
  have "clear_intercepts ex s = clear_loop ex (Suc (length rest)) 1 s'"
    using d r by (simp add: clear_intercepts_def clear_loop.simps[of ex "Suc (length rest)" 0])
  also have "\<dots> = (s', Inl (RuntimeError ''dictionary changed size during iteration''))"
    using s' by (subst clear_loop.simps) simp
  finally show ?thesis using s' by simp
qed

lemma clear_intercepts_first_only_witness:
  "snd (clear_intercepts (accept_remote ''i'') ex_two) = Inl (RuntimeError ''dictionary changed size during iteration'') \<and>
   intercepts (fst (clear_intercepts (accept_remote ''i'') ex_two)) = [(PStr ''i2'', ex_rule)]"
  using clear_intercepts_first_only[OF ex_two_inv accept_remote_accepts, of "PStr ''i1''" ex_rule "[(PStr ''i2'', ex_rule)]"]
  by (simp add: ex_two_def ex_rule_def)

text \<open>
  C20. add_handler always sends session.subscribe for the event and then network.addIntercept, even when the event already has a subscription and a listener; the spec forbids redundant subscribe calls (section 6).
\<close>

lemma add_handler_messages:
  assumes acc: "accepts_all ex" and js: "json_serializable (add_msg name pats)"
  shows "sent (conn (fst (add_handler ex name h pats s))) =
           sent (conn s) @ [fst (session_subscribe (PStr name)), add_msg name pats]"
  using add_handler_sent[OF acc js] .

lemma add_handler_messages_witness:
  "sent (conn (fst (add_handler (accept_remote ''i3'') BeforeRequestSent_event_class (request_handler ''u3'')
      (PList [PObj ''UrlPatternString'' [(''type_'', PStr ''string''), (''pattern'', PStr ''u2'')]]) ex_two))) =
   [fst (session_subscribe (PStr BeforeRequestSent_event_class)),
    add_msg BeforeRequestSent_event_class (PList [PObj ''UrlPatternString'' [(''type_'', PStr ''string''), (''pattern'', PStr ''u2'')]])]"
  using add_handler_messages[OF accept_remote_accepts, where name = BeforeRequestSent_event_class
      and pats = "PList [PObj ''UrlPatternString'' [(''type_'', PStr ''string''), (''pattern'', PStr ''u2'')]]"
      and h = "request_handler ''u3''" and s = ex_two]
  by (simp add: ex_two_def BeforeRequestSent_event_class_def phase_of_def dict_of_def json_key_def ends_marker_def)

text \<open>
  C21. Reading an unknown rule id in handle_requests goes through the defaultdict and inserts a default entry for it (event name None, no handlers); the request passes through unchanged.
\<close>

lemma handle_requests_phantom:
  assumes "getattr p ''request'' = Inr r" and "getattr p ''intercepts'' = Inr (PList [j])"
    and "py_hashable j" and "j \<notin> fst ` set (intercepts s)"
  shows "snd (handle_requests p s) = Inr r \<and> intercepts (fst (handle_requests p s)) = intercepts s @ [(j, default_entry)]"
proof -
  have "map_of (intercepts s) j = None" using assms(4) by (simp add: map_of_eq_None_iff)
  then show ?thesis using assms by (simp add: handle_requests_apply default_entry_def)
qed

lemma handle_requests_phantom_witness:
  "snd (handle_requests (ex_params [PStr ''i9'']) ex_two) = Inr ex_request \<and>
   intercepts (fst (handle_requests (ex_params [PStr ''i9'']) ex_two)) = intercepts ex_two @ [(PStr ''i9'', default_entry)]"
  using handle_requests_phantom[of "ex_params [PStr ''i9'']" ex_request "PStr ''i9''" ex_two]
  by (simp add: ex_params_def ex_two_def)

text \<open>
  C22. A default entry left by handle_requests breaks clear_intercepts: popping it finds no other entry with event name None, so remove_listener(None) raises KeyError.
\<close>

lemma clear_intercepts_phantom:
  assumes inv: "net_inv s" and acc: "accepts_all ex"
    and d: "intercepts s = (j, default_entry) # rest" and only: "PNone \<notin> event_name ` snd ` set rest"
  shows "snd (clear_intercepts ex s) = Inl (KeyError PNone)"
proof -
  have ok: "regs_ok (intercepts s)" and dl: "distinct (map fst (listeners s))"
    and keys: "fst ` set (listeners s) \<union> set (pending s) = rule_events (intercepts s)"
    using inv by (auto simp: net_inv_def)
  have dist: "distinct (map fst ((j, default_entry) # rest))" and hj: "py_hashable j"
    using ok d by (auto simp: regs_ok_def)
  obtain v where ce: "conn_execute ex (remove_msg j, \<lambda>r. r) (conn s) =
      ((conn s)\<lparr>world := fst (ex (world (conn s)) (remove_msg j)), sent := sent (conn s) @ [remove_msg j]\<rparr>, Inr v)"
    using conn_execute_accepts[OF acc, of "(remove_msg j, \<lambda>r. r)" "conn s"] remove_msg_serializable[OF hj] by auto
  let ?s1 = "(run_pending s)\<lparr>conn := (conn s)\<lparr>world := fst (ex (world (conn s)) (remove_msg j)),
      sent := sent (conn s) @ [remove_msg j]\<rparr>\<rparr>"
  have "PNone \<notin> fst ` set (listeners ?s1)"
    using keys run_pending_keys[of s] by (auto simp: rule_events_def)
  then have nl: "map_of (listeners ?s1) PNone = None" by (simp add: map_of_eq_None_iff)
  have emp: "[x \<leftarrow> map snd rest. event_name x = PNone] = []"
    using only by (simp add: filter_events_empty)
  have "remove_intercept ex j s = (?s1\<lparr>intercepts := rest\<rparr>, Inl (KeyError PNone))"
    using ce hj d dist emp nl
    by (simp add: remove_intercept_apply bidi_remove_intercept_msg await_conn_apply release_event_def
        remove_listener_def default_entry_def)
  then show ?thesis
    using d by (simp add: clear_intercepts_def clear_loop.simps[of ex "Suc (length rest)" 0])
qed

lemma clear_intercepts_phantom_witness:
  "snd (clear_intercepts (accept_remote ''i'') ex_phantom) = Inl (KeyError PNone)"
  using clear_intercepts_phantom[of ex_phantom "accept_remote ''i''" "PStr ''i9''" "intercepts ex_two"] accept_remote_accepts
  by (simp add: ex_phantom_def ex_two_def ex_rule_def net_inv_def regs_ok_def rule_events_def default_entry_def)

end
