(* ===== verification/System.thy ===== *)
theory System
  imports Registry
begin

text \<open>
  The manager in its environment. The browser (\<open>browser\<close>) is a remote end
  that numbers the intercepts it creates and accepts every other command; it is
  modelled from the spec (section 6: identifiers are issued by the remote side,
  so collisions are impossible by construction). A caller of the manager
  (spec section 6, ``Exposed to callers'') issues the operations of
  \<open>net_op\<close>, one at a time; \<open>ListenerEvent\<close> is the step of a listener task
  that takes one event from its stream. \<open>sys_step\<close> is one such operation
  and \<open>reachable\<close> the states reached from a fresh session, whatever the
  operations, their arguments and their failures. The section ends with the
  repository's test, \<open>test_request_handler\<close>, as a sequence of operations.
\<close>

section \<open>The remote end\<close>

definition msg_method :: "pyval \<Rightarrow> pyval option" where
  "msg_method m = (case m of PDict kvs \<Rightarrow> map_of kvs ''method'' | _ \<Rightarrow> None)"

definition browser :: "nat remote" where
  "browser n m = (if msg_method m = Some (PStr ''network.addIntercept'')
                  then (Suc n, Inr (PDict [(''intercept'', PInt (int n))]))
                  else (n, Inr PNone))"

section \<open>Callers and listener tasks\<close>

datatype net_op =
    AddRequestHandler handler pyval
  | RemoveRequestHandler pyval
  | ClearRequestHandlers
  | Get string string
  | ListenerEvent pyval

definition exec_op :: "'w remote \<Rightarrow> string \<Rightarrow> net_op \<Rightarrow> ('w net, unit) pyst" where
  "exec_op ex ctx op = (case op of
      AddRequestHandler h pats \<Rightarrow> sbind (add_request_handler ex h pats) (\<lambda>_. sreturn ())
    | RemoveRequestHandler i \<Rightarrow> remove_request_handler ex i
    | ClearRequestHandlers \<Rightarrow> clear_request_handlers ex
    | Get url wait \<Rightarrow> get ex ctx url wait
    | ListenerEvent ev \<Rightarrow> listener_event ex ev)"

inductive sys_step :: "string \<Rightarrow> nat net \<Rightarrow> nat net \<Rightarrow> bool" for ctx where
  exec: "sys_step ctx s (fst (exec_op browser ctx op s))"

inductive reachable :: "string \<Rightarrow> nat net \<Rightarrow> bool" for ctx where
  init: "reachable ctx (net_init \<lparr>world = 0, sent = []\<rparr>)"
| step: "reachable ctx s \<Longrightarrow> sys_step ctx s s' \<Longrightarrow> reachable ctx s'"

definition run_ops :: "string \<Rightarrow> net_op list \<Rightarrow> nat net \<Rightarrow> nat net" where
  "run_ops ctx ops s = foldl (\<lambda>s op. fst (exec_op browser ctx op s)) s ops"

section \<open>The invariant of the system\<close>

text \<open>
  Every live rule's id was issued by the browser before (\<open>ids_issued\<close>), so the
  id the browser issues next is fresh; \<open>sys_inv\<close> adds it to the manager's
  invariant \<open>net_inv\<close>.
\<close>

definition ids_issued :: "(pyval \<times> entry) list \<Rightarrow> nat \<Rightarrow> bool" where
  "ids_issued d n \<longleftrightarrow> list_all (\<lambda>(k, e). event_name e = PNone \<or>
      (case k of PInt m \<Rightarrow> 0 \<le> m \<and> m < int n | _ \<Rightarrow> False)) d"

definition issued_ok :: "nat net \<Rightarrow> bool" where
  "issued_ok s \<longleftrightarrow> ids_issued (intercepts s) (world (conn s))"

definition sys_inv :: "nat net \<Rightarrow> bool" where
  "sys_inv s \<longleftrightarrow> net_inv s \<and> issued_ok s"

definition add_browser_state :: "string \<Rightarrow> pyval \<Rightarrow> nat net \<Rightarrow> nat net" where
  "add_browser_state name pats s = (run_pending s)\<lparr>conn := (conn s)\<lparr>world := Suc (world (conn s)),
      sent := sent (conn s) @ [fst (session_subscribe (PStr name)), add_msg name pats]\<rparr>\<rparr>"

section \<open>The repository's test\<close>

text \<open>
  \<open>test_request_handler\<close> of \<open>bidi_network_tests.py\<close>: two rules with the
  test's handler, filtered to \<open>url1\<close> and \<open>url2\<close> and redirecting to
  \<open>url3\<close>; navigations; removal of the second rule, then of the first. The
  browser blocks a navigation whose URL a live rule matches and sends a
  \<open>beforeRequestSent\<close> event naming the rule (\<open>test_event\<close>).
\<close>

definition test_pattern :: "string \<Rightarrow> pyval" where
  "test_pattern url = PList [PObj ''UrlPatternString'' [(''pattern'', PStr url), (''type_'', PStr ''string'')]]"

definition test_event :: "string \<Rightarrow> pyval list \<Rightarrow> pyval" where
  "test_event url ids = PObj ''BeforeRequestSent''
     [(''params'', PObj ''BeforeRequestSentParameters''
        [(''isBlocked'', PBool True), (''redirectCount'', PInt 0),
         (''request'', PDict [(''request'', PStr ''req''), (''url'', PStr url), (''method'', PStr ''GET''),
                             (''headersSize'', PInt 0)]),
         (''timestamp'', PInt 0), (''initiator'', PDict [(''type'', PStr ''parser'')]),
         (''context'', PNone), (''navigation'', PNone), (''intercepts'', PList ids)]),
      (''method'', PStr ''network.beforeRequestSent'')]"

definition test_ops :: "string \<Rightarrow> string \<Rightarrow> string \<Rightarrow> net_op list" where
  "test_ops url1 url2 url3 =
     [AddRequestHandler (request_handler url3) (test_pattern url1),
      AddRequestHandler (request_handler url3) (test_pattern url2),
      Get url1 ''complete'', ListenerEvent (test_event url1 [PInt 0]),
      Get url2 ''complete'', ListenerEvent (test_event url2 [PInt 1]),
      RemoveRequestHandler (PInt 1),
      Get url2 ''complete'',
      Get url1 ''complete'', ListenerEvent (test_event url1 [PInt 0]),
      RemoveRequestHandler (PInt 0),
      Get url1 ''complete'']"

abbreviation navigate_msg :: "string \<Rightarrow> string \<Rightarrow> pyval" where
  "navigate_msg ctx url \<equiv> fst (navigate ctx url ''complete'')"

abbreviation continue_url_msg :: "string \<Rightarrow> string \<Rightarrow> pyval" where
  "continue_url_msg r url \<equiv> PDict [(''params'', PDict [(''request'', PStr r), (''url'', PStr url)]),
                                  (''method'', PStr ''network.continueRequest'')]"

section \<open>Lemmas on the browser and the issued ids\<close>

inductive_cases sys_stepE: "sys_step ctx s s'"

lemma ids_issued_mono: "ids_issued d n \<Longrightarrow> n \<le> n' \<Longrightarrow> ids_issued d n'"
  by (fastforce simp: ids_issued_def list_all_iff split: pyval.splits)

lemma ids_issued_subset: "ids_issued d n \<Longrightarrow> set d' \<subseteq> set d \<union> range (\<lambda>k. (k, default_entry)) \<Longrightarrow> ids_issued d' n"
  by (fastforce simp: ids_issued_def list_all_iff default_entry_def)

lemma ids_issued_fresh: "ids_issued d n \<Longrightarrow> fresh_for d (PInt (int n))"
  by (cases "map_of d (PInt (int n))") (auto simp: fresh_for_def ids_issued_def list_all_iff dest!: map_of_SomeD)

lemma world_conn_execute: "world cn \<le> world (fst (conn_execute browser c cn))"
  by (simp add: conn_execute_def browser_def split: prod.splits)

lemma world_sbind:
  fixes m :: "(nat conn, 'a) pyst" and f :: "'a \<Rightarrow> (nat conn, 'b) pyst"
  assumes "\<And>cn. world cn \<le> world (fst (m cn))" and "\<And>a cn. world cn \<le> world (fst (f a cn))"
  shows "world cn \<le> world (fst (sbind m f cn))"
proof -
  obtain cn' r where m: "m cn = (cn', r)" by (cases "m cn")
  have "world cn \<le> world cn'" using assms(1)[of cn] m by simp
  with m assms(2)[where cn = cn'] show ?thesis by (cases r) (auto simp: sbind_def intro: order_trans)
qed

lemma world_bidi:
  "world cn \<le> world (fst (bidi_add_intercept browser p cn))"
  "world cn \<le> world (fst (bidi_continue_request browser p cn))"
  "world cn \<le> world (fst (bidi_remove_intercept browser p cn))"
  unfolding bidi_add_intercept_def bidi_continue_request_def bidi_remove_intercept_def
  by (intro world_sbind world_conn_execute; simp)+

lemma handle_intercepts_entries:
  "set (fst (handle_intercepts ids r d)) \<subseteq> set d \<union> range (\<lambda>k. (k, default_entry))"
proof (induction ids arbitrary: r d)
  case Nil
  then show ?case by simp
next
  case (Cons i ids)
  obtain d' x where g: "dd_get default_entry i d = (d', x)" by force
  have "set d' \<subseteq> set d \<union> range (\<lambda>k. (k, default_entry))"
    using dd_get_entries[of default_entry i d] g by auto
  moreover have "set (fst (handle_intercepts ids r' d')) \<subseteq> set d \<union> range (\<lambda>k. (k, default_entry))" for r'
    using Cons.IH[of r' d'] calculation by blast
  ultimately show ?case
    using g by (cases x; cases "run_handlers (handlers (projr x)) r") (auto simp: sbind_def)
qed

lemma dict_pop_st_entries: "set (fst (dict_pop_st i d)) \<subseteq> set d \<union> range (\<lambda>k. (k, default_entry))"
  by (auto simp: dict_pop_st_def dict_pop_def delete_entries split: if_splits option.splits)

lemma ops_preserve:
  fixes P :: "nat net \<Rightarrow> bool"
  assumes await: "\<And>s c'. P s \<Longrightarrow> world (conn s) \<le> world c' \<Longrightarrow> P ((run_pending s)\<lparr>conn := c'\<rparr>)"
    and icpt: "\<And>s d'. P s \<Longrightarrow> set d' \<subseteq> set (intercepts s) \<union> range (\<lambda>k. (k, default_entry)) \<Longrightarrow>
                 P (s\<lparr>intercepts := d'\<rparr>)"
    and rml: "\<And>s ev. P s \<Longrightarrow> P (fst (remove_listener ev s))"
  shows ops_preserve_get: "P s \<Longrightarrow> P (fst (get browser ctx url wait s))"
    and ops_preserve_listener_event: "P s \<Longrightarrow> P (fst (listener_event browser ev s))"
    and ops_preserve_remove_intercept: "P s \<Longrightarrow> P (fst (remove_intercept browser i s))"
    and ops_preserve_clear_intercepts: "P s \<Longrightarrow> P (fst (clear_intercepts browser s))"
    and ops_preserve_remove_send: "P s \<Longrightarrow> P (fst (await_conn (bidi_remove_intercept browser p) s))"
    and ops_preserve_remove_pop: "P s \<Longrightarrow> P (fst (sbind (on_intercepts (dict_pop_st i)) (release_event browser) s))"
proof -
  have aw: "P (fst (await_conn m s))" if "P s" and "\<And>cn. world cn \<le> world (fst (m cn))" for s m
    using await[OF that(1) that(2)[of "conn s"]] by (simp add: await_conn_apply)
  have ic: "P (fst (on_intercepts m s))" if "P s" and "\<And>d. set (fst (m d)) \<subseteq> set d \<union> range (\<lambda>k. (k, default_entry))"
    for s m
    using icpt[OF that(1) that(2)[of "intercepts s"]] by (simp add: on_intercepts_apply)
  have hr: "P s \<Longrightarrow> P (fst (handle_requests p s))" for s p
    unfolding handle_requests_def
    by (intro sbind_preserves[where P = P] ic handle_intercepts_entries) auto
  have he: "P s \<Longrightarrow> P (fst (handle_events browser p s))" for s p
    unfolding handle_events_def
    by (auto intro!: sbind_preserves[where P = P] hr aw world_bidi)
  have re: "P s \<Longrightarrow> P (fst (release_event browser e s))" for s e
    unfolding release_event_def
    by (auto intro!: sbind_preserves[where P = P] rml aw world_conn_execute)
  have rs: "P s \<Longrightarrow> P (fst (await_conn (bidi_remove_intercept browser p) s))" for s p
    by (rule aw) (auto intro: world_bidi)
  have rp: "P s \<Longrightarrow> P (fst (sbind (on_intercepts (dict_pop_st i)) (release_event browser) s))" for s i
    by (intro sbind_preserves[where P = P] ic dict_pop_st_entries re)
  have ri: "P s \<Longrightarrow> P (fst (remove_intercept browser i s))" for s i
    unfolding remove_intercept_def
    by (intro sbind_preserves[where P = P] rs rp) auto
  show "P s \<Longrightarrow> P (fst (get browser ctx url wait s))"
    unfolding get_def by (intro sbind_preserves[where P = P] aw world_conn_execute) auto
  show "P s \<Longrightarrow> P (fst (listener_event browser ev s))"
    unfolding listener_event_def by (auto intro!: sbind_preserves[where P = P] he)
  show "P s \<Longrightarrow> P (fst (remove_intercept browser i s))" by (rule ri)
  show "P s \<Longrightarrow> P (fst (clear_intercepts browser s))"
    unfolding clear_intercepts_def by (rule clear_loop_preserves[where P = P, OF ri])
  show "P s \<Longrightarrow> P (fst (await_conn (bidi_remove_intercept browser p) s))" by (rule rs)
  show "P s \<Longrightarrow> P (fst (sbind (on_intercepts (dict_pop_st i)) (release_event browser) s))" by (rule rp)
qed

lemma issued_await_state:
  "issued_ok s \<Longrightarrow> world (conn s) \<le> world c' \<Longrightarrow> issued_ok ((run_pending s)\<lparr>conn := c'\<rparr>)"
  by (auto simp: issued_ok_def intro: ids_issued_mono)

lemma issued_intercepts_state:
  "issued_ok s \<Longrightarrow> set d' \<subseteq> set (intercepts s) \<union> range (\<lambda>k. (k, default_entry)) \<Longrightarrow>
   issued_ok (s\<lparr>intercepts := d'\<rparr>)"
  by (auto simp: issued_ok_def elim!: ids_issued_subset)

lemma issued_remove_listener: "issued_ok s \<Longrightarrow> issued_ok (fst (remove_listener ev s))"
  by (simp add: remove_listener_def issued_ok_def split: sum.splits prod.splits)

lemmas issued_ops = ops_preserve[where P = issued_ok, OF issued_await_state issued_intercepts_state issued_remove_listener]

lemma browser_subscribe:
  "py_hashable ev \<Longrightarrow> conn_execute browser (session_subscribe ev) cn =
     (cn\<lparr>sent := sent cn @ [fst (session_subscribe ev)]\<rparr>, Inr PNone)"
  by (simp add: conn_execute_def browser_def msg_method_def session_subscribe_def)

lemma browser_add:
  "json_serializable (add_msg name pats) \<Longrightarrow> conn_execute browser (add_msg name pats, \<lambda>r. r) cn =
     (cn\<lparr>world := Suc (world cn), sent := sent cn @ [add_msg name pats]\<rparr>, Inr (PDict [(''intercept'', PInt (int (world cn)))]))"
  by (simp add: conn_execute_def browser_def msg_method_def)

lemma add_handler_browser_apply:
  assumes js: "json_serializable (add_msg name pats)"
  shows "add_handler browser name h pats s =
    (case register_intercept (PInt (int (world (conn s)))) (PStr name) h (intercepts s) of
       (d', Inl x) \<Rightarrow> (add_browser_state name pats s\<lparr>intercepts := d'\<rparr>, Inl x)
     | (d', Inr _) \<Rightarrow> (add_browser_state name pats s\<lparr>intercepts := d', pending := [PStr name]\<rparr>,
                      Inr (PInt (int (world (conn s))))))"
proof -
  have a1: "await_conn (conn_execute browser (session_subscribe (PStr name))) s =
      ((run_pending s)\<lparr>conn := (conn s)\<lparr>sent := sent (conn s) @ [fst (session_subscribe (PStr name))]\<rparr>\<rparr>, Inr PNone)"
    by (simp add: await_conn_apply browser_subscribe)
  show ?thesis
    using a1 js
    by (simp add: add_handler_apply await_conn_apply bidi_add_intercept_msg browser_add subscript_def
        add_browser_state_def run_pending_idle split: prod.splits sum.splits del: enc_value.simps)
qed

lemma add_handler_browser_unencodable:
  assumes js: "\<not> json_serializable (add_msg name pats)"
  shows "add_handler browser name h pats s =
     ((run_pending s)\<lparr>conn := (conn s)\<lparr>sent := sent (conn s) @ [fst (session_subscribe (PStr name))]\<rparr>\<rparr>,
      Inl (TypeError ''Object is not JSON serializable''))"
proof -
  have a1: "await_conn (conn_execute browser (session_subscribe (PStr name))) s =
      ((run_pending s)\<lparr>conn := (conn s)\<lparr>sent := sent (conn s) @ [fst (session_subscribe (PStr name))]\<rparr>\<rparr>, Inr PNone)"
    by (simp add: await_conn_apply browser_subscribe)
  have c2: "\<And>cn. conn_execute browser (add_msg name pats, \<lambda>r. r) cn = (cn, Inl (TypeError ''Object is not JSON serializable''))"
    using js by (simp add: conn_execute_def del: enc_value.simps)
  show ?thesis
    using a1 by (simp add: add_handler_apply await_conn_apply bidi_add_intercept_msg c2 run_pending_idle
        del: enc_value.simps)
qed

lemma add_handler_browser:
  assumes inv: "net_inv s" and iss: "issued_ok s"
  shows "net_inv (fst (add_handler browser name h pats s)) \<and> issued_ok (fst (add_handler browser name h pats s))"
proof (cases "json_serializable (add_msg name pats)")
  case False
  have "net_inv (fst (await_conn (conn_execute browser (session_subscribe (PStr name))) s))"
    using net_inv_await[OF inv] by blast
  then show ?thesis
    using False iss by (simp add: add_handler_browser_unencodable await_conn_apply browser_subscribe issued_ok_def)
next
  case True
  let ?n = "world (conn s)"
  let ?i = "PInt (int ?n)"
  have dist: "distinct (map fst (intercepts s))" using inv by (simp add: net_inv_def regs_ok_def)
  obtain d' where reg: "register_intercept ?i (PStr name) h (intercepts s) = (d', Inr ())"
    using register_intercept_apply[of ?i "intercepts s" "PStr name" h] dist
    by (cases "register_intercept ?i (PStr name) h (intercepts s)") auto
  have res: "add_handler browser name h pats s =
      (add_browser_state name pats s\<lparr>intercepts := d', pending := [PStr name]\<rparr>, Inr ?i)"
    using add_handler_browser_apply[OF True] reg by simp
  have fr: "fresh_for (intercepts s) ?i" using iss by (simp add: issued_ok_def ids_issued_fresh)
  have "net_inv (fst (add_handler browser name h pats s))"
    using add_handler_inv[OF inv, of browser name h pats] res fr by simp
  moreover have "issued_ok (fst (add_handler browser name h pats s))"
  proof -
    obtain new where setd: "set d' = insert (?i, new) (set (AList.delete ?i (intercepts s)))"
      using register_intercept_apply[of ?i "intercepts s" "PStr name" h] dist reg by auto
    have "ids_issued (intercepts s) (Suc ?n)" using iss ids_issued_mono by (simp add: issued_ok_def)
    then have "ids_issued d' (Suc ?n)" using setd by (fastforce simp: ids_issued_def list_all_iff delete_entries)
    then show ?thesis using res by (simp add: issued_ok_def add_browser_state_def)
  qed
  ultimately show ?thesis by simp
qed

lemma sys_inv_init: "sys_inv (net_init \<lparr>world = 0, sent = []\<rparr>)"
  by (simp add: sys_inv_def net_init_def net_inv_def regs_ok_def rule_events_def issued_ok_def ids_issued_def)

lemma sys_inv_exec:
  assumes "sys_inv s" shows "sys_inv (fst (exec_op browser ctx op s))"
proof (cases op)
  case (AddRequestHandler h pats)
  then have "exec_op browser ctx op = sbind (add_handler browser BeforeRequestSent_event_class h pats) (\<lambda>_. sreturn ())"
    by (simp add: exec_op_def add_request_handler_def)
  then show ?thesis
    using assms by (auto intro!: sbind_preserves[where P = sys_inv] simp del: sreturn_apply)
      (auto simp: sys_inv_def add_handler_browser)
qed (use assms in \<open>auto simp: exec_op_def sys_inv_def remove_request_handler_def clear_request_handlers_def
     remove_intercept_inv clear_intercepts_inv get_inv listener_event_inv issued_ops\<close>)

lemma reachable_sys_inv: "reachable ctx s \<Longrightarrow> sys_inv s"
  by (induction rule: reachable.induct) (auto elim!: sys_stepE intro: sys_inv_init sys_inv_exec)

lemma reachable_run_ops: "reachable ctx s \<Longrightarrow> reachable ctx (run_ops ctx ops s)"
proof (induction ops arbitrary: s)
  case Nil
  then show ?case by (simp add: run_ops_def)
next
  case (Cons op ops)
  have "reachable ctx (fst (exec_op browser ctx op s))" using Cons.prems by (blast intro: reachable.step sys_step.exec)
  with Cons.IH show ?case by (simp add: run_ops_def)
qed

section \<open>Properties of the system\<close>

text \<open>
  C1. In every state reachable from a fresh session by any sequence of caller
  operations and listener steps, the manager's invariant holds: the registry is a
  dict of hashable ids whose default entries carry no handler, and the event
  types with an open or scheduled listener are exactly those with a live rule
  (the spec's ActiveSubscription invariant, sections 3 and 8).
\<close>

lemma reachable_net_inv: "reachable ctx s \<Longrightarrow> net_inv s"
  using reachable_sys_inv by (simp add: sys_inv_def)

lemma reachable_net_inv_witness:
  "net_inv (run_ops ''ctx'' (take 4 (test_ops ''u1'' ''u2'' ''u3'')) (net_init \<lparr>world = 0, sent = []\<rparr>))"
  using reachable_net_inv[OF reachable_run_ops[OF reachable.init]] .

text \<open>
  C2. From every reachable state, add_request_handler with encodable URL
  patterns returns the id the browser issues, stores under it a rule of the
  request phase whose only handler is the new one, and schedules the phase's
  listener (the spec's addRule, section 4.2).
\<close>

lemma add_request_handler_registers:
  assumes r: "reachable ctx s" and js: "json_serializable (add_msg BeforeRequestSent_event_class pats)"
  shows "snd (add_request_handler browser h pats s) = Inr (PInt (int (world (conn s)))) \<and>
         map_of (intercepts (fst (add_request_handler browser h pats s))) (PInt (int (world (conn s)))) =
           Some \<lparr>event_name = PStr BeforeRequestSent_event_class, handlers = [h]\<rparr> \<and>
         PStr BeforeRequestSent_event_class \<in> set (pending (fst (add_request_handler browser h pats s)))"
proof -
  let ?ev = "PStr BeforeRequestSent_event_class"
  let ?i = "PInt (int (world (conn s)))"
  have inv: "net_inv s" and iss: "issued_ok s" using reachable_sys_inv[OF r] by (auto simp: sys_inv_def)
  have ok: "regs_ok (intercepts s)" using inv by (simp add: net_inv_def)
  have fr: "fresh_for (intercepts s) ?i" using iss by (simp add: issued_ok_def ids_issued_fresh)
  obtain d' where reg: "register_intercept ?i ?ev h (intercepts s) = (d', Inr ())"
    and look: "map_of d' ?i = Some \<lparr>event_name = ?ev, handlers = [h]\<rparr>"
    using register_fresh[OF ok _ fr, of ?ev h] by (cases "register_intercept ?i ?ev h (intercepts s)") auto
  show ?thesis
    using add_handler_browser_apply[OF js, of h s] reg look by (simp add: add_request_handler_def)
qed

lemma add_request_handler_registers_witness:
  "snd (add_request_handler browser (request_handler ''u3'') (test_pattern ''u1'') (net_init \<lparr>world = 0, sent = []\<rparr>)) = Inr (PInt 0) \<and>
   map_of (intercepts (fst (add_request_handler browser (request_handler ''u3'') (test_pattern ''u1'') (net_init \<lparr>world = 0, sent = []\<rparr>)))) (PInt 0) =
     Some \<lparr>event_name = PStr BeforeRequestSent_event_class, handlers = [request_handler ''u3'']\<rparr> \<and>
   PStr BeforeRequestSent_event_class \<in> set (pending (fst (add_request_handler browser (request_handler ''u3'') (test_pattern ''u1'') (net_init \<lparr>world = 0, sent = []\<rparr>))))"
  using add_request_handler_registers[where ctx = "''ctx''" and h = "request_handler ''u3''" and pats = "test_pattern ''u1''", OF reachable.init]
  by (simp add: test_pattern_def net_init_def BeforeRequestSent_event_class_def phase_of_def dict_of_def json_key_def ends_marker_def)


end
