(* ===== verification/Session.thy ===== *)
theory Session
  imports System
begin

text \<open>
  The scoped session of \<open>remote/network.py\<close>, \<open>set_context\<close> (lines 46--54),
  and \<open>disable_cache\<close> (lines 123--125). Inside \<open>async with
  driver.network.set_context():\<close> the caller's block runs with the connection
  open and a trio nursery for the listener tasks. Leaving the block leaves the
  nursery, and trio then waits for every child task. A listener task loops over
  its stream (lines 65--69) until the stream is closed, which only
  \<open>remove_listener\<close> does (the \<open>ClosedResourceError\<close> of lines 70--71 ends the
  task quietly). \<open>nursery_wait\<close> is that wait. While a listener is open,
  it handles the events the browser still sends (\<open>evs\<close>). It returns when no
  listener is left, or with the exception a task raised. Otherwise it does not
  return, which is \<open>None\<close> in the option monad. An exception in the block
  cancels the nursery and propagates. The spec promises (section 6) that the
  scope tears down every rule and subscription on exit; the code has no teardown
  of its own.
\<close>

section \<open>The session\<close>

partial_function (option) nursery_wait :: "'w remote \<Rightarrow> pyval list \<Rightarrow> 'w net \<Rightarrow> ('w net \<times> (exc + unit)) option" where
  "nursery_wait ex evs s =
     (if listeners s = [] then Some (s, Inr ())
      else case evs of
        [] \<Rightarrow> nursery_wait ex [] s
      | ev # evs' \<Rightarrow> (case listener_event ex ev s of
           (s', Inl e) \<Rightarrow> Some (s', Inl e)
         | (s', Inr _) \<Rightarrow> nursery_wait ex evs' s'))"

definition set_context :: "'w remote \<Rightarrow> 'w conn \<Rightarrow> ('w net, 'a) pyst \<Rightarrow> pyval list \<Rightarrow> ('w net \<times> (exc + 'a)) option" where
  "set_context ex c body evs = (case body (net_init c) of
      (s, Inl e) \<Rightarrow> Some (s, Inl e)
    | (s, Inr a) \<Rightarrow> map_option (\<lambda>(s', r). (s', map_sum id (\<lambda>_. a) r)) (nursery_wait ex evs (run_pending s)))"

text \<open>The caller's block: the operations in order, the first exception ending it.\<close>

definition run_body :: "'w remote \<Rightarrow> string \<Rightarrow> net_op list \<Rightarrow> ('w net, unit) pyst" where
  "run_body ex ctx ops = foldr (\<lambda>op m. sbind (exec_op ex ctx op) (\<lambda>_. m)) ops (sreturn ())"

text \<open>The caller removing every rule with \<open>remove_request_handler\<close>, in dict order.\<close>

definition teardown :: "string \<Rightarrow> nat net \<Rightarrow> nat net" where
  "teardown ctx s = run_ops ctx (map (\<lambda>(i, e). RemoveRequestHandler i) (intercepts s)) s"

section \<open>Cache control\<close>

text \<open>
  \<open>disable_cache\<close> runs a classic WebDriver CDP command through the driver, not
  through the BiDi connection. Its state is the driver's log of executed
  commands, which is separate from the interception state. \<open>execute_cdp_cmd\<close>
  is the driver's method (\<open>remote/webdriver.py\<close>, not in the repository).
\<close>

type_synonym driver_log = "(string \<times> pyval) list"

definition execute_cdp_cmd :: "string \<Rightarrow> pyval \<Rightarrow> (driver_log, pyval) pyst" where
  "execute_cdp_cmd command args = (\<lambda>log. (log @ [(command, args)], Inr PNone))"

definition disable_cache :: "(driver_log, unit) pyst" where
  "disable_cache = sbind (execute_cdp_cmd ''Network.setCacheDisabled'' (PDict [(''cacheDisabled'', PBool True)]))
     (\<lambda>_. sreturn ())"

section \<open>Lemmas on the session\<close>

lemma listener_keys_mono:
  "fst ` set (listeners s) \<subseteq> fst ` set (listeners (fst (listener_event ex ev s)))"
proof -
  define Q where "Q s' \<longleftrightarrow> fst ` set (listeners s) \<subseteq> fst ` set (listeners s')" for s' :: "'a net"
  have aw: "Q s' \<Longrightarrow> Q (fst (await_conn m s'))" for s' and m :: "('a conn, pyval) pyst"
    by (auto simp: Q_def await_conn_apply run_pending_keys)
  have hr: "Q s' \<Longrightarrow> Q (fst (handle_requests p s'))" for s' p
    by (simp add: Q_def handle_requests_def sbind_def on_intercepts_apply split: sum.splits)
  have he: "Q s' \<Longrightarrow> Q (fst (handle_events ex p s'))" for s' p
    unfolding handle_events_def by (auto intro!: sbind_preserves[where P = Q] hr aw)
  have "Q s" by (simp add: Q_def)
  then have "Q (fst (listener_event ex ev s))"
    unfolding listener_event_def by (auto intro!: sbind_preserves[where P = Q] he)
  then show ?thesis by (simp add: Q_def)
qed

lemma nursery_wait_open:
  assumes ret: "nursery_wait ex evs s = Some res"
  shows "listeners s \<noteq> [] \<longrightarrow> (\<exists>e. snd res = Inl e) \<and> evs \<noteq> []"
proof (rule nursery_wait.raw_induct[where P = "\<lambda>ex evs s res. listeners s \<noteq> [] \<longrightarrow> (\<exists>e. snd res = Inl e) \<and> evs \<noteq> []",
      OF _ ret])
  fix f ex evs s res
  assume IH: "\<And>ex evs s res. f ex evs s = Some res \<Longrightarrow> listeners s \<noteq> [] \<longrightarrow> (\<exists>e. snd res = Inl e) \<and> evs \<noteq> []"
    and eq: "(if listeners s = [] then Some (s, Inr ())
      else case evs of
        [] \<Rightarrow> f ex [] s
      | ev # evs' \<Rightarrow> (case listener_event ex ev s of
           (s', Inl e) \<Rightarrow> Some (s', Inl e)
         | (s', Inr _) \<Rightarrow> f ex evs' s')) = Some res"
  show "listeners s \<noteq> [] \<longrightarrow> (\<exists>e. snd res = Inl e) \<and> evs \<noteq> []"
  proof
    assume ne: "listeners s \<noteq> []"
    show "(\<exists>e. snd res = Inl e) \<and> evs \<noteq> []"
    proof (cases evs)
      case Nil
      with eq ne have "f ex [] s = Some res" by simp
      from IH[OF this] ne show ?thesis by simp
    next
      case (Cons ev evs')
      obtain s' r where le: "listener_event ex ev s = (s', r)" by force
      show ?thesis
      proof (cases r)
        case (Inl e)
        with eq ne Cons le show ?thesis by auto
      next
        case (Inr u)
        with eq ne Cons le have "f ex evs' s' = Some res" by simp
        moreover have "listeners s' \<noteq> []" using listener_keys_mono[of s ex ev] le ne by auto
        ultimately show ?thesis using IH Cons by blast
      qed
    qed
  qed
qed

lemma browser_accepts: "accepts_all browser"
  by (simp add: accepts_all_def browser_def)

lemma intercepts_release_event: "intercepts (fst (release_event ex e s)) = intercepts s"
  by (simp add: release_event_def sbind_def remove_listener_def await_conn_apply split: sum.splits prod.splits)

lemma remove_intercept_browser_pops:
  assumes inv: "net_inv s" and look: "map_of (intercepts s) i = Some e"
  shows "intercepts (fst (remove_intercept browser i s)) = AList.delete i (intercepts s)"
proof -
  have "(i, e) \<in> set (intercepts s)" using look by (rule map_of_SomeD)
  then have hi: "py_hashable i" using inv by (auto simp: net_inv_def regs_ok_def list_all_iff)
  obtain v where ce: "conn_execute browser (remove_msg i, \<lambda>r. r) (conn s) =
      ((conn s)\<lparr>world := fst (browser (world (conn s)) (remove_msg i)), sent := sent (conn s) @ [remove_msg i]\<rparr>, Inr v)"
    using conn_execute_accepts[OF browser_accepts, of "(remove_msg i, \<lambda>r. r)" "conn s"] remove_msg_serializable[OF hi]
    by auto
  then show ?thesis
    using hi look
    by (simp add: remove_intercept_apply bidi_remove_intercept_msg await_conn_apply intercepts_release_event)
qed

lemma teardown_empties:
  "reachable ctx s \<Longrightarrow> intercepts s = d \<Longrightarrow> intercepts (run_ops ctx (map (\<lambda>(i, e). RemoveRequestHandler i) d) s) = []"
proof (induction d arbitrary: s)
  case Nil
  then show ?case by (simp add: run_ops_def)
next
  case (Cons p rest)
  obtain i e where p: "p = (i, e)" by (cases p)
  let ?s1 = "fst (exec_op browser ctx (RemoveRequestHandler i) s)"
  have inv: "net_inv s" using reachable_sys_inv[OF Cons.prems(1)] by (simp add: sys_inv_def)
  then have "distinct (map fst (intercepts s))" by (simp add: net_inv_def regs_ok_def)
  with Cons.prems(2) p have "intercepts ?s1 = rest"
    using remove_intercept_browser_pops[OF inv, of i e]
    by (simp add: exec_op_def remove_request_handler_def)
  moreover have "reachable ctx ?s1" using Cons.prems(1) by (blast intro: reachable.step sys_step.exec)
  ultimately show ?case using Cons.IH p by (simp add: run_ops_def)
qed

lemma run_body_run_ops:
  "snd (run_body browser ctx ops s) = Inr () \<Longrightarrow> fst (run_body browser ctx ops s) = run_ops ctx ops s"
proof (induction ops arbitrary: s)
  case Nil
  then show ?case by (simp add: run_body_def run_ops_def)
next
  case (Cons op ops)
  obtain s1 r where e: "exec_op browser ctx op s = (s1, r)" by force
  show ?case
  proof (cases r)
    case (Inl x)
    with Cons.prems e show ?thesis by (simp add: run_body_def)
  next
    case (Inr u)
    with Cons e show ?thesis by (simp add: run_body_def run_ops_def)
  qed
qed

section \<open>Properties of the session\<close>

text \<open>
  C8. Teardown is always possible: from every reachable state, removing the
  rules one by one with remove_request_handler leaves no rule, no listener and
  no scheduled listener task, so leaving set_context returns normally whatever
  events the browser still sends.
\<close>

theorem teardown_closes_session:
  assumes r: "reachable ctx s"
  shows "intercepts (teardown ctx s) = [] \<and> listeners (teardown ctx s) = [] \<and> pending (teardown ctx s) = [] \<and>
         nursery_wait ex evs (run_pending (teardown ctx s)) = Some (teardown ctx s, Inr ())"
proof -
  have r': "reachable ctx (teardown ctx s)" unfolding teardown_def using r by (rule reachable_run_ops)
  have e: "intercepts (teardown ctx s) = []" using teardown_empties[OF r refl] by (simp add: teardown_def)
  have "net_inv (teardown ctx s)" using reachable_sys_inv[OF r'] by (simp add: sys_inv_def)
  with e have "listeners (teardown ctx s) = [] \<and> pending (teardown ctx s) = []"
    by (simp add: net_inv_def rule_events_def)
  with e show ?thesis by (simp add: run_pending_idle nursery_wait.simps)
qed

theorem teardown_closes_session_witness:
  "intercepts (teardown ''ctx'' (run_ops ''ctx'' (take 2 (test_ops ''u1'' ''u2'' ''u3'')) (net_init \<lparr>world = 0, sent = []\<rparr>))) = [] \<and>
   listeners (teardown ''ctx'' (run_ops ''ctx'' (take 2 (test_ops ''u1'' ''u2'' ''u3'')) (net_init \<lparr>world = 0, sent = []\<rparr>))) = [] \<and>
   pending (teardown ''ctx'' (run_ops ''ctx'' (take 2 (test_ops ''u1'' ''u2'' ''u3'')) (net_init \<lparr>world = 0, sent = []\<rparr>))) = [] \<and>
   nursery_wait browser [] (run_pending (teardown ''ctx'' (run_ops ''ctx'' (take 2 (test_ops ''u1'' ''u2'' ''u3''))
       (net_init \<lparr>world = 0, sent = []\<rparr>)))) =
     Some (teardown ''ctx'' (run_ops ''ctx'' (take 2 (test_ops ''u1'' ''u2'' ''u3'')) (net_init \<lparr>world = 0, sent = []\<rparr>)), Inr ())"
  using teardown_closes_session[OF reachable_run_ops[OF reachable.init], where ex = browser and evs = "[]"] .

text \<open>
  C9. Leaving set_context hangs when a listener is still open: if the block
  returns and a rule's listener is open (or scheduled), set_context never
  returns normally, and when the browser sends no further event it does not
  return at all. The spec's scope tears down rules and subscriptions on exit
  (section 6); the code does not.
\<close>

theorem set_context_open_listener:
  assumes body: "body (net_init c) = (s, Inr a)" and lopen: "listeners (run_pending s) \<noteq> []"
  shows "set_context ex c body [] = None \<and> (\<forall>evs s' a'. set_context ex c body evs \<noteq> Some (s', Inr a'))"
proof -
  have "nursery_wait ex evs (run_pending s) = Some res \<Longrightarrow> (\<exists>e. snd res = Inl e) \<and> evs \<noteq> []" for evs res
    using nursery_wait_open lopen by blast
  then have "nursery_wait ex [] (run_pending s) = None"
    and "\<And>evs s' r. nursery_wait ex evs (run_pending s) = Some (s', r) \<Longrightarrow> \<exists>e. r = Inl e"
    by (metis not_Some_eq, fastforce)
  then show ?thesis using body by (fastforce simp: set_context_def split: sum.splits)
qed

theorem set_context_open_listener_witness:
  "set_context browser \<lparr>world = 0, sent = []\<rparr>
     (run_body browser ''ctx'' [AddRequestHandler (request_handler ''u3'') (test_pattern ''u1'')]) [] = None"
proof -
  have b0: "snd (run_body browser ''ctx'' [AddRequestHandler (request_handler ''u3'') (test_pattern ''u1'')]
      (net_init \<lparr>world = 0, sent = []\<rparr>)) = Inr ()"
    by code_simp
  have b: "run_body browser ''ctx'' [AddRequestHandler (request_handler ''u3'') (test_pattern ''u1'')] (net_init \<lparr>world = 0, sent = []\<rparr>) =
      (fst (run_body browser ''ctx'' [AddRequestHandler (request_handler ''u3'') (test_pattern ''u1'')] (net_init \<lparr>world = 0, sent = []\<rparr>)), Inr ())"
    using b0 by (metis prod.collapse)
  have l: "listeners (run_pending (fst (run_body browser ''ctx'' [AddRequestHandler (request_handler ''u3'') (test_pattern ''u1'')]
      (net_init \<lparr>world = 0, sent = []\<rparr>)))) \<noteq> []"
    by code_simp
  show ?thesis
    using set_context_open_listener[where body = "run_body browser ''ctx'' [AddRequestHandler (request_handler ''u3'') (test_pattern ''u1'')]"
        and c = "\<lparr>world = 0, sent = []\<rparr>", OF b l] by simp
qed


end
