(* ===== verification/Interleave.thy ===== *)
theory Interleave
  imports Session
begin

text \<open>
  Interleaving inside \<open>add_handler\<close> (\<open>remote/network.py\<close>, lines 73--86).
  While the caller waits at line 80 for the reply to \<open>network.addIntercept\<close>,
  trio runs the other tasks. The browser has already created the rule, so it can
  block a request under the new id and send the event before its reply, and a
  listener task handles that event before line 83 registers the id.
  \<open>add_handler\<close> is split at that \<open>await\<close> into \<open>add_handler_send\<close> (lines
  74--81) and \<open>add_handler_register\<close> (lines 83--86), and their composition is
  shown to be \<open>add_handler\<close>. In the same way \<open>remove_intercept\<close> is split at
  its \<open>removeIntercept\<close> await (line 110) into \<open>remove_intercept_send\<close> and
  \<open>remove_intercept_pop\<close>: there the browser has dropped the rule and the
  client still holds it. \<open>istep\<close> is the system of theory \<open>System\<close> with a
  caller that may stop between the two phases of either operation
  (\<open>Registering\<close>, \<open>Removing\<close>) while listener tasks take events.
\<close>

section \<open>The two phases of add_handler\<close>

definition add_handler_send :: "'w remote \<Rightarrow> string \<Rightarrow> pyval \<Rightarrow> ('w net, pyval) pyst" where
  "add_handler_send ex name urlPatterns =
     (let phase_name = phase_of name in
      sbind (await_conn (conn_execute ex (session_subscribe (PStr name)))) (\<lambda>_.
      sbind (slift (construct AddInterceptParameters []
                      [(''phases'', PList [PStr phase_name]), (''urlPatterns'', urlPatterns)])) (\<lambda>params.
      sbind (await_conn (bidi_add_intercept ex params)) (\<lambda>result.
      slift (subscript result ''intercept'')))))"

definition add_handler_register :: "string \<Rightarrow> handler \<Rightarrow> pyval \<Rightarrow> ('w net, pyval) pyst" where
  "add_handler_register name handler intercept =
     sbind (on_intercepts (register_intercept intercept (PStr name) handler)) (\<lambda>_.
     (\<lambda>s. (s\<lparr>pending := pending s @ [PStr name]\<rparr>, Inr intercept)))"

section \<open>The two phases of remove_intercept\<close>

text \<open>
  \<open>remove_intercept\<close> awaits the \<open>removeIntercept\<close> reply (lines 110--112)
  before it pops the entry and releases its event (lines 113--117).
\<close>

definition remove_intercept_send :: "'w remote \<Rightarrow> pyval \<Rightarrow> ('w net, unit) pyst" where
  "remove_intercept_send ex intercept =
     sbind (slift (construct RemoveInterceptParameters [intercept] [])) (\<lambda>params.
     sbind (await_conn (bidi_remove_intercept ex params)) (\<lambda>_. sreturn ()))"

definition remove_intercept_pop :: "'w remote \<Rightarrow> pyval \<Rightarrow> ('w net, unit) pyst" where
  "remove_intercept_pop ex intercept =
     sbind (on_intercepts (dict_pop_st intercept)) (\<lambda>entry. release_event ex entry)"

section \<open>The interleaved system\<close>

datatype caller = Idle | Registering string handler pyval | Removing pyval

inductive istep :: "string \<Rightarrow> nat net \<times> caller \<Rightarrow> nat net \<times> caller \<Rightarrow> bool" for ctx where
  op: "istep ctx (s, Idle) (fst (exec_op browser ctx op s), Idle)"
| send: "add_handler_send browser BeforeRequestSent_event_class pats s = (s', Inr i) \<Longrightarrow>
         istep ctx (s, Idle) (s', Registering BeforeRequestSent_event_class h i)"
| register: "istep ctx (s, Registering name h i) (fst (add_handler_register name h i s), Idle)"
| event: "istep ctx (s, Registering name h i) (fst (listener_event browser ev s), Registering name h i)"
| remove_send: "snd (remove_intercept_send browser i s) = Inr () \<Longrightarrow>
         istep ctx (s, Idle) (fst (remove_intercept_send browser i s), Removing i)"
| remove_pop: "istep ctx (s, Removing i) (fst (remove_intercept_pop browser i s), Idle)"
| remove_event: "istep ctx (s, Removing i) (fst (listener_event browser ev s), Removing i)"

inductive ireach :: "string \<Rightarrow> nat net \<times> caller \<Rightarrow> bool" for ctx where
  init: "ireach ctx (net_init \<lparr>world = 0, sent = []\<rparr>, Idle)"
| step: "ireach ctx c \<Longrightarrow> istep ctx c c' \<Longrightarrow> ireach ctx c'"

text \<open>
  The invariant of a configuration: the system invariant; for a caller between
  the phases of add_handler, that its id is fresh and was issued by the browser;
  for a caller between the phases of remove_intercept, that no listener task is
  scheduled (the await ran them).
\<close>

fun iinv :: "nat net \<times> caller \<Rightarrow> bool" where
  "iinv (s, Idle) = sys_inv s"
| "iinv (s, Registering name h i) = (sys_inv s \<and> fresh_for (intercepts s) i \<and>
     (case i of PInt m \<Rightarrow> 0 \<le> m \<and> m < int (world (conn s)) | _ \<Rightarrow> False))"
| "iinv (s, Removing i) = (sys_inv s \<and> pending s = [])"

section \<open>Lemmas on the interleaved system\<close>

inductive_cases istepE: "istep ctx c c'"

lemma add_handler_phases:
  "add_handler ex name handler urlPatterns = sbind (add_handler_send ex name urlPatterns) (add_handler_register name handler)"
  by (simp add: add_handler_def add_handler_send_def add_handler_register_def[abs_def] sbind_assoc Let_def)

lemma add_handler_send_browser:
  "json_serializable (add_msg name pats) \<Longrightarrow>
   add_handler_send browser name pats s = (add_browser_state name pats s, Inr (PInt (int (world (conn s)))))"
  by (simp add: add_handler_send_def await_conn_apply browser_subscribe construct_AddInterceptParameters
      bidi_add_intercept_msg browser_add subscript_def add_browser_state_def run_pending_idle del: enc_value.simps)

lemma add_handler_send_unencodable:
  assumes js: "\<not> json_serializable (add_msg name pats)"
  shows "\<exists>x. snd (add_handler_send browser name pats s) = Inl x"
proof -
  have a1: "await_conn (conn_execute browser (session_subscribe (PStr name))) s =
      ((run_pending s)\<lparr>conn := (conn s)\<lparr>sent := sent (conn s) @ [fst (session_subscribe (PStr name))]\<rparr>\<rparr>, Inr PNone)"
    by (simp add: await_conn_apply browser_subscribe)
  have c2: "\<And>cn. conn_execute browser (add_msg name pats, \<lambda>r. r) cn = (cn, Inl (TypeError ''Object is not JSON serializable''))"
    using js by (simp add: conn_execute_def del: enc_value.simps)
  show ?thesis
    using a1 by (simp add: add_handler_send_def construct_AddInterceptParameters await_conn_apply
        bidi_add_intercept_msg c2 del: enc_value.simps)
qed

lemma iinv_send:
  assumes inv: "sys_inv s" and snd: "add_handler_send browser name pats s = (s', Inr i)"
  shows "iinv (s', Registering name h i)"
proof (cases "json_serializable (add_msg name pats)")
  case True
  then have s': "s' = add_browser_state name pats s" and i: "i = PInt (int (world (conn s)))"
    using snd add_handler_send_browser[OF True, of s] by auto
  have n: "net_inv s" and iss: "issued_ok s" using inv by (auto simp: sys_inv_def)
  have "net_inv s'" using net_inv_run_pending[OF n] by (simp add: s' add_browser_state_def net_inv_def)
  moreover have "issued_ok s'"
    using iss by (auto simp: s' add_browser_state_def issued_ok_def intro: ids_issued_mono)
  moreover have "fresh_for (intercepts s') i"
    using iss by (simp add: s' i add_browser_state_def issued_ok_def ids_issued_fresh)
  ultimately show ?thesis by (simp add: sys_inv_def s' i add_browser_state_def)
next
  case False
  then show ?thesis using snd add_handler_send_unencodable[OF False, of s] by simp
qed

lemma listener_event_frame:
  "set (intercepts (fst (listener_event browser ev s))) \<subseteq> set (intercepts s) \<union> range (\<lambda>k. (k, default_entry)) \<and>
   world (conn s) \<le> world (conn (fst (listener_event browser ev s)))"
proof -
  define Q where "Q s' \<longleftrightarrow> set (intercepts s') \<subseteq> set (intercepts s) \<union> range (\<lambda>k. (k, default_entry)) \<and>
      world (conn s) \<le> world (conn s')" for s' :: "nat net"
  have aw: "Q ((run_pending s')\<lparr>conn := c'\<rparr>)" if "Q s'" "world (conn s') \<le> world c'" for s' c'
    using that by (auto simp: Q_def)
  have ic: "Q (s'\<lparr>intercepts := d'\<rparr>)" if "Q s'" "set d' \<subseteq> set (intercepts s') \<union> range (\<lambda>k. (k, default_entry))" for s' d'
    using that by (auto simp: Q_def)
  have rl: "Q (fst (remove_listener e s'))" if "Q s'" for s' e
    using that by (simp add: Q_def remove_listener_def split: sum.splits prod.splits)
  have q: "Q s" by (simp add: Q_def)
  have "Q (fst (listener_event browser ev s))"
    by (rule ops_preserve_listener_event[where P = Q]) (auto intro: aw ic rl q)
  then show ?thesis by (simp add: Q_def)
qed

lemma iinv_event:
  assumes inv: "iinv (s, Registering name h i)"
  shows "iinv (fst (listener_event browser ev s), Registering name h i)"
proof -
  let ?s' = "fst (listener_event browser ev s)"
  have si: "sys_inv s" and fr: "fresh_for (intercepts s) i"
    and b: "case i of PInt m \<Rightarrow> 0 \<le> m \<and> m < int (world (conn s)) | _ \<Rightarrow> False" using inv by auto
  have si': "sys_inv ?s'" using sys_inv_exec[OF si, of ctx "ListenerEvent ev"] by (simp add: exec_op_def)
  have fr': "fresh_for (intercepts ?s') i"
    using fresh_for_subset[OF fr] listener_event_frame[of ev s] si si'
    by (simp add: sys_inv_def net_inv_def regs_ok_def)
  have "case i of PInt m \<Rightarrow> 0 \<le> m \<and> m < int (world (conn ?s')) | _ \<Rightarrow> False"
    using b listener_event_frame[of ev s] by (cases i) auto
  with si' fr' show ?thesis by simp
qed

lemma iinv_register:
  assumes inv: "iinv (s, Registering name h i)"
  shows "iinv (fst (add_handler_register name h i s), Idle)"
proof -
  have si: "sys_inv s" and fr: "fresh_for (intercepts s) i"
    and b: "case i of PInt m \<Rightarrow> 0 \<le> m \<and> m < int (world (conn s)) | _ \<Rightarrow> False" using inv by auto
  obtain m where i: "i = PInt m" and m: "0 \<le> m" "m < int (world (conn s))" using b by (cases i) auto
  have n: "net_inv s" and iss: "issued_ok s" using si by (auto simp: sys_inv_def)
  have ok: "regs_ok (intercepts s)" using n by (simp add: net_inv_def)
  then have dist: "distinct (map fst (intercepts s))" by (simp add: regs_ok_def)
  have hi: "py_hashable i" by (simp add: i)
  obtain d' where reg: "register_intercept i (PStr name) h (intercepts s) = (d', Inr ())"
    using register_fresh[OF ok hi fr, of "PStr name" h] by (cases "register_intercept i (PStr name) h (intercepts s)") auto
  have res: "fst (add_handler_register name h i s) = s\<lparr>intercepts := d', pending := pending s @ [PStr name]\<rparr>"
    using reg by (simp add: add_handler_register_def on_intercepts_apply sbind_def)
  from register_keeps_events[OF ok hi fr, of name h] reg
  have "regs_ok d'" and ev: "rule_events d' = insert (PStr name) (rule_events (intercepts s))" by auto
  then have "net_inv (fst (add_handler_register name h i s))"
    using n res by (auto simp: net_inv_def)
  moreover have "issued_ok (fst (add_handler_register name h i s))"
  proof -
    obtain new where setd: "set d' = insert (i, new) (set (AList.delete i (intercepts s)))"
      using register_intercept_apply[OF hi dist, of "PStr name" h] reg by auto
    have "ids_issued d' (world (conn s))"
      using iss setd i m by (fastforce simp: issued_ok_def ids_issued_def list_all_iff delete_entries)
    then show ?thesis using res by (simp add: issued_ok_def)
  qed
  ultimately show ?thesis by (simp add: sys_inv_def)
qed

lemma remove_intercept_phases:
  "remove_intercept ex i = sbind (remove_intercept_send ex i) (\<lambda>_. remove_intercept_pop ex i)"
  by (simp add: remove_intercept_def remove_intercept_send_def remove_intercept_pop_def sbind_assoc)

lemma sys_inv_remove_send:
  assumes inv: "sys_inv s"
  shows "iinv (fst (remove_intercept_send browser i s), Removing i)"
proof -
  let ?p = "PObj ''RemoveInterceptParameters'' [(''intercept'', i)]"
  have s': "fst (remove_intercept_send browser i s) = fst (await_conn (bidi_remove_intercept browser ?p) s)"
    by (simp add: remove_intercept_send_def construct_RemoveInterceptParameters sbind_def split: prod.splits sum.splits)
  have "net_inv (fst (await_conn (bidi_remove_intercept browser ?p) s))"
    and "pending (fst (await_conn (bidi_remove_intercept browser ?p) s)) = []"
    using net_inv_await[of s "bidi_remove_intercept browser ?p"] inv by (auto simp: sys_inv_def)
  moreover have "issued_ok (fst (await_conn (bidi_remove_intercept browser ?p) s))"
    using issued_ops(5)[of s ?p] inv by (simp add: sys_inv_def)
  ultimately show ?thesis by (simp add: sys_inv_def s')
qed

lemma iinv_remove_event:
  assumes inv: "iinv (s, Removing i)"
  shows "iinv (fst (listener_event browser ev s), Removing i)"
proof -
  have si: "sys_inv s" and p: "pending s = []" using inv by auto
  have "sys_inv (fst (listener_event browser ev s))" using sys_inv_exec[OF si, of ctx "ListenerEvent ev"] by (simp add: exec_op_def)
  moreover have "pending (fst (listener_event browser ev s)) = []"
    by (rule ops_preserve_listener_event[where P = "\<lambda>s. pending s = []"])
       (auto simp: p remove_listener_def split: sum.splits prod.splits)
  ultimately show ?thesis by simp
qed

lemma iinv_remove_pop:
  assumes inv: "iinv (s, Removing i)"
  shows "iinv (fst (remove_intercept_pop browser i s), Idle)"
proof -
  have si: "sys_inv s" and p: "pending s = []" using inv by auto
  have "net_inv (fst (remove_intercept_pop browser i s))"
    using remove_pop_inv[of s i browser] si p by (simp add: sys_inv_def remove_intercept_pop_def)
  moreover have "issued_ok (fst (remove_intercept_pop browser i s))"
    using issued_ops(6)[of s i] si by (simp add: sys_inv_def remove_intercept_pop_def)
  ultimately show ?thesis by (simp add: sys_inv_def)
qed

lemma ireach_iinv: "ireach ctx c \<Longrightarrow> iinv c"
proof (induction rule: ireach.induct)
  case init
  then show ?case by (simp add: sys_inv_init)
next
  case (step c c')
  from step.hyps(2) step.IH show ?case
    by (cases rule: istepE)
       (auto intro: sys_inv_exec iinv_send iinv_register iinv_event sys_inv_remove_send iinv_remove_event iinv_remove_pop)
qed

lemma remove_intercept_pop_live:
  assumes hi: "py_hashable i" and look: "map_of (intercepts s) i = Some e"
  shows "intercepts (fst (remove_intercept_pop ex i s)) = AList.delete i (intercepts s)"
  using hi look by (simp add: remove_intercept_pop_def sbind_def on_intercepts_apply dict_pop_st_def intercepts_release_event)

lemma handle_intercepts_fresh_default:
  assumes ok: "regs_ok d" and hi: "py_hashable i" and fr: "fresh_for d i"
  shows "map_of (fst (handle_intercepts [i] r d)) i = Some default_entry"
proof (cases "map_of d i")
  case None
  then show ?thesis using hi by (simp add: sbind_def map_of_snoc default_entry_def map_add_def split: sum.splits)
next
  case (Some e)
  then have "(i, e) \<in> set d" by (rule map_of_SomeD)
  then have "e = default_entry"
    using ok fr Some by (cases e) (auto simp: regs_ok_def list_all_iff fresh_for_def default_entry_def)
  then show ?thesis using hi Some by (simp add: sbind_def default_entry_def split: sum.splits)
qed

section \<open>Properties under interleaving\<close>

text \<open>
  C13. The manager's invariant survives the interleaving of listener tasks with
  add_handler and remove_intercept: in every configuration reachable when events
  may be handled between the addIntercept reply and the registration of the id,
  or between the removeIntercept reply and the pop of the entry, net_inv holds.
\<close>

theorem ireach_net_inv: "ireach ctx (s, c) \<Longrightarrow> net_inv s"
  using ireach_iinv[of ctx "(s, c)"] by (cases c) (auto simp: sys_inv_def)

theorem ireach_net_inv_witness:
  "net_inv (add_browser_state BeforeRequestSent_event_class (test_pattern ''u1'') (net_init \<lparr>world = 0, sent = []\<rparr>))"
proof -
  have "add_handler_send browser BeforeRequestSent_event_class (test_pattern ''u1'') (net_init \<lparr>world = 0, sent = []\<rparr>) =
      (add_browser_state BeforeRequestSent_event_class (test_pattern ''u1'') (net_init \<lparr>world = 0, sent = []\<rparr>), Inr (PInt 0))"
    using add_handler_send_browser[of BeforeRequestSent_event_class "test_pattern ''u1''" "net_init \<lparr>world = 0, sent = []\<rparr>"]
    by (simp add: test_pattern_def net_init_def BeforeRequestSent_event_class_def phase_of_def dict_of_def json_key_def ends_marker_def)
  then have "ireach ''ctx'' (add_browser_state BeforeRequestSent_event_class (test_pattern ''u1'') (net_init \<lparr>world = 0, sent = []\<rparr>),
      Registering BeforeRequestSent_event_class (request_handler ''u3'') (PInt 0))"
    by (blast intro: ireach.step[OF ireach.init] istep.send)
  then show ?thesis by (rule ireach_net_inv)
qed

text \<open>
  C14. The registration race: a blocked request that names a rule whose
  registration is still pending is handled with no handler, so
  ContinueRequestParameters(**request) raises TypeError and no continuation is
  sent; the request stays blocked, against spec section 4.4. The defaultdict read
  leaves a default entry under the id, and the registration then takes it over,
  so the rule ends with exactly its handler.
\<close>

theorem registration_race:
  assumes r: "ireach ctx (s, Registering name h i)"
    and inst: "is_instance BeforeRequestSentParameters p"
    and req: "getattr p ''request'' = Inr (PDict kvs)" and ids: "getattr p ''intercepts'' = Inr (PList [i])"
    and hs: "''headersSize'' \<in> fst ` set kvs"
  shows "(\<exists>m. snd (handle_events browser p s) = Inl (TypeError m)) \<and>
         sent (conn (fst (handle_events browser p s))) = sent (conn s) \<and>
         map_of (intercepts (fst (handle_events browser p s))) i = Some default_entry \<and>
         map_of (intercepts (fst (add_handler_register name h i (fst (handle_events browser p s))))) i =
           Some \<lparr>event_name = PStr name, handlers = [h]\<rparr>"
proof -
  have inv: "iinv (s, Registering name h i)" using r by (rule ireach_iinv)
  then have si: "sys_inv s" and fr: "fresh_for (intercepts s) i"
    and b: "case i of PInt m \<Rightarrow> 0 \<le> m \<and> m < int (world (conn s)) | _ \<Rightarrow> False" by auto
  have hi: "py_hashable i" using b by (cases i) auto
  have n: "net_inv s" using si by (simp add: sys_inv_def)
  have ok: "regs_ok (intercepts s)" using n by (simp add: net_inv_def)
  have none: "handlers_for (intercepts s) [i] = []"
  proof (cases "map_of (intercepts s) i")
    case (Some e)
    with fr have "event_name e = PNone" by (simp add: fresh_for_def)
    moreover have "(i, e) \<in> set (intercepts s)" using Some by (rule map_of_SomeD)
    ultimately show ?thesis using ok Some by (auto simp: regs_ok_def list_all_iff handlers_for_def)
  qed (simp add: handlers_for_def)
  obtain s1 where hr: "handle_requests p s = (s1, Inr (PDict kvs))" and c1: "conn s1 = conn s"
    using handle_requests_result[OF req ids, of s] hi none by (cases "handle_requests p s") auto
  have he: "(\<exists>m. snd (handle_events browser p s) = Inl (TypeError m)) \<and> fst (handle_events browser p s) = s1"
    by (rule handle_events_undecodable[OF inst hr hs])
  have n1: "net_inv s1" using handle_requests_inv[OF n, of p] hr by simp
  then have ok1: "regs_ok (intercepts s1)" by (simp add: net_inv_def)
  have s1: "s1 = s\<lparr>intercepts := fst (handle_intercepts [i] (PDict kvs) (intercepts s))\<rparr>"
    using hr handle_requests_apply[OF req ids, of s] by (simp del: handle_intercepts.simps)
  have dflt: "map_of (intercepts s1) i = Some default_entry"
    using s1 handle_intercepts_fresh_default[OF ok hi fr, of "PDict kvs"] by (simp del: handle_intercepts.simps)
  from s1 have "set (intercepts s1) \<subseteq> set (intercepts s) \<union> range (\<lambda>k. (k, default_entry))"
    using handle_intercepts_entries[of "[i]" "PDict kvs" "intercepts s"] by (simp del: handle_intercepts.simps)
  then have fr1: "fresh_for (intercepts s1) i"
    using fresh_for_subset[OF fr] ok ok1 by (simp add: regs_ok_def)
  obtain d' where reg: "register_intercept i (PStr name) h (intercepts s1) = (d', Inr ())"
    and look: "map_of d' i = Some \<lparr>event_name = PStr name, handlers = [h]\<rparr>"
    using register_fresh[OF ok1 hi fr1, of "PStr name" h] by (cases "register_intercept i (PStr name) h (intercepts s1)") auto
  have "intercepts (fst (add_handler_register name h i s1)) = d'"
    using reg by (simp add: add_handler_register_def on_intercepts_apply sbind_def)
  with he c1 look dflt show ?thesis by simp
qed

theorem registration_race_witness:
  "(\<exists>m. snd (handle_events browser (ex_params [PInt 0])
      (add_browser_state BeforeRequestSent_event_class (test_pattern ''u1'') (net_init \<lparr>world = 0, sent = []\<rparr>))) = Inl (TypeError m)) \<and>
   sent (conn (fst (handle_events browser (ex_params [PInt 0])
      (add_browser_state BeforeRequestSent_event_class (test_pattern ''u1'') (net_init \<lparr>world = 0, sent = []\<rparr>))))) =
     sent (conn (add_browser_state BeforeRequestSent_event_class (test_pattern ''u1'') (net_init \<lparr>world = 0, sent = []\<rparr>))) \<and>
   map_of (intercepts (fst (handle_events browser (ex_params [PInt 0])
      (add_browser_state BeforeRequestSent_event_class (test_pattern ''u1'') (net_init \<lparr>world = 0, sent = []\<rparr>))))) (PInt 0) =
     Some default_entry \<and>
   map_of (intercepts (fst (add_handler_register BeforeRequestSent_event_class (request_handler ''u3'') (PInt 0)
      (fst (handle_events browser (ex_params [PInt 0])
        (add_browser_state BeforeRequestSent_event_class (test_pattern ''u1'') (net_init \<lparr>world = 0, sent = []\<rparr>))))))) (PInt 0) =
     Some \<lparr>event_name = PStr BeforeRequestSent_event_class, handlers = [request_handler ''u3'']\<rparr>"
proof -
  have "add_handler_send browser BeforeRequestSent_event_class (test_pattern ''u1'') (net_init \<lparr>world = 0, sent = []\<rparr>) =
      (add_browser_state BeforeRequestSent_event_class (test_pattern ''u1'') (net_init \<lparr>world = 0, sent = []\<rparr>), Inr (PInt 0))"
    using add_handler_send_browser[of BeforeRequestSent_event_class "test_pattern ''u1''" "net_init \<lparr>world = 0, sent = []\<rparr>"]
    by (simp add: test_pattern_def net_init_def BeforeRequestSent_event_class_def phase_of_def dict_of_def json_key_def ends_marker_def)
  then have r: "ireach ''ctx'' (add_browser_state BeforeRequestSent_event_class (test_pattern ''u1'') (net_init \<lparr>world = 0, sent = []\<rparr>),
      Registering BeforeRequestSent_event_class (request_handler ''u3'') (PInt 0))"
    by (blast intro: ireach.step[OF ireach.init] istep.send)
  show ?thesis
    using registration_race[OF r, where p = "ex_params [PInt 0]"
        and kvs = "[(''request'', PStr ''r1''), (''url'', PStr ''u1''), (''method'', PStr ''GET''), (''headersSize'', PInt 0)]"]
    by (simp add: ex_params_def ex_request_def BeforeRequestSentParameters_def)
qed


end
