(* ===== verification/Lifecycle.thy ===== *)
theory Lifecycle
  imports Session
begin

text \<open>
  The life of a listener task inside \<open>set_context\<close>
  (\<open>remote/network.py\<close>, lines 46--54 and 60--71). \<open>nursery_wait\<close> is a
  partial function, since the nursery may wait for ever. The lemmas here
  unfold one listener step of it, and the theorem shows what a handler that
  raises on one blocked request does to the whole session: the listener loop
  (lines 66--69) catches only \<open>ClosedResourceError\<close>, so the exception leaves
  the task and ends the nursery.
\<close>

section \<open>Lemmas on the nursery\<close>

lemma nursery_wait_closed: "listeners s = [] \<Longrightarrow> nursery_wait ex evs s = Some (s, Inr ())"
  by (subst nursery_wait.simps) simp

lemma nursery_wait_event:
  "listeners s \<noteq> [] \<Longrightarrow> nursery_wait ex (ev # evs) s =
     (case listener_event ex ev s of (s', Inl e) \<Rightarrow> Some (s', Inl e) | (s', Inr _) \<Rightarrow> nursery_wait ex evs s')"
  by (subst nursery_wait.simps) simp

text \<open>
  One step of a listener task on a blocked request whose handlers raise: the
  exception comes out of \<open>listener_event\<close> and nothing is sent.
\<close>

lemma listener_event_raises:
  assumes ev: "getattr ev ''params'' = Inr p" and bl: "getattr p ''isBlocked'' = Inr b" "truthy b"
    and inst: "is_instance BeforeRequestSentParameters p"
    and req: "getattr p ''request'' = Inr r" and ids: "getattr p ''intercepts'' = Inr (PList ids)"
    and hash: "list_all py_hashable ids"
    and run: "run_handlers (handlers_for (intercepts s) ids) r = Inl x"
  shows "\<exists>s'. listener_event ex ev s = (s', Inl x) \<and> sent (conn s') = sent (conn s)"
proof -
  obtain s1 where hr: "handle_requests p s = (s1, Inl x)" and c1: "conn s1 = conn s"
    using handle_requests_result[OF req ids hash, of s] run by (cases "handle_requests p s") auto
  then show ?thesis using ev bl inst by (simp add: listener_event_def handle_events_apply)
qed

section \<open>Properties of the listener tasks\<close>

text \<open>
  C10. One failing request ends the session: when the caller's block returns
  with a listener open, and the first event the listener takes is a blocked
  request whose applicable handlers (the spec's handlersFor, folded) raise
  x, then set_context returns x whatever events follow. None of the later
  events is handled and no continuation is sent. The spec asks that such a
  failure be reported for that request only and that later requests be
  processed normally (sections 5, 7 and 8). The code catches only
  ClosedResourceError, so the exception leaves the listener task and cancels
  the nursery.
\<close>

theorem listener_error_ends_session:
  assumes body: "body (net_init c) = (s, Inr a)" and lopen: "listeners (run_pending s) \<noteq> []"
    and ev: "getattr ev ''params'' = Inr p" and bl: "getattr p ''isBlocked'' = Inr b" "truthy b"
    and inst: "is_instance BeforeRequestSentParameters p"
    and req: "getattr p ''request'' = Inr r" and ids: "getattr p ''intercepts'' = Inr (PList ids)"
    and hash: "list_all py_hashable ids"
    and run: "run_handlers (handlers_for (intercepts s) ids) r = Inl x"
  shows "\<exists>s'. set_context ex c body (ev # evs) = Some (s', Inl x) \<and> sent (conn s') = sent (conn s)"
proof -
  have "run_handlers (handlers_for (intercepts (run_pending s)) ids) r = Inl x"
    using run by simp
  then obtain s' where le: "listener_event ex ev (run_pending s) = (s', Inl x)"
    and snt: "sent (conn s') = sent (conn (run_pending s))"
    using listener_event_raises[OF ev bl inst req ids hash] by blast
  then show ?thesis
    using body lopen by (simp add: set_context_def nursery_wait_event)
qed

theorem listener_error_ends_session_witness:
  "\<exists>s'. set_context browser \<lparr>world = 0, sent = []\<rparr>
     (run_body browser ''ctx'' [AddRequestHandler (\<lambda>_. Inl (RuntimeError ''handler failed'')) (test_pattern ''u1'')])
     [test_event ''u1'' [PInt 0], test_event ''u1'' [PInt 0]] = Some (s', Inl (RuntimeError ''handler failed'')) \<and>
   sent (conn s') = sent (conn (fst (run_body browser ''ctx''
     [AddRequestHandler (\<lambda>_. Inl (RuntimeError ''handler failed'')) (test_pattern ''u1'')] (net_init \<lparr>world = 0, sent = []\<rparr>))))"
proof -
  let ?body = "run_body browser ''ctx'' [AddRequestHandler (\<lambda>_. Inl (RuntimeError ''handler failed'')) (test_pattern ''u1'')]"
  let ?c = "\<lparr>world = 0::nat, sent = []\<rparr>"
  let ?p = "PObj ''BeforeRequestSentParameters''
        [(''isBlocked'', PBool True), (''redirectCount'', PInt 0),
         (''request'', PDict [(''request'', PStr ''req''), (''url'', PStr ''u1''), (''method'', PStr ''GET''),
                             (''headersSize'', PInt 0)]),
         (''timestamp'', PInt 0), (''initiator'', PDict [(''type'', PStr ''parser'')]),
         (''context'', PNone), (''navigation'', PNone), (''intercepts'', PList [PInt 0])]"
  have b0: "snd (?body (net_init ?c)) = Inr ()"
    by code_simp
  have b: "?body (net_init ?c) = (fst (?body (net_init ?c)), Inr ())"
    using b0 by (metis prod.collapse)
  have l: "listeners (run_pending (fst (?body (net_init ?c)))) \<noteq> []"
    by code_simp
  have run: "run_handlers (handlers_for (intercepts (fst (?body (net_init ?c)))) [PInt 0])
      (PDict [(''request'', PStr ''req''), (''url'', PStr ''u1''), (''method'', PStr ''GET''), (''headersSize'', PInt 0)]) =
      Inl (RuntimeError ''handler failed'')"
    by code_simp
  have inst: "is_instance BeforeRequestSentParameters ?p"
    by (simp add: BeforeRequestSentParameters_def)
  show ?thesis
    using listener_error_ends_session[where body = ?body and c = ?c and ex = browser and p = ?p and b = "PBool True"
        and ev = "test_event ''u1'' [PInt 0]" and evs = "[test_event ''u1'' [PInt 0]]", OF b l _ _ _ inst _ _ _ run]
    by (simp add: test_event_def)
qed

end
