(* ===== verification/Scenario.thy ===== *)
theory Scenario
  imports Lifecycle
begin

text \<open>
  The repository's test \<open>test_request_handler\<close>
  (\<open>test/selenium/webdriver/common/bidi_network_tests.py\<close>, lines 25--57) run
  as written, with its assertions on the page title, against a browser that
  loads pages. The browser (modelled from the spec, sections 2 and 4.2, and the
  BiDi rules for string URL patterns) keeps the interception rules it issued
  with their URL patterns. A navigation whose URL a rule of the request phase
  matches is blocked and announced by a \<open>beforeRequestSent\<close> event naming the
  matching rules; \<open>network.continueRequest\<close> then loads the URL the
  continuation carries. A rule without URL patterns matches every URL; a string
  pattern matches its own URL; patterns of type \<open>pattern\<close> are not modelled
  and match nothing.

  \<open>get_complete\<close> is \<open>Network.get\<close> with \<open>wait="complete"\<close> (lines 56--58 of
  \<open>remote/network.py\<close>): while the caller awaits the navigation, the listener
  task takes the browser's event for the blocked request, and the page loads
  once the continuation arrives. The test pages are named by their file names,
  and their titles are those the test asserts. The browser and
  \<open>get_complete\<close> carry the general theorems of \<open>Sync\<close> and \<open>RuleSpec\<close>; the
  test body itself is kept as the translation of the test.
\<close>

section \<open>A browser that loads pages\<close>

record pworld =
  issued :: nat
  rules :: "(int \<times> string list option) list"
  blocked :: "(string \<times> int list) option"
  page :: string

definition pworld_init :: pworld where
  "pworld_init = \<lparr>issued = 0, rules = [], blocked = None, page = ''''\<rparr>"

definition msg_params :: "pyval \<Rightarrow> pydict" where
  "msg_params m = (case m of
      PDict kvs \<Rightarrow> (case map_of kvs ''params'' of Some (PDict ps) \<Rightarrow> ps | _ \<Rightarrow> [])
    | _ \<Rightarrow> [])"

fun pattern_string :: "pyval \<Rightarrow> string option" where
  "pattern_string (PDict kvs) =
     (if map_of kvs ''type'' = Some (PStr ''string'') then
        (case map_of kvs ''pattern'' of Some (PStr u) \<Rightarrow> Some u | _ \<Rightarrow> None)
      else None)"
| "pattern_string v = None"

definition rule_patterns :: "pydict \<Rightarrow> string list option" where
  "rule_patterns ps = (case map_of ps ''urlPatterns'' of
      Some (PList pats) \<Rightarrow> Some (List.map_filter pattern_string pats)
    | _ \<Rightarrow> None)"

definition rule_matches :: "string list option \<Rightarrow> string \<Rightarrow> bool" where
  "rule_matches pats url = (case pats of None \<Rightarrow> True | Some us \<Rightarrow> url \<in> set us)"

definition request_phase :: "pydict \<Rightarrow> bool" where
  "request_phase ps = (case map_of ps ''phases'' of
      Some (PList phs) \<Rightarrow> PStr ''beforeRequestSent'' \<in> set phs
    | _ \<Rightarrow> False)"

definition page_browser :: "pworld remote" where
  "page_browser w m = (let ps = msg_params m in
     if msg_method m = Some (PStr ''network.addIntercept'') then
       (w\<lparr>issued := Suc (issued w),
          rules := rules w @ (if request_phase ps then [(int (issued w), rule_patterns ps)] else [])\<rparr>,
        Inr (PDict [(''intercept'', PInt (int (issued w)))]))
     else if msg_method m = Some (PStr ''network.removeIntercept'') then
       (w\<lparr>rules := filter (\<lambda>(i, _). map_of ps ''intercept'' \<noteq> Some (PInt i)) (rules w)\<rparr>, Inr PNone)
     else if msg_method m = Some (PStr ''browsingContext.navigate'') then
       (case map_of ps ''url'' of
          Some (PStr url) \<Rightarrow>
            (let ids = [i. (i, pats) \<leftarrow> rules w, rule_matches pats url] in
             if ids = [] then (w\<lparr>page := url\<rparr>, Inr PNone)
             else (w\<lparr>blocked := Some (url, ids)\<rparr>, Inr PNone))
        | _ \<Rightarrow> (w, Inl (BrowserError ''invalid argument'')))
     else if msg_method m = Some (PStr ''network.continueRequest'') then
       (case blocked w of
          Some (url, ids) \<Rightarrow>
            (w\<lparr>blocked := None, page := (case map_of ps ''url'' of Some (PStr u) \<Rightarrow> u | _ \<Rightarrow> url)\<rparr>, Inr PNone)
        | None \<Rightarrow> (w, Inl (BrowserError ''no such request'')))
     else (w, Inr PNone))"

text \<open>The event the browser sends for its blocked request.\<close>

definition blocked_event :: "pworld \<Rightarrow> pyval option" where
  "blocked_event w = map_option (\<lambda>(url, ids). test_event url (map PInt ids)) (blocked w)"

section \<open>The test\<close>

text \<open>
  \<open>await driver.network.get(url)\<close>: the navigation, and the listener step the
  blocked request causes while the caller awaits it. With no listener open the
  request stays blocked.
\<close>

definition get_complete :: "string \<Rightarrow> string \<Rightarrow> (pworld net, unit) pyst" where
  "get_complete ctx url = sbind (get page_browser ctx url ''complete'') (\<lambda>_ s.
     case blocked_event (world (conn s)) of
       Some ev \<Rightarrow> if PStr BeforeRequestSent_event_class \<in> fst ` set (listeners s)
                 then listener_event page_browser ev s else (s, Inr ())
     | None \<Rightarrow> (s, Inr ()))"

definition test_pages :: "(string \<times> string) list" where
  "test_pages = [(''simpleTest.html'', ''Hello WebDriver''), (''clicks.html'', ''clicks''),
                 (''formPage.html'', ''We Leave From Here'')]"

definition driver_title :: "(pworld net, string) pyst" where
  "driver_title = (\<lambda>s. (s, Inr (case map_of test_pages (page (world (conn s))) of Some t \<Rightarrow> t | None \<Rightarrow> '''')))"

definition sassert :: "bool \<Rightarrow> ('s, unit) pyst" where
  "sassert b = (if b then sreturn () else sraise AssertionError)"

definition assert_title :: "string \<Rightarrow> (pworld net, unit) pyst" where
  "assert_title t = sbind driver_title (\<lambda>title. sassert (title = t))"

definition test_request_handler :: "string \<Rightarrow> (pworld net, unit) pyst" where
  "test_request_handler ctx =
     (let url1 = ''simpleTest.html''; url2 = ''clicks.html''; url3 = ''formPage.html'';
          pattern1 = test_pattern url1; pattern2 = test_pattern url2 in
      sbind (add_request_handler page_browser (request_handler url3) pattern1) (\<lambda>intercept1.
      sbind (add_request_handler page_browser (request_handler url3) pattern2) (\<lambda>intercept2.
      sbind (get_complete ctx url1) (\<lambda>_. sbind (assert_title ''We Leave From Here'') (\<lambda>_.
      sbind (get_complete ctx url2) (\<lambda>_. sbind (assert_title ''We Leave From Here'') (\<lambda>_.
      sbind (remove_intercept page_browser intercept2) (\<lambda>_.
      sbind (get_complete ctx url2) (\<lambda>_. sbind (assert_title ''clicks'') (\<lambda>_.
      sbind (get_complete ctx url1) (\<lambda>_. sbind (assert_title ''We Leave From Here'') (\<lambda>_.
      sbind (remove_intercept page_browser intercept1) (\<lambda>_.
      sbind (get_complete ctx url1) (\<lambda>_. assert_title ''Hello WebDriver''))))))))))))))"


end
