(* ===== verification/Sync.thy ===== *)
theory Sync
  imports Scenario
begin

text \<open>
  The interception manager of \<open>remote/network.py\<close> against the page-loading
  browser of theory \<open>Scenario\<close>, for callers that register redirect handlers
  of the test's form (\<open>request_handler url\<close>), remove rules, clear them and
  navigate (\<open>page_exec\<close>; \<open>preach\<close> are the reachable states). The
  internal invariant \<open>psync\<close> says that the manager and the browser hold the
  same rule ids in the same order, that the browser has issued every id, that
  no request is blocked, and that every rule is a redirect rule of the request
  event. Each operation preserves it. From it, every navigation completes and
  loads the page the spec's pipeline computes (\<open>nav_page\<close>, built on
  \<open>handlers_for\<close> and the fold of the handlers).
\<close>

section \<open>The system against the page-loading browser\<close>

datatype page_op = PAdd string pyval | PRemove pyval | PClear | PGet string

definition page_exec :: "string \<Rightarrow> page_op \<Rightarrow> (pworld net, unit) pyst" where
  "page_exec ctx op = (case op of
      PAdd url3 pats \<Rightarrow> sbind (add_request_handler page_browser (request_handler url3) pats) (\<lambda>_. sreturn ())
    | PRemove i \<Rightarrow> remove_request_handler page_browser i
    | PClear \<Rightarrow> clear_request_handlers page_browser
    | PGet url \<Rightarrow> get_complete ctx url)"

inductive preach :: "string \<Rightarrow> pworld net \<Rightarrow> bool" for ctx where
  init: "preach ctx (net_init \<lparr>world = pworld_init, sent = []\<rparr>)"
| step: "preach ctx s \<Longrightarrow> preach ctx (fst (page_exec ctx op s))"

definition matching_rules :: "pworld \<Rightarrow> string \<Rightarrow> int list" where
  "matching_rules w url = [i. (i, pats) \<leftarrow> rules w, rule_matches pats url]"

definition nav_request :: "string \<Rightarrow> pyval" where
  "nav_request url = PDict [(''request'', PStr ''req''), (''url'', PStr url), (''method'', PStr ''GET''),
                            (''headersSize'', PInt 0)]"

definition nav_page :: "pworld net \<Rightarrow> string \<Rightarrow> string" where
  "nav_page s url = (let ids = matching_rules (world (conn s)) url in
     if ids = [] then url
     else case run_handlers (handlers_for (intercepts s) (map PInt ids)) (nav_request url) of
            Inr (PDict kvs) \<Rightarrow> (case map_of kvs ''url'' of Some (PStr u) \<Rightarrow> u | _ \<Rightarrow> url)
          | _ \<Rightarrow> url)"

definition redirects :: "(pyval \<times> entry) list \<Rightarrow> bool" where
  "redirects d \<longleftrightarrow> list_all (\<lambda>e. event_name e = PStr BeforeRequestSent_event_class \<and>
     (\<exists>u. handlers e = [request_handler u])) (map snd d)"

definition psync :: "pworld net \<Rightarrow> bool" where
  "psync s \<longleftrightarrow> net_inv s \<and> map fst (intercepts s) = map (\<lambda>(i, _). PInt i) (rules (world (conn s))) \<and>
     list_all (\<lambda>(i, _). 0 \<le> i \<and> i < int (issued (world (conn s)))) (rules (world (conn s))) \<and>
     blocked (world (conn s)) = None \<and> redirects (intercepts s)"

section \<open>The browser's answers\<close>

lemma page_browser_session:
  "page_browser w (fst (session_subscribe ev)) = (w, Inr PNone)"
  "page_browser w (fst (session_unsubscribe ev)) = (w, Inr PNone)"
  by (simp_all add: page_browser_def msg_method_def session_subscribe_def session_unsubscribe_def)

lemma request_phase_add: "request_phase (msg_params (add_msg BeforeRequestSent_event_class pats))"
  by (simp add: request_phase_def msg_params_def BeforeRequestSent_event_class_def phase_of_def
      dict_of_def json_key_def ends_marker_def)

lemma page_browser_add:
  "page_browser w (add_msg BeforeRequestSent_event_class pats) =
     (w\<lparr>issued := Suc (issued w),
        rules := rules w @ [(int (issued w), rule_patterns (msg_params (add_msg BeforeRequestSent_event_class pats)))]\<rparr>,
      Inr (PDict [(''intercept'', PInt (int (issued w)))]))"
  using request_phase_add[of pats] by (simp add: page_browser_def msg_method_def Let_def del: enc_value.simps)

lemma remove_msg_intercept: "map_of (msg_params (remove_msg i)) ''intercept'' = Some (PInt j) \<longleftrightarrow> i = PInt j"
  by (cases i) (auto simp: msg_params_def dict_of_def json_key_def ends_marker_def)

lemma page_browser_remove:
  "page_browser w (remove_msg i) = (w\<lparr>rules := filter (\<lambda>(j, _). i \<noteq> PInt j) (rules w)\<rparr>, Inr PNone)"
  by (simp add: page_browser_def msg_method_def Let_def remove_msg_intercept del: enc_value.simps)

lemma page_browser_navigate:
  "page_browser w (fst (navigate ctx url wait)) =
     (if matching_rules w url = [] then (w\<lparr>page := url\<rparr>, Inr PNone)
      else (w\<lparr>blocked := Some (url, matching_rules w url)\<rparr>, Inr PNone))"
  by (simp add: page_browser_def msg_method_def navigate_def msg_params_def matching_rules_def Let_def)

lemma page_browser_continue:
  "blocked w = Some b \<Longrightarrow>
   page_browser w (continue_msg (PObj ''ContinueRequestParameters'' [(''request'', r), (''body'', PNone), (''cookies'', PNone),
      (''headers'', PNone), (''method'', PNone), (''url'', PStr u)])) =
     (w\<lparr>blocked := None, page := u\<rparr>, Inr PNone)"
  by (cases b) (simp add: page_browser_def msg_method_def msg_params_def dict_of_def json_key_def ends_marker_def)

lemma register_absent:
  assumes hi: "py_hashable i" and none: "map_of d i = None"
  shows "register_intercept i ev h d = (d @ [(i, \<lparr>event_name = ev, handlers = [h]\<rparr>)], Inr ())"
proof -
  let ?e1 = "default_entry\<lparr>event_name := ev\<rparr>"
  have ni: "i \<notin> fst ` set d" using none by (simp add: map_of_eq_None_iff)
  have d1: "dd_modify i (\<lambda>e. e\<lparr>event_name := ev\<rparr>) d = (d @ [(i, ?e1)], Inr ())"
    using hi none ni by (simp add: dd_modify_def sbind_def update_snoc)
  have "dd_get default_entry i (d @ [(i, ?e1)]) = (d @ [(i, ?e1)], Inr ?e1)"
    using hi map_of_snoc[OF none] by (rule dd_get_Some)
  then have "dd_modify i (\<lambda>e. e\<lparr>handlers := handlers e @ [h]\<rparr>) (d @ [(i, ?e1)]) =
      (d @ [(i, \<lparr>event_name = ev, handlers = [h]\<rparr>)], Inr ())"
    using ni by (simp add: dd_modify_def sbind_def update_snoc default_entry_def)
  with d1 show ?thesis by (simp add: register_intercept_def sbind_def)
qed

lemma page_execute_session:
  "py_hashable ev \<Longrightarrow> conn_execute page_browser (session_subscribe ev) cn = (cn\<lparr>sent := sent cn @ [fst (session_subscribe ev)]\<rparr>, Inr PNone)"
  "py_hashable ev \<Longrightarrow> conn_execute page_browser (session_unsubscribe ev) cn = (cn\<lparr>sent := sent cn @ [fst (session_unsubscribe ev)]\<rparr>, Inr PNone)"
  by (simp_all add: conn_execute_def page_browser_def msg_method_def session_subscribe_def session_unsubscribe_def)

lemma psync_keys:
  assumes ps: "psync s"
  shows "map_of (intercepts s) (PInt n) \<noteq> None \<longleftrightarrow> n \<in> fst ` set (rules (world (conn s)))"
proof -
  have "PInt n \<in> fst ` set (intercepts s) \<longleftrightarrow> PInt n \<in> set (map (\<lambda>(i, _). PInt i) (rules (world (conn s))))"
    using ps by (simp add: psync_def flip: set_map)
  then show ?thesis by (force simp: map_of_eq_None_iff)
qed

lemma add_request_handler_page:
  assumes ps: "psync s" and js: "json_serializable (add_msg BeforeRequestSent_event_class pats)"
  defines "n \<equiv> issued (world (conn s))"
  shows "add_request_handler page_browser h pats s =
     ((run_pending s)\<lparr>conn := (conn s)\<lparr>world := (world (conn s))\<lparr>issued := Suc n,
          rules := rules (world (conn s)) @ [(int n, rule_patterns (msg_params (add_msg BeforeRequestSent_event_class pats)))]\<rparr>,
        sent := sent (conn s) @ [fst (session_subscribe (PStr BeforeRequestSent_event_class)), add_msg BeforeRequestSent_event_class pats]\<rparr>,
        intercepts := intercepts s @ [(PInt (int n), \<lparr>event_name = PStr BeforeRequestSent_event_class, handlers = [h]\<rparr>)],
        pending := [PStr BeforeRequestSent_event_class]\<rparr>, Inr (PInt (int n)))"
proof -
  have "int n \<notin> fst ` set (rules (world (conn s)))"
    using ps by (fastforce simp: psync_def n_def list_all_iff)
  then have fresh: "map_of (intercepts s) (PInt (int n)) = None" using psync_keys[OF ps] by blast
  have a1: "await_conn (conn_execute page_browser (session_subscribe (PStr BeforeRequestSent_event_class))) s =
      ((run_pending s)\<lparr>conn := (conn s)\<lparr>sent := sent (conn s) @ [fst (session_subscribe (PStr BeforeRequestSent_event_class))]\<rparr>\<rparr>, Inr PNone)"
    by (simp add: await_conn_apply page_execute_session)
  show ?thesis
    using a1 js fresh
    by (simp add: add_request_handler_def add_handler_apply await_conn_apply bidi_add_intercept_msg conn_execute_ok
        page_browser_add subscript_def register_absent run_pending_idle n_def del: enc_value.simps)
qed

lemma add_request_handler_page_unencodable:
  assumes js: "\<not> json_serializable (add_msg BeforeRequestSent_event_class pats)"
  shows "add_request_handler page_browser h pats s =
     ((run_pending s)\<lparr>conn := (conn s)\<lparr>sent := sent (conn s) @ [fst (session_subscribe (PStr BeforeRequestSent_event_class))]\<rparr>\<rparr>,
      Inl (TypeError ''Object is not JSON serializable''))"
proof -
  have c2: "\<And>cn. conn_execute page_browser (add_msg BeforeRequestSent_event_class pats, \<lambda>r. r) cn =
      (cn, Inl (TypeError ''Object is not JSON serializable''))"
    using js by (simp add: conn_execute_def del: enc_value.simps)
  show ?thesis
    by (simp add: add_request_handler_def add_handler_apply await_conn_apply page_execute_session bidi_add_intercept_msg c2
        run_pending_idle del: enc_value.simps)
qed

lemma net_inv_conn [simp]: "net_inv (s\<lparr>conn := c\<rparr>) = net_inv s"
  by (simp add: net_inv_def)

lemma psync_add:
  assumes ps: "psync s"
  shows "psync (fst (add_request_handler page_browser (request_handler u) pats s))"
proof (cases "json_serializable (add_msg BeforeRequestSent_event_class pats)")
  case False
  have "net_inv (run_pending s)" using ps by (simp add: psync_def net_inv_run_pending)
  then show ?thesis
    using ps by (simp add: add_request_handler_page_unencodable[OF False] psync_def)
next
  case True
  let ?n = "issued (world (conn s))"
  have res: "snd (add_handler page_browser BeforeRequestSent_event_class (request_handler u) pats s) = Inr (PInt (int ?n))"
    using add_request_handler_page[OF ps True] by (simp add: add_request_handler_def)
  have "int ?n \<notin> fst ` set (rules (world (conn s)))"
    using ps by (fastforce simp: psync_def list_all_iff)
  then have "map_of (intercepts s) (PInt (int ?n)) = None" using psync_keys[OF ps] by blast
  then have "net_inv (fst (add_handler page_browser BeforeRequestSent_event_class (request_handler u) pats s))"
    using ps res by (intro add_handler_inv) (auto simp: psync_def fresh_for_def)
  then show ?thesis
    using ps add_request_handler_page[OF ps True, of "request_handler u"]
    by (auto simp: psync_def add_request_handler_def redirects_def list_all_iff)
qed

lemma world_release_event_page:
  "world (conn (fst (release_event page_browser e s))) = world (conn s) \<and>
   intercepts (fst (release_event page_browser e s)) = intercepts s"
  by (simp add: release_event_def sbind_def remove_listener_def await_conn_apply conn_execute_def page_browser_def
      msg_method_def session_unsubscribe_def split: sum.splits prod.splits)

lemma rules_filter_sync:
  "map fst d = map (\<lambda>(j, _). PInt j) rs \<Longrightarrow>
   map fst (AList.delete i d) = map (\<lambda>(j, _). PInt j) (filter (\<lambda>(j, _). i \<noteq> PInt j) rs)"
  by (induction rs arbitrary: d) (auto simp: AList.delete_eq)

lemma psync_key_hashable: "psync s \<Longrightarrow> map_of (intercepts s) i \<noteq> None \<Longrightarrow> py_hashable i"
  by (force simp: psync_def net_inv_def regs_ok_def list_all_iff dest: map_of_SomeD)

lemma remove_intercept_page:
  assumes ps: "psync s"
  shows "intercepts (fst (remove_intercept page_browser i s)) = AList.delete i (intercepts s) \<and>
         world (conn (fst (remove_intercept page_browser i s))) =
           (world (conn s))\<lparr>rules := filter (\<lambda>(j, _). i \<noteq> PInt j) (rules (world (conn s)))\<rparr>"
proof -
  let ?w = "world (conn s)"
  let ?w' = "?w\<lparr>rules := filter (\<lambda>(j, _). i \<noteq> PInt j) (rules ?w)\<rparr>"
  have keep: "filter (\<lambda>(j, _). i \<noteq> PInt j) (rules ?w) = rules ?w \<and> AList.delete i (intercepts s) = intercepts s"
    if nk: "map_of (intercepts s) i = None"
  proof
    show "filter (\<lambda>(j, _). i \<noteq> PInt j) (rules ?w) = rules ?w"
    proof (rule filter_True, clarify)
      fix j b assume jb: "(j, b) \<in> set (rules ?w)" and ij: "i = PInt j"
      have "map_of (intercepts s) (PInt j) \<noteq> None" using psync_keys[OF ps, of j] jb by force
      with nk ij show False by simp
    qed
    show "AList.delete i (intercepts s) = intercepts s"
      using nk by (force simp: AList.delete_eq map_of_eq_None_iff filter_id_conv)
  qed
  show ?thesis
  proof (cases "json_serializable (remove_msg i)")
    case False
    then have "map_of (intercepts s) i = None"
      using psync_key_hashable[OF ps, of i] remove_msg_serializable[of i] by blast
    moreover have "remove_intercept page_browser i s = ((run_pending s)\<lparr>conn := conn s\<rparr>, Inl (TypeError ''Object is not JSON serializable''))"
      using False by (simp add: remove_intercept_apply bidi_remove_intercept_msg await_conn_apply conn_execute_def del: enc_value.simps)
    ultimately show ?thesis using keep by simp
  next
    case True
    let ?s1 = "(run_pending s)\<lparr>conn := (conn s)\<lparr>world := ?w', sent := sent (conn s) @ [remove_msg i]\<rparr>\<rparr>"
    have a: "await_conn (bidi_remove_intercept page_browser (PObj ''RemoveInterceptParameters'' [(''intercept'', i)])) s = (?s1, Inr PNone)"
      using True by (simp add: bidi_remove_intercept_msg await_conn_apply conn_execute_ok page_browser_remove del: enc_value.simps)
    show ?thesis
    proof (cases "py_hashable i \<and> map_of (intercepts s) i \<noteq> None")
      case False
      have nk: "map_of (intercepts s) i = None"
        using False psync_key_hashable[OF ps, of i] by blast
      have "fst (remove_intercept page_browser i s) = ?s1"
        using a False by (cases "py_hashable i") (auto simp: remove_intercept_apply)
      with keep[OF nk] show ?thesis by simp
    next
      case True
      then obtain e where hi: "py_hashable i" and e: "map_of (intercepts s) i = Some e" by auto
      have r: "remove_intercept page_browser i s = release_event page_browser e (?s1\<lparr>intercepts := AList.delete i (intercepts s)\<rparr>)"
        using a hi e by (simp add: remove_intercept_apply)
      show ?thesis
        using r world_release_event_page[of e "?s1\<lparr>intercepts := AList.delete i (intercepts s)\<rparr>"] by simp
    qed
  qed
qed

lemma psync_remove:
  assumes ps: "psync s"
  shows "psync (fst (remove_intercept page_browser i s))"
proof -
  have inv': "net_inv (fst (remove_intercept page_browser i s))" using ps remove_intercept_inv by (auto simp: psync_def)
  have sync: "map fst (intercepts s) = map (\<lambda>(j, _). PInt j) (rules (world (conn s)))" using ps by (simp add: psync_def)
  have "redirects (AList.delete i (intercepts s))"
    using ps by (auto simp: psync_def redirects_def list_all_iff AList.delete_eq)
  then show ?thesis
    using ps inv' remove_intercept_page[OF ps, of i] rules_filter_sync[OF sync, of i]
    by (auto simp: psync_def list_all_iff)
qed

lemma psync_clear: "psync s \<Longrightarrow> psync (fst (clear_intercepts page_browser s))"
  unfolding clear_intercepts_def by (rule clear_loop_preserves[where P = psync, OF psync_remove])

lemma get_page:
  "get page_browser ctx url wait s =
     ((run_pending s)\<lparr>conn := (conn s)\<lparr>world := fst (page_browser (world (conn s)) (fst (navigate ctx url wait))),
        sent := sent (conn s) @ [fst (navigate ctx url wait)]\<rparr>\<rparr>, Inr ())"
proof -
  have nv: "snd (page_browser (world (conn s)) (fst (navigate ctx url wait))) = Inr PNone"
    by (simp add: page_browser_navigate)
  have js: "json_serializable (fst (navigate ctx url wait))" by (simp add: navigate_def)
  show ?thesis
    using conn_execute_ok[OF js, of page_browser "conn s"] nv by (simp add: get_def await_conn_apply)
qed

lemma run_request_handlers:
  "us \<noteq> [] \<Longrightarrow> map_of kvs ''request'' = Some r \<Longrightarrow>
   run_handlers (map request_handler us) (PDict kvs) = Inr (PDict [(''request'', r), (''url'', PStr (last us))])"
proof (induction us arbitrary: kvs)
  case Nil
  then show ?case by simp
next
  case (Cons u us)
  then show ?case by (cases us) (simp_all add: request_handler_def)
qed

lemma redirect_chain:
  "redirects d \<Longrightarrow> set ids \<subseteq> fst ` set d \<Longrightarrow>
   \<exists>us. handlers_for d ids = map request_handler us \<and> length us = length ids"
proof (induction ids)
  case Nil
  then show ?case by (simp add: handlers_for_def)
next
  case (Cons i ids)
  then obtain us where us: "handlers_for d ids = map request_handler us" "length us = length ids" by auto
  obtain e where e: "map_of d i = Some e" using Cons.prems(2) weak_map_of_SomeI by force
  then have "(i, e) \<in> set d" by (rule map_of_SomeD)
  then obtain u where "handlers e = [request_handler u]" using Cons.prems(1) by (auto simp: redirects_def list_all_iff)
  then show ?case using us e by (intro exI[of _ "u # us"]) (simp add: handlers_for_def)
qed

lemma listener_redirect:
  assumes hs: "handlers_for (intercepts s) (map PInt ids) = map request_handler us" and us: "us \<noteq> []"
    and known: "list_all (\<lambda>i. py_hashable i \<and> map_of (intercepts s) i \<noteq> None) (map PInt ids)"
    and pend: "pending s = []" and bl: "blocked (world (conn s)) = Some b"
  shows "listener_event page_browser (test_event url (map PInt ids)) s =
     (s\<lparr>conn := (conn s)\<lparr>world := (world (conn s))\<lparr>blocked := None, page := last us\<rparr>,
        sent := sent (conn s) @ [continue_url_msg ''req'' (last us)]\<rparr>\<rparr>, Inr ())"
proof -
  let ?P = "PObj ''BeforeRequestSentParameters''
        [(''isBlocked'', PBool True), (''redirectCount'', PInt 0), (''request'', nav_request url),
         (''timestamp'', PInt 0), (''initiator'', PDict [(''type'', PStr ''parser'')]),
         (''context'', PNone), (''navigation'', PNone), (''intercepts'', PList (map PInt ids))]"
  have req: "getattr ?P ''request'' = Inr (nav_request url)" and ids: "getattr ?P ''intercepts'' = Inr (PList (map PInt ids))"
    by simp_all
  have run: "run_handlers (handlers_for (intercepts s) (map PInt ids)) (nav_request url) =
      Inr (PDict [(''request'', PStr ''req''), (''url'', PStr (last us))])"
    using hs run_request_handlers[OF us, of _ "PStr ''req''"] by (simp add: nav_request_def)
  have hr: "handle_requests ?P s = (s, Inr (PDict [(''request'', PStr ''req''), (''url'', PStr (last us))]))"
    using handle_requests_apply[OF req ids, of s] handle_intercepts_known[OF known, of "nav_request url"]
      handle_intercepts_refines[of "map PInt ids" "nav_request url" "intercepts s"] run
    by (simp add: list_all_iff del: handle_intercepts.simps)
  have dec: "from_json ContinueRequestParameters (PDict [(''request'', PStr ''req''), (''url'', PStr (last us))]) =
      Inr (PObj ''ContinueRequestParameters'' [(''request'', PStr ''req''), (''body'', PNone), (''cookies'', PNone),
         (''headers'', PNone), (''method'', PNone), (''url'', PStr (last us))])"
    by (simp add: from_json_def construct_def ContinueRequestParameters_def)
  have ce: "conn_execute page_browser (continue_msg (PObj ''ContinueRequestParameters'' [(''request'', PStr ''req''),
        (''body'', PNone), (''cookies'', PNone), (''headers'', PNone), (''method'', PNone), (''url'', PStr (last us))]), \<lambda>r. r)
        (conn s) =
      ((conn s)\<lparr>world := (world (conn s))\<lparr>blocked := None, page := last us\<rparr>,
        sent := sent (conn s) @ [continue_url_msg ''req'' (last us)]\<rparr>, Inr PNone)"
    using bl by (cases b) (simp add: conn_execute_def page_browser_def msg_method_def msg_params_def dict_of_def
        json_key_def ends_marker_def)
  show ?thesis
    using hr dec pend ce
    by (simp add: listener_event_def test_event_def nav_request_def[symmetric] handle_events_apply
        BeforeRequestSentParameters_def await_conn_apply run_pending_idle bidi_continue_request_msg del: enc_value.simps)
qed

lemma get_complete_page:
  assumes ps: "psync s"
  shows "snd (get_complete ctx url s) = Inr () \<and> blocked (world (conn (fst (get_complete ctx url s)))) = None \<and>
         page (world (conn (fst (get_complete ctx url s)))) = nav_page s url \<and> psync (fst (get_complete ctx url s)) \<and>
         intercepts (fst (get_complete ctx url s)) = intercepts s \<and>
         rules (world (conn (fst (get_complete ctx url s)))) = rules (world (conn s)) \<and>
         issued (world (conn (fst (get_complete ctx url s)))) = issued (world (conn s))"
proof -
  let ?w = "world (conn s)"
  let ?ids = "matching_rules ?w url"
  have bl0: "blocked ?w = None" and inv: "net_inv s"
    and sync: "map fst (intercepts s) = map (\<lambda>(i, _). PInt i) (rules ?w)" using ps by (simp_all add: psync_def)
  have inv1: "net_inv (run_pending s)" using inv by (rule net_inv_run_pending)
  show ?thesis
  proof (cases "?ids = []")
    case True
    have "get_complete ctx url s = ((run_pending s)\<lparr>conn := (conn s)\<lparr>world := ?w\<lparr>page := url\<rparr>,
        sent := sent (conn s) @ [fst (navigate ctx url ''complete'')]\<rparr>\<rparr>, Inr ())"
      using True bl0 by (simp add: get_complete_def get_page page_browser_navigate blocked_event_def)
    then show ?thesis using True ps inv1 by (simp add: nav_page_def psync_def)
  next
    case False
    let ?s1 = "(run_pending s)\<lparr>conn := (conn s)\<lparr>world := ?w\<lparr>blocked := Some (url, ?ids)\<rparr>,
        sent := sent (conn s) @ [fst (navigate ctx url ''complete'')]\<rparr>\<rparr>"
    have g: "get page_browser ctx url ''complete'' s = (?s1, Inr ())"
      using False by (simp add: get_page page_browser_navigate)
    have sub: "set (map PInt ?ids) \<subseteq> fst ` set (intercepts s)"
    proof
      fix x assume "x \<in> set (map PInt ?ids)"
      then obtain j pats where "(j, pats) \<in> set (rules ?w)" and x: "x = PInt j"
        by (auto simp: matching_rules_def)
      then have "x \<in> set (map (\<lambda>(i, _). PInt i) (rules ?w))" by force
      then show "x \<in> fst ` set (intercepts s)" using sync by (metis set_map)
    qed
    obtain us where hs: "handlers_for (intercepts s) (map PInt ?ids) = map request_handler us"
      and len: "length us = length ?ids"
      using redirect_chain[OF _ sub] ps by (auto simp: psync_def)
    have us: "us \<noteq> []" using len False by auto
    have known: "list_all (\<lambda>i. py_hashable i \<and> map_of (intercepts s) i \<noteq> None) (map PInt ?ids)"
      unfolding list_all_iff
    proof
      fix x assume x: "x \<in> set (map PInt ?ids)"
      then have "x \<in> fst ` set (intercepts s)" using sub by blast
      then show "py_hashable x \<and> map_of (intercepts s) x \<noteq> None" using x by (auto simp: map_of_eq_None_iff)
    qed
    obtain i0 where "i0 \<in> set (map PInt ?ids)" using False by (cases ?ids) auto
    then obtain e where "(i0, e) \<in> set (intercepts s)" using sub by auto
    then have "event_name e = PStr BeforeRequestSent_event_class" using ps by (auto simp: psync_def redirects_def list_all_iff)
    then have "PStr BeforeRequestSent_event_class \<in> rule_events (intercepts s)"
      using \<open>(i0, e) \<in> set (intercepts s)\<close> by (force simp: rule_events_def)
    then have lopen: "PStr BeforeRequestSent_event_class \<in> fst ` set (listeners ?s1)"
      using inv by (simp add: net_inv_def run_pending_keys)
    have le: "listener_event page_browser (test_event url (map PInt ?ids)) ?s1 =
       (?s1\<lparr>conn := (conn ?s1)\<lparr>world := (world (conn ?s1))\<lparr>blocked := None, page := last us\<rparr>,
          sent := sent (conn ?s1) @ [continue_url_msg ''req'' (last us)]\<rparr>\<rparr>, Inr ())"
      using listener_redirect[where s = ?s1 and ids = ?ids and us = us and url = url] hs us known by simp
    have gc: "get_complete ctx url s = (?s1\<lparr>conn := (conn ?s1)\<lparr>world := (world (conn ?s1))\<lparr>blocked := None, page := last us\<rparr>,
          sent := sent (conn ?s1) @ [continue_url_msg ''req'' (last us)]\<rparr>\<rparr>, Inr ())"
      using g lopen le by (simp add: get_complete_def blocked_event_def)
    have "nav_page s url = last us"
      using False hs run_request_handlers[OF us, of _ "PStr ''req''"] by (simp add: nav_page_def nav_request_def Let_def)
    then show ?thesis using gc ps inv1 by (simp add: psync_def)
  qed
qed

lemma psync_init: "psync (net_init \<lparr>world = pworld_init, sent = []\<rparr>)"
  by (simp add: psync_def net_inv_def net_init_def pworld_init_def regs_ok_def rule_events_def redirects_def)

lemma psync_exec: "psync s \<Longrightarrow> psync (fst (page_exec ctx op s))"
proof (cases op)
  case (PAdd u pats)
  assume ps: "psync s"
  have "fst (page_exec ctx op s) = fst (add_request_handler page_browser (request_handler u) pats s)"
    using PAdd by (simp add: page_exec_def sbind_def split: prod.splits sum.splits)
  then show ?thesis using psync_add[OF ps] by simp
qed (simp_all add: page_exec_def remove_request_handler_def clear_request_handlers_def psync_remove psync_clear
       get_complete_page)

lemma preach_psync: "preach ctx s \<Longrightarrow> psync s"
  by (induction rule: preach.induct) (auto intro: psync_init psync_exec)

section \<open>Properties of the system\<close>

text \<open>
  C6. The client and the browser agree on the rules: in every state reached
  by registering redirect handlers, removing rules, clearing and navigating
  against the page-loading browser, the manager's rule table and the browser's
  rules list the same ids in the same order, no request is left blocked, and the
  manager's invariant holds.
\<close>

theorem preach_sync:
  "preach ctx s \<Longrightarrow> map fst (intercepts s) = map (\<lambda>(i, _). PInt i) (rules (world (conn s))) \<and>
     blocked (world (conn s)) = None \<and> net_inv s"
  using preach_psync[of ctx s] by (simp add: psync_def)

theorem preach_sync_witness:
  "map fst (intercepts (fst (page_exec ''ctx'' (PAdd ''formPage.html'' (test_pattern ''simpleTest.html''))
       (net_init \<lparr>world = pworld_init, sent = []\<rparr>)))) =
     map (\<lambda>(i, _). PInt i) (rules (world (conn (fst (page_exec ''ctx'' (PAdd ''formPage.html'' (test_pattern ''simpleTest.html''))
       (net_init \<lparr>world = pworld_init, sent = []\<rparr>)))))) \<and>
   blocked (world (conn (fst (page_exec ''ctx'' (PAdd ''formPage.html'' (test_pattern ''simpleTest.html''))
       (net_init \<lparr>world = pworld_init, sent = []\<rparr>))))) = None \<and>
   net_inv (fst (page_exec ''ctx'' (PAdd ''formPage.html'' (test_pattern ''simpleTest.html''))
       (net_init \<lparr>world = pworld_init, sent = []\<rparr>)))"
  by (rule preach_sync[OF preach.step[OF preach.init]])

text \<open>
  C5. Every navigation completes: from every such state, get with
  wait="complete" returns normally and leaves no request blocked, and the page
  it loads is the URL itself when no live rule matches, and otherwise the URL
  that the handlers of the matching rules, in the event's order and registration
  order (the spec's handlersFor and fold), make of the request (spec section
  4.4: an intercepted request is never left unresolved).
\<close>

theorem navigation_completes:
  assumes r: "preach ctx s"
  shows "snd (get_complete ctx url s) = Inr () \<and> blocked (world (conn (fst (get_complete ctx url s)))) = None \<and>
     page (world (conn (fst (get_complete ctx url s)))) = nav_page s url"
  using get_complete_page[OF preach_psync[OF r], of ctx url] by simp

theorem navigation_completes_witness:
  "snd (get_complete ''ctx'' ''simpleTest.html'' (fst (page_exec ''ctx'' (PAdd ''formPage.html'' (test_pattern ''simpleTest.html''))
       (net_init \<lparr>world = pworld_init, sent = []\<rparr>)))) = Inr () \<and>
   blocked (world (conn (fst (get_complete ''ctx'' ''simpleTest.html'' (fst (page_exec ''ctx''
       (PAdd ''formPage.html'' (test_pattern ''simpleTest.html'')) (net_init \<lparr>world = pworld_init, sent = []\<rparr>))))))) = None \<and>
   page (world (conn (fst (get_complete ''ctx'' ''simpleTest.html'' (fst (page_exec ''ctx''
       (PAdd ''formPage.html'' (test_pattern ''simpleTest.html'')) (net_init \<lparr>world = pworld_init, sent = []\<rparr>))))))) =
     nav_page (fst (page_exec ''ctx'' (PAdd ''formPage.html'' (test_pattern ''simpleTest.html''))
       (net_init \<lparr>world = pworld_init, sent = []\<rparr>))) ''simpleTest.html''"
  by (rule navigation_completes[OF preach.step[OF preach.init]])

end
