(* ===== verification/RuleSpec.thy ===== *)
theory RuleSpec
  imports Sync
begin

text \<open>
  The contract of the interception manager as an abstract rule registry, and
  its refinement by the code of \<open>remote/network.py\<close> against the
  page-loading browser. A \<open>registry\<close> is a list of rules (id, URL patterns
  as the caller gave them, redirect target), the next id and the page loaded.
  \<open>spec_exec\<close> appends a rule with the next id on add (nothing when the
  patterns cannot be serialised), drops the rule with the given id on remove,
  empties the list on clear and loads the target of the last matching rule on
  navigation. \<open>refines\<close> relates a state of the system to a registry: the
  manager's dict holds one redirect entry per rule, in order, the browser
  holds the same ids with the patterns it parsed, its id counter is the next
  id, and the pages agree. Each operation preserves the relation, a clear only
  while at most one rule is registered (with two or more the code removes one
  rule and raises, see \<open>Registry\<close>); \<open>clear_safe\<close> says that every clear of a
  sequence is of that kind.
\<close>

section \<open>The abstract rule registry\<close>

record registry =
  arules :: "(int \<times> pyval \<times> string) list"
  anext :: nat
  apage :: string

definition url_filter :: "pyval \<Rightarrow> string list option" where
  "url_filter pats = rule_patterns (msg_params (add_msg BeforeRequestSent_event_class pats))"

definition spec_matching :: "registry \<Rightarrow> string \<Rightarrow> (int \<times> pyval \<times> string) list" where
  "spec_matching a url = filter (\<lambda>(i, p, u). rule_matches (url_filter p) url) (arules a)"

definition spec_navigate :: "registry \<Rightarrow> string \<Rightarrow> string" where
  "spec_navigate a url = (if spec_matching a url = [] then url else snd (snd (last (spec_matching a url))))"

definition spec_exec :: "page_op \<Rightarrow> registry \<Rightarrow> registry" where
  "spec_exec op a = (case op of
      PAdd u pats \<Rightarrow> if json_serializable (add_msg BeforeRequestSent_event_class pats)
                    then a\<lparr>arules := arules a @ [(int (anext a), pats, u)], anext := Suc (anext a)\<rparr> else a
    | PRemove i \<Rightarrow> a\<lparr>arules := filter (\<lambda>(j, _). i \<noteq> PInt j) (arules a)\<rparr>
    | PClear \<Rightarrow> a\<lparr>arules := []\<rparr>
    | PGet url \<Rightarrow> a\<lparr>apage := spec_navigate a url\<rparr>)"

definition spec_init :: registry where
  "spec_init = \<lparr>arules = [], anext = 0, apage = ''''\<rparr>"

fun spec_run :: "page_op list \<Rightarrow> registry \<Rightarrow> registry" where
  "spec_run [] a = a"
| "spec_run (op # ops) a = spec_run ops (spec_exec op a)"

fun page_run :: "string \<Rightarrow> page_op list \<Rightarrow> pworld net \<Rightarrow> pworld net" where
  "page_run ctx [] s = s"
| "page_run ctx (op # ops) s = page_run ctx ops (fst (page_exec ctx op s))"

fun clear_safe :: "page_op list \<Rightarrow> registry \<Rightarrow> bool" where
  "clear_safe [] a = True"
| "clear_safe (op # ops) a = ((op = PClear \<longrightarrow> length (arules a) \<le> 1) \<and> clear_safe ops (spec_exec op a))"

definition rule_entry :: "int \<times> pyval \<times> string \<Rightarrow> pyval \<times> entry" where
  "rule_entry r = (case r of (i, p, u) \<Rightarrow> (PInt i, \<lparr>event_name = PStr BeforeRequestSent_event_class, handlers = [request_handler u]\<rparr>))"

definition browser_rule :: "int \<times> pyval \<times> string \<Rightarrow> int \<times> string list option" where
  "browser_rule r = (case r of (i, p, u) \<Rightarrow> (i, url_filter p))"

definition refines :: "pworld net \<Rightarrow> registry \<Rightarrow> bool" where
  "refines s a \<longleftrightarrow> psync s \<and> intercepts s = map rule_entry (arules a) \<and>
     rules (world (conn s)) = map browser_rule (arules a) \<and>
     issued (world (conn s)) = anext a \<and> page (world (conn s)) = apage a"

section \<open>Lemmas\<close>

lemma refines_init: "refines (net_init \<lparr>world = pworld_init, sent = []\<rparr>) spec_init"
  using psync_init by (simp add: refines_def spec_init_def net_init_def pworld_init_def)

lemma fst_rule_entry [simp]: "fst (rule_entry r) = PInt (fst r)"
  by (simp add: rule_entry_def split: prod.splits)

lemma distinct_rule_entries: "distinct (map (fst \<circ> rule_entry) rs) \<longleftrightarrow> distinct (map fst rs)"
  by (induction rs) force+

lemma refines_distinct:
  assumes "refines s a"
  shows "distinct (map fst (arules a))"
proof -
  have "distinct (map fst (intercepts s))" "intercepts s = map rule_entry (arules a)"
    using assms unfolding refines_def psync_def net_inv_def regs_ok_def by blast+
  then show ?thesis by (simp add: distinct_rule_entries)
qed

lemma delete_rule_entries:
  "AList.delete i (map rule_entry rs) = map rule_entry (filter (\<lambda>(j, _). i \<noteq> PInt j) rs)"
  by (induction rs) (auto simp: rule_entry_def)

lemma filter_browser_rules:
  "filter (\<lambda>(j, _). i \<noteq> PInt j) (map browser_rule rs) = map browser_rule (filter (\<lambda>(j, _). i \<noteq> PInt j) rs)"
  by (induction rs) (auto simp: browser_rule_def)

lemma matching_browser_rules:
  "matching_rules (w\<lparr>rules := map browser_rule rs\<rparr>) url =
     map fst (filter (\<lambda>(i, p, u). rule_matches (url_filter p) url) rs)"
  by (induction rs) (simp_all add: matching_rules_def browser_rule_def split: prod.splits)

lemma handlers_for_rules:
  assumes d: "distinct (map fst rs)" and sub: "set fs \<subseteq> set rs"
  shows "handlers_for (map rule_entry rs) (map (\<lambda>r. PInt (fst r)) fs) = map (\<lambda>r. request_handler (snd (snd r))) fs"
  using sub
proof (induction fs)
  case Nil
  then show ?case by (simp add: handlers_for_def)
next
  case (Cons r fs)
  have dk: "distinct (map fst (map rule_entry rs))"
    using d by (simp add: distinct_rule_entries)
  have "rule_entry r \<in> set (map rule_entry rs)" using Cons.prems by simp
  then have "map_of (map rule_entry rs) (PInt (fst r)) =
      Some \<lparr>event_name = PStr BeforeRequestSent_event_class, handlers = [request_handler (snd (snd r))]\<rparr>"
    using map_of_is_SomeI[OF dk] by (auto simp: rule_entry_def split: prod.splits)
  then show ?case using Cons by (simp add: handlers_for_def)
qed

lemma refines_add:
  assumes r: "refines s a"
  shows "refines (fst (page_exec ctx (PAdd u pats) s)) (spec_exec (PAdd u pats) a)"
proof -
  have ps: "psync s" using r by (simp add: refines_def)
  have f: "fst (page_exec ctx (PAdd u pats) s) = fst (add_request_handler page_browser (request_handler u) pats s)"
    by (simp add: page_exec_def sbind_def split: prod.splits sum.splits)
  have ps': "psync (fst (page_exec ctx (PAdd u pats) s))" using f psync_add[OF ps] by simp
  show ?thesis
  proof (cases "json_serializable (add_msg BeforeRequestSent_event_class pats)")
    case True
    then show ?thesis
      using r ps' f add_request_handler_page[OF ps True, of "request_handler u"]
      by (simp add: refines_def spec_exec_def rule_entry_def browser_rule_def url_filter_def del: enc_value.simps)
  next
    case False
    then show ?thesis
      using r ps' f add_request_handler_page_unencodable[OF False, of "request_handler u" s]
      by (simp add: refines_def spec_exec_def del: enc_value.simps)
  qed
qed

lemma refines_remove:
  assumes r: "refines s a"
  shows "refines (fst (remove_intercept page_browser i s)) (a\<lparr>arules := filter (\<lambda>(j, _). i \<noteq> PInt j) (arules a)\<rparr>)"
proof -
  have ps: "psync s" using r by (simp add: refines_def)
  show ?thesis
    using r psync_remove[OF ps, of i] remove_intercept_page[OF ps, of i]
    by (simp add: refines_def delete_rule_entries filter_browser_rules)
qed

lemma clear_intercepts_empty: "intercepts s = [] \<Longrightarrow> clear_intercepts ex s = (s, Inr ())"
  by (simp add: clear_intercepts_def clear_loop.simps)

lemma clear_intercepts_single:
  assumes d: "intercepts s = [(i, e)]"
  shows "fst (clear_intercepts ex s) = fst (remove_intercept ex i s)"
proof -
  obtain s' r where ri: "remove_intercept ex i s = (s', r)" by fastforce
  have c: "clear_intercepts ex s = sbind (remove_intercept ex i) (\<lambda>_. clear_loop ex 1 1) s"
    using d by (simp add: clear_intercepts_def clear_loop.simps[of ex "Suc 0" 0])
  show ?thesis
  proof (cases r)
    case (Inl x)
    then show ?thesis using c ri by (simp add: sbind_def)
  next
    case (Inr y)
    then show ?thesis using c ri by (simp add: sbind_def clear_loop.simps[of ex "Suc 0" "Suc 0"])
  qed
qed

lemma refines_clear:
  assumes r: "refines s a" and l: "length (arules a) \<le> 1"
  shows "refines (fst (clear_intercepts page_browser s)) (a\<lparr>arules := []\<rparr>)"
proof (cases "arules a")
  case Nil
  then show ?thesis using r by (simp add: refines_def clear_intercepts_empty)
next
  case (Cons x rs)
  then have x: "arules a = [x]" using l by simp
  obtain i e where ie: "rule_entry x = (i, e)" by fastforce
  have "intercepts s = [(i, e)]" using r x ie by (simp add: refines_def)
  then have "fst (clear_intercepts page_browser s) = fst (remove_intercept page_browser (PInt (fst x)) s)"
    using clear_intercepts_single[of s i e] fst_rule_entry[of x] ie by simp
  then show ?thesis
    using refines_remove[OF r, of "PInt (fst x)"] x by (simp split: prod.splits)
qed

lemma nav_page_spec:
  assumes r: "refines s a"
  shows "nav_page s url = spec_navigate a url"
proof -
  let ?fs = "spec_matching a url"
  have w: "world (conn s) = (world (conn s))\<lparr>rules := map browser_rule (arules a)\<rparr>"
    using r by (simp add: refines_def)
  have ids: "matching_rules (world (conn s)) url = map fst ?fs"
    by (subst w) (simp add: matching_browser_rules spec_matching_def)
  have hs: "handlers_for (intercepts s) (map PInt (map fst ?fs)) = map request_handler (map (\<lambda>r. snd (snd r)) ?fs)"
    using r handlers_for_rules[OF refines_distinct[OF r], of ?fs]
    by (simp add: refines_def spec_matching_def comp_def)
  show ?thesis
  proof (cases "?fs = []")
    case True
    then show ?thesis using ids by (simp add: nav_page_def spec_navigate_def)
  next
    case False
    then have "map (\<lambda>r. snd (snd r)) ?fs \<noteq> []" by simp
    from run_request_handlers[OF this, of _ "PStr ''req''"] show ?thesis
      using False ids hs by (simp add: nav_page_def spec_navigate_def nav_request_def last_map)
  qed
qed

lemma refines_get:
  assumes r: "refines s a"
  shows "refines (fst (get_complete ctx url s)) (a\<lparr>apage := spec_navigate a url\<rparr>)"
  using r get_complete_page[of s ctx url] nav_page_spec[OF r, of url] by (simp add: refines_def)

lemma refines_exec:
  assumes r: "refines s a" and c: "op = PClear \<longrightarrow> length (arules a) \<le> 1"
  shows "refines (fst (page_exec ctx op s)) (spec_exec op a)"
proof (cases op)
  case (PAdd u pats)
  then show ?thesis using refines_add[OF r] by simp
next
  case (PRemove i)
  then show ?thesis using refines_remove[OF r] by (simp add: page_exec_def spec_exec_def remove_request_handler_def)
next
  case PClear
  then show ?thesis using refines_clear[OF r] c by (simp add: page_exec_def spec_exec_def clear_request_handlers_def)
next
  case (PGet url)
  then show ?thesis using refines_get[OF r] by (simp add: page_exec_def spec_exec_def)
qed

lemma refines_run: "refines s a \<Longrightarrow> clear_safe ops a \<Longrightarrow> refines (page_run ctx ops s) (spec_run ops a)"
  by (induction ops arbitrary: s a) (simp_all add: refines_exec)

section \<open>Properties\<close>

text \<open>
  C7. The page-loading system refines the abstract registry: after any
  sequence of registrations, removals, navigations and clears of at most one
  rule, starting from a fresh manager and browser, the manager's rule table,
  the browser's rules, the next id and the loaded page are those of the
  abstract registry that appends a rule with a fresh id on add, drops the rule
  with the given id on remove, empties the table on clear and loads the target
  of the last matching rule on navigation.
\<close>

theorem page_system_refines:
  "clear_safe ops spec_init \<Longrightarrow>
   refines (page_run ctx ops (net_init \<lparr>world = pworld_init, sent = []\<rparr>)) (spec_run ops spec_init)"
  by (rule refines_run[OF refines_init])

theorem page_system_refines_witness:
  "clear_safe [PAdd ''formPage.html'' (test_pattern ''simpleTest.html''), PClear] spec_init \<and>
   refines (page_run ''ctx'' [PAdd ''formPage.html'' (test_pattern ''simpleTest.html''), PClear]
       (net_init \<lparr>world = pworld_init, sent = []\<rparr>))
     (spec_run [PAdd ''formPage.html'' (test_pattern ''simpleTest.html''), PClear] spec_init)"
proof
  show c: "clear_safe [PAdd ''formPage.html'' (test_pattern ''simpleTest.html''), PClear] spec_init"
    by (simp add: spec_exec_def spec_init_def test_pattern_def dict_of_def json_key_def ends_marker_def)
  show "refines (page_run ''ctx'' [PAdd ''formPage.html'' (test_pattern ''simpleTest.html''), PClear]
       (net_init \<lparr>world = pworld_init, sent = []\<rparr>))
     (spec_run [PAdd ''formPage.html'' (test_pattern ''simpleTest.html''), PClear] spec_init)"
    by (rule page_system_refines[OF c])
qed


end
