(* ===== verification/Schema.thy ===== *)
theory Schema
  imports BidiNetwork
begin

text \<open>
  The typing annotations of \<open>src/py/selenium/webdriver/common/bidi/network.py\<close>.
  Every field of its dataclasses carries a \<open>typing\<close> annotation, and the module
  names six aliases: \<open>InterceptPhase\<close> and \<open>SameSite\<close> are \<open>typing.Literal\<close>s,
  \<open>UrlPattern\<close> and \<open>BytesValue\<close> are \<open>typing.Union\<close>s of dataclasses,
  \<open>Request\<close> and \<open>Intercept\<close> are \<open>str\<close>. A \<open>pytype\<close> is such an annotation,
  and \<open>has_type t v\<close> says that the Python value \<open>v\<close> conforms to it, as
  \<open>typing.get_type_hints\<close> would report it (the hints \<open>bidi.py\<close> reads on
  line 51). A dataclass conforms when it is an instance of the class whose
  fields, in declaration order, conform to their hints.

  Dataclasses do not check their annotations at run time, so conformance is a
  property of the values the code builds, not a guard of the code. The model
  has no floating-point values: a \<open>float\<close> field accepts an \<open>int\<close>, as
  Python's typing does. The types of the modules not in the repository
  (\<open>browsing_context.BrowsingContext\<close>, \<open>browsing_context.Navigation\<close>,
  \<open>script.StackTrace\<close>) are \<open>TExternal\<close>, which accepts every value.
\<close>

section \<open>Annotations\<close>

datatype pytype =
    TStr
  | TInt
  | TFloat
  | TBool
  | TLiteral "string list"
  | TOptional pytype
  | TList pytype
  | TUnion "pytype list"
  | TClass string
  | TExternal string

definition InterceptPhase :: pytype where
  "InterceptPhase = TLiteral [''beforeRequestSent'', ''responseStarted'', ''authRequired'']"

definition UrlPattern :: pytype where
  "UrlPattern = TUnion [TClass ''UrlPatternPattern'', TClass ''UrlPatternString'']"

definition Request :: pytype where
  "Request = TStr"

definition BytesValue :: pytype where
  "BytesValue = TUnion [TClass ''StringValue'', TClass ''Base64Value'']"

definition Intercept :: pytype where
  "Intercept = TStr"

definition SameSite :: pytype where
  "SameSite = TLiteral [''strict'', ''lax'', ''none'']"

text \<open>The hints of each dataclass, in declaration order.\<close>

definition UrlPatternPattern_hints :: "(string \<times> pytype) list" where
  "UrlPatternPattern_hints =
     [(''type_'', TLiteral [''pattern'']), (''protocol'', TOptional TStr), (''hostname'', TOptional TStr),
      (''port'', TOptional TStr), (''pathname'', TOptional TStr), (''search'', TOptional TStr)]"

definition UrlPatternString_hints :: "(string \<times> pytype) list" where
  "UrlPatternString_hints = [(''pattern'', TStr), (''type_'', TLiteral [''string''])]"

definition AddInterceptParameters_hints :: "(string \<times> pytype) list" where
  "AddInterceptParameters_hints =
     [(''phases'', TList InterceptPhase), (''contexts'', TOptional (TList (TExternal ''browsing_context.BrowsingContext''))),
      (''urlPatterns'', TOptional (TList UrlPattern))]"

definition AddIntercept_hints :: "(string \<times> pytype) list" where
  "AddIntercept_hints = [(''params'', TClass ''AddInterceptParameters''), (''method'', TLiteral [''network.addIntercept''])]"

definition StringValue_hints :: "(string \<times> pytype) list" where
  "StringValue_hints = [(''value'', TStr), (''type_'', TLiteral [''string''])]"

definition Base64Value_hints :: "(string \<times> pytype) list" where
  "Base64Value_hints = [(''value'', TStr), (''type_'', TLiteral [''base64''])]"

definition CookieHeader_hints :: "(string \<times> pytype) list" where
  "CookieHeader_hints = [(''name'', TStr), (''value'', BytesValue)]"

definition Header_hints :: "(string \<times> pytype) list" where
  "Header_hints = [(''name'', TStr), (''value'', BytesValue)]"

definition ContinueRequestParameters_hints :: "(string \<times> pytype) list" where
  "ContinueRequestParameters_hints =
     [(''request'', Request), (''body'', TOptional BytesValue), (''cookies'', TOptional (TList (TClass ''CookieHeader''))),
      (''headers'', TOptional (TList (TClass ''Header''))), (''method'', TOptional TStr), (''url'', TOptional TStr)]"

definition ContinueRequest_hints :: "(string \<times> pytype) list" where
  "ContinueRequest_hints =
     [(''params'', TClass ''ContinueRequestParameters''), (''method'', TLiteral [''network.continueRequest''])]"

definition RemoveInterceptParameters_hints :: "(string \<times> pytype) list" where
  "RemoveInterceptParameters_hints = [(''intercept'', Intercept)]"

definition RemoveIntercept_hints :: "(string \<times> pytype) list" where
  "RemoveIntercept_hints =
     [(''params'', TClass ''RemoveInterceptParameters''), (''method'', TLiteral [''network.removeIntercept''])]"

definition Cookie_hints :: "(string \<times> pytype) list" where
  "Cookie_hints =
     [(''name'', TStr), (''value'', BytesValue), (''domain'', TStr), (''path'', TStr), (''size'', TInt),
      (''httpOnly'', TBool), (''secure'', TBool), (''sameSite'', SameSite), (''expiry'', TOptional TInt)]"

definition FetchTimingInfo_hints :: "(string \<times> pytype) list" where
  "FetchTimingInfo_hints =
     map (\<lambda>n. (n, TFloat))
       [''timeOrigin'', ''requestTime'', ''redirectStart'', ''redirectEnd'', ''fetchStart'',
        ''dnsStart'', ''dnsEnd'', ''connectStart'', ''connectEnd'', ''tlsStart'',
        ''requestStart'', ''responseStart'', ''responseEnd'']"

definition RequestData_hints :: "(string \<times> pytype) list" where
  "RequestData_hints =
     [(''request'', Request), (''url'', TStr), (''method'', TStr), (''headersSize'', TInt),
      (''timings'', TClass ''FetchTimingInfo''), (''headers'', TOptional (TList (TClass ''Header''))),
      (''cookies'', TOptional (TList (TClass ''Cookie''))), (''bodySize'', TOptional TInt)]"

definition Initiator_hints :: "(string \<times> pytype) list" where
  "Initiator_hints =
     [(''type_'', TLiteral [''parser'', ''script'', ''preflight'', ''other'']), (''columnNumber'', TOptional TInt),
      (''lineNumber'', TOptional TInt), (''stackTrace'', TOptional (TExternal ''script.StackTrace'')),
      (''request'', TOptional Request)]"

definition BeforeRequestSentParameters_hints :: "(string \<times> pytype) list" where
  "BeforeRequestSentParameters_hints =
     [(''isBlocked'', TBool), (''redirectCount'', TInt), (''request'', TClass ''RequestData''), (''timestamp'', TInt),
      (''initiator'', TClass ''Initiator''), (''context'', TOptional (TExternal ''browsing_context.BrowsingContext'')),
      (''navigation'', TOptional (TExternal ''browsing_context.Navigation'')), (''intercepts'', TOptional (TList Intercept))]"

definition BeforeRequestSent_hints :: "(string \<times> pytype) list" where
  "BeforeRequestSent_hints =
     [(''params'', TClass ''BeforeRequestSentParameters''), (''method'', TLiteral [''network.beforeRequestSent''])]"

definition schema :: "(string \<times> (string \<times> pytype) list) list" where
  "schema =
     [(''UrlPatternPattern'', UrlPatternPattern_hints), (''UrlPatternString'', UrlPatternString_hints),
      (''AddInterceptParameters'', AddInterceptParameters_hints), (''AddIntercept'', AddIntercept_hints),
      (''StringValue'', StringValue_hints), (''Base64Value'', Base64Value_hints),
      (''CookieHeader'', CookieHeader_hints), (''Header'', Header_hints),
      (''ContinueRequestParameters'', ContinueRequestParameters_hints), (''ContinueRequest'', ContinueRequest_hints),
      (''RemoveInterceptParameters'', RemoveInterceptParameters_hints), (''RemoveIntercept'', RemoveIntercept_hints),
      (''Cookie'', Cookie_hints), (''FetchTimingInfo'', FetchTimingInfo_hints), (''RequestData'', RequestData_hints),
      (''Initiator'', Initiator_hints), (''BeforeRequestSentParameters'', BeforeRequestSentParameters_hints),
      (''BeforeRequestSent'', BeforeRequestSent_hints)]"

section \<open>Conformance\<close>

fun has_type :: "pytype \<Rightarrow> pyval \<Rightarrow> bool"
and all_typed :: "pytype \<Rightarrow> pyval list \<Rightarrow> bool"
and any_typed :: "pytype list \<Rightarrow> pyval \<Rightarrow> bool"
and fields_typed :: "(string \<times> pytype) list \<Rightarrow> (string \<times> pyval) list \<Rightarrow> bool" where
  "has_type TStr (PStr x) = True"
| "has_type TInt (PInt i) = True"
| "has_type TFloat (PInt i) = True"
| "has_type TBool (PBool b) = True"
| "has_type (TLiteral ls) (PStr x) = (x \<in> set ls)"
| "has_type (TOptional t) v = (v = PNone \<or> has_type t v)"
| "has_type (TList t) (PList vs) = all_typed t vs"
| "has_type (TUnion ts) v = any_typed ts v"
| "has_type (TClass c) (PObj c' fs) =
     (case map_of schema c of Some hs \<Rightarrow> c' = c \<and> fields_typed hs fs | None \<Rightarrow> False)"
| "has_type (TExternal m) v = True"
| "has_type t v = False"
| "all_typed t [] = True"
| "all_typed t (v # vs) = (has_type t v \<and> all_typed t vs)"
| "any_typed [] v = False"
| "any_typed (t # ts) v = (has_type t v \<or> any_typed ts v)"
| "fields_typed [] [] = True"
| "fields_typed ((n, t) # hs) ((n', v) # fs) = (n' = n \<and> has_type t v \<and> fields_typed hs fs)"
| "fields_typed hs fs = False"

section \<open>Lemmas on conformance\<close>

lemma bind_fields_values:
  "bind_fields dfs [] kvs = Inr fs \<Longrightarrow> snd ` set fs \<subseteq> snd ` set kvs \<union> {v. Some v \<in> snd ` set dfs}"
proof (induction dfs arbitrary: fs)
  case Nil
  then show ?case by simp
next
  case (Cons f dfs)
  obtain k d where f: "f = (k, d)" by (cases f)
  from Cons.prems f obtain x bs where x: "(case map_of kvs k of Some x \<Rightarrow> Some x | None \<Rightarrow> d) = Some x"
    and bs: "bind_fields dfs [] kvs = Inr bs" and fs: "fs = (k, x) # bs"
    by (auto simp: rbind_def split: option.splits sum.splits)
  have "x \<in> snd ` set kvs \<union> {v. Some v \<in> snd ` set (f # dfs)}"
    using x f by (auto split: option.splits dest: map_of_SomeD intro: rev_image_eqI)
  then show ?case using Cons.IH[OF bs] fs by auto
qed

lemma has_type_class_obj: "has_type (TClass c) v \<Longrightarrow> \<exists>gs. v = PObj c gs"
  by (cases v) (auto split: option.splits)

lemma fields_typed_class:
  "fields_typed hs fs \<Longrightarrow> (n, TClass c) \<in> set hs \<Longrightarrow> \<exists>gs. (n, PObj c gs) \<in> set fs"
proof (induction hs arbitrary: fs)
  case Nil
  then show ?case by simp
next
  case (Cons h hs)
  obtain n0 t where h: "h = (n0, t)" by (cases h)
  then obtain n' v fs' where fs: "fs = (n', v) # fs'" using Cons.prems(1) by (cases fs) auto
  show ?case using Cons fs h by (auto dest: has_type_class_obj)
qed

lemma serializable_no_obj: "json_serializable (PDict kvs) \<Longrightarrow> PObj c gs \<notin> snd ` set kvs"
  by (auto simp: list_all_iff)

lemma from_json_ill_typed:
  assumes js: "json_serializable (PDict kvs)" and dec: "from_json c (PDict kvs) = Inr v"
    and hs: "map_of schema (dc_name c) = Some hs" and fld: "(n, TClass c') \<in> set hs"
    and defs: "list_all (\<lambda>(n, d). d = None \<or> d = Some PNone \<or> (\<exists>x. d = Some (PStr x))) (dc_fields c)"
  shows "\<not> has_type (TClass (dc_name c)) v"
proof
  assume ty: "has_type (TClass (dc_name c)) v"
  obtain fs where b: "bind_fields (dc_fields c) [] kvs = Inr fs" and v: "v = PObj (dc_name c) fs"
    using construct_kw_Inr dec by (fastforce simp: from_json_def)
  then have "fields_typed hs fs" using ty hs by simp
  then obtain gs where "(n, PObj c' gs) \<in> set fs" using fld by (blast dest: fields_typed_class)
  then have "PObj c' gs \<in> snd ` set kvs \<union> {v. Some v \<in> snd ` set (dc_fields c)}"
    using bind_fields_values[OF b] by force
  moreover have "Some (PObj c' gs) \<notin> snd ` set (dc_fields c)" using defs by (auto simp: list_all_iff)
  ultimately show False using serializable_no_obj[OF js] by blast
qed

section \<open>Properties of the schema\<close>

text \<open>
  C12. Decoding never yields the annotated type: for every wire dict (JSON data,
  with no dataclass object in it) that BeforeRequestSent.from_json decodes, the
  event it returns does not conform to the annotations of BeforeRequestSent,
  since its parameters' request field is the raw wire value where the hints ask
  for a RequestData instance. The spec's decode builds values of the declared
  shapes (section 4.1).
\<close>

theorem event_from_json_ill_typed:
  assumes js: "json_serializable (PDict kvs)"
    and dec: "event_from_json BeforeRequestSent BeforeRequestSentParameters (PDict kvs) = Inr v"
  shows "\<not> has_type (TClass ''BeforeRequestSent'') v"
proof
  assume ty: "has_type (TClass ''BeforeRequestSent'') v"
  obtain p where p: "from_json BeforeRequestSentParameters (PDict kvs) = Inr p"
    and v: "construct BeforeRequestSent [p] [] = Inr v"
    using dec by (auto simp: event_from_json_def rbind_def split: sum.splits)
  have "v = PObj ''BeforeRequestSent'' [(''params'', p), (''method'', PStr ''network.beforeRequestSent'')]"
    using v by (simp add: BeforeRequestSent_def construct_command)
  then have "has_type (TClass ''BeforeRequestSentParameters'') p"
    using ty by (simp add: schema_def BeforeRequestSent_hints_def)
  moreover have "\<not> has_type (TClass (dc_name BeforeRequestSentParameters)) p"
    by (rule from_json_ill_typed[OF js p, where hs = BeforeRequestSentParameters_hints and n = "''request''" and c' = "''RequestData''"])
       (simp_all add: schema_def BeforeRequestSentParameters_def BeforeRequestSentParameters_hints_def)
  ultimately show False by (simp add: BeforeRequestSentParameters_def)
qed

theorem event_from_json_ill_typed_witness:
  "\<not> has_type (TClass ''BeforeRequestSent'') (PObj ''BeforeRequestSent''
     [(''params'', PObj ''BeforeRequestSentParameters''
        [(''isBlocked'', PBool True), (''redirectCount'', PInt 0), (''request'', PDict [(''request'', PStr ''r1''), (''url'', PStr ''u1'')]),
         (''timestamp'', PInt 0), (''initiator'', PDict [(''type'', PStr ''other'')]),
         (''context'', PNone), (''navigation'', PNone), (''intercepts'', PNone)]),
      (''method'', PStr ''network.beforeRequestSent'')])"
  using event_from_json_ill_typed[where kvs = "[(''isBlocked'', PBool True), (''redirectCount'', PInt 0),
      (''request'', PDict [(''request'', PStr ''r1''), (''url'', PStr ''u1'')]), (''timestamp'', PInt 0),
      (''initiator'', PDict [(''type'', PStr ''other'')])]"]
  by (simp add: event_from_json_def from_json_def construct_def BeforeRequestSentParameters_def BeforeRequestSent_def)

end
