(* ===== verification/Conformance.thy ===== *)
theory Conformance
  imports System Schema
begin

text \<open>
  The values the interception manager (\<open>remote/network.py\<close>) builds against
  the annotations of the protocol schema (theory \<open>Schema\<close>): the phase name
  \<open>add_handler\<close> derives from the event name (line 75) and the
  \<open>AddInterceptParameters\<close> object it sends (line 79).
\<close>

section \<open>Lemmas on phase names\<close>

lemma phase_of_suffix:
  assumes "CHR ''.'' \<notin> set ph"
  shows "phase_of (pre @ CHR ''.'' # ph) = ph"
proof -
  have "takeWhile (\<lambda>c. c \<noteq> CHR ''.'') (rev ph @ CHR ''.'' # rev pre) = rev ph"
    using assms by (subst takeWhile_append2) auto
  then show ?thesis by (simp add: phase_of_def)
qed

lemma intercept_phase_cases:
  "has_type InterceptPhase (PStr ph) \<longleftrightarrow> ph = ''beforeRequestSent'' \<or> ph = ''responseStarted'' \<or> ph = ''authRequired''"
  by (auto simp: InterceptPhase_def)

lemma phase_of_network: "has_type InterceptPhase (PStr ph) \<Longrightarrow> phase_of (''network.'' @ ph) = ph"
  using phase_of_suffix[of ph "''network''"] by (auto simp: intercept_phase_cases)

section \<open>Properties of the registration message\<close>

text \<open>
  C11. add_handler sends well-typed intercept parameters: for the event
  network.P of each interception phase P and URL patterns that conform to
  Optional[List[UrlPattern]], add_handler sends session.subscribe and then an
  addIntercept command whose parameters are the AddInterceptParameters object
  with phases [P] (the text after the event name's last dot), and that object
  conforms to the annotations of AddInterceptParameters.
\<close>

theorem add_handler_params_typed:
  assumes acc: "accepts_all ex" and ph: "has_type InterceptPhase (PStr ph)"
    and pt: "has_type (TOptional (TList UrlPattern)) pats"
    and js: "json_serializable (add_msg (''network.'' @ ph) pats)"
  shows "sent (conn (fst (add_handler ex (''network.'' @ ph) h pats s))) =
           sent (conn s) @ [fst (session_subscribe (PStr (''network.'' @ ph))),
             PDict [(''params'', enc_value (PObj ''AddInterceptParameters''
                      [(''phases'', PList [PStr ph]), (''contexts'', PNone), (''urlPatterns'', pats)])),
                    (''method'', PStr ''network.addIntercept'')]] \<and>
         has_type (TClass ''AddInterceptParameters'')
           (PObj ''AddInterceptParameters'' [(''phases'', PList [PStr ph]), (''contexts'', PNone), (''urlPatterns'', pats)])"
proof
  show "sent (conn (fst (add_handler ex (''network.'' @ ph) h pats s))) =
           sent (conn s) @ [fst (session_subscribe (PStr (''network.'' @ ph))),
             PDict [(''params'', enc_value (PObj ''AddInterceptParameters''
                      [(''phases'', PList [PStr ph]), (''contexts'', PNone), (''urlPatterns'', pats)])),
                    (''method'', PStr ''network.addIntercept'')]]"
    using add_handler_sent[OF acc js, of h s] phase_of_network[OF ph] by (simp del: enc_value.simps)
  show "has_type (TClass ''AddInterceptParameters'')
           (PObj ''AddInterceptParameters'' [(''phases'', PList [PStr ph]), (''contexts'', PNone), (''urlPatterns'', pats)])"
    using ph pt by (simp add: schema_def AddInterceptParameters_hints_def)
qed

theorem add_handler_params_typed_witness:
  "sent (conn (fst (add_handler (accept_remote ''i3'') BeforeRequestSent_event_class (request_handler ''u3'')
      (test_pattern ''u2'') ex_two))) =
     [fst (session_subscribe (PStr BeforeRequestSent_event_class)),
      PDict [(''params'', enc_value (PObj ''AddInterceptParameters''
               [(''phases'', PList [PStr ''beforeRequestSent'']), (''contexts'', PNone), (''urlPatterns'', test_pattern ''u2'')])),
             (''method'', PStr ''network.addIntercept'')]] \<and>
   has_type (TClass ''AddInterceptParameters'')
     (PObj ''AddInterceptParameters'' [(''phases'', PList [PStr ''beforeRequestSent'']), (''contexts'', PNone), (''urlPatterns'', test_pattern ''u2'')])"
  using add_handler_params_typed[OF accept_remote_accepts, where ph = "''beforeRequestSent''" and pats = "test_pattern ''u2''"
      and h = "request_handler ''u3''" and s = ex_two]
  by (simp add: BeforeRequestSent_event_class_def InterceptPhase_def UrlPattern_def test_pattern_def schema_def
      UrlPatternString_hints_def ex_two_def phase_of_def to_json_def dict_of_def json_key_def ends_marker_def)

end
