(* ===== verification/Spec2Isabelle.thy ===== *)
theory Spec2Isabelle
  imports Interleave RuleSpec Conformance
begin

text \<open>
  \<^bold>\<open>A verification library for the BiDi network interception of the Selenium
  Python bindings.\<close>

  \<^bold>\<open>The program.\<close> Four files under \<open>src/py\<close> make up the part of the bindings
  that intercepts browser requests:
  \<^item> \<open>selenium/webdriver/common/bidi/bidi.py\<close>: the message model.
    \<open>BidiObject.to_json\<close> encodes a dataclass instance as a wire dict,
    \<open>from_json\<close> is \<open>cls(**json)\<close>, \<open>BidiEvent.from_json\<close> decodes an event's
    parameters, and \<open>BidiCommand.cmd\<close> is the generator that yields a command
    and returns its reply;
  \<^item> \<open>selenium/webdriver/common/bidi/network.py\<close>: the dataclasses of the
    protocol's network module, and a class \<open>Network\<close> with the coroutines
    \<open>add_intercept\<close>, \<open>continue_request\<close> and \<open>remove_intercept\<close>;
  \<^item> \<open>selenium/webdriver/remote/network.py\<close>: the interception manager, also
    called \<open>Network\<close>. It keeps a \<open>defaultdict\<close> of rules (intercept id to
    event name and handlers) and a table of listeners, one per event. It
    registers handlers, runs them on the blocked requests its listener tasks
    receive, sends the continuations, and removes rules;
  \<^item> \<open>test/selenium/webdriver/common/bidi_network_tests.py\<close>: the test that
    drives all of it.
  The manager calls the command wrappers of \<open>network.py\<close>. These build
  command objects whose messages \<open>bidi.py\<close> encodes, and send them over a
  connection (\<open>cdp.py\<close>, \<open>session.py\<close>, \<open>browsing_context.py\<close>). Those three
  files are not in the repository, so the connection is modelled from the
  spec.

  \<^bold>\<open>The theories.\<close>
  \<^item> \<open>Prelude\<close>: Python values (\<open>pyval\<close>) and exceptions (\<open>exc\<close>); the
    state-and-exception monad \<open>('s, 'a) pyst = 's \<Rightarrow> 's \<times> (exc + 'a)\<close>, in which
    every method and coroutine is a state transformer; dicts as insertion-ordered
    association lists. \<open>dict_pop\<close> is \<open>dict.pop\<close> (KeyError, unhashable key).
    \<open>dd_get\<close> is the \<open>defaultdict\<close> read, which inserts the default.
  \<^item> \<open>Bidi\<close> (\<open>bidi.py\<close>): a dataclass as a descriptor (\<open>dataclass\<close>). Calling
    it is \<open>construct\<close>, which follows CPython's argument binding. It also has
    \<open>to_json\<close> (the mutual \<open>enc_value\<close> group), \<open>from_json\<close>,
    \<open>event_from_json\<close> and \<open>cmd\<close>.
  \<^item> \<open>Encoding\<close>: the shape \<open>encodable\<close> of the values whose encoding
    \<open>json.dumps\<close> accepts.
  \<^item> \<open>Channel\<close> (modelled from the spec): \<open>conn_execute\<close> sends a command's
    message to a remote end \<open>'w remote\<close> and logs it in \<open>sent\<close>. A message that
    \<open>json.dumps\<close> refuses is not sent. The theory also has the session and
    navigation commands.
  \<^item> \<open>BidiNetwork\<close> (\<open>common/bidi/network.py\<close>): one descriptor per
    dataclass, and \<open>bidi_add_intercept\<close>, \<open>bidi_continue_request\<close> and
    \<open>bidi_remove_intercept\<close> for the methods of \<open>Network\<close>.
  \<^item> \<open>RemoteNetwork\<close> (\<open>remote/network.py\<close>): the manager's state
    \<open>'w net\<close>, which holds the connection, \<open>listeners\<close>, \<open>intercepts\<close>, the
    listener tasks \<open>pending\<close> from \<open>start_soon\<close>, and a stream counter. It has one
    definition per method: \<open>get\<close>, \<open>add_handler\<close>, \<open>add_request_handler\<close>,
    \<open>handle_events\<close>, \<open>handle_requests\<close>, \<open>remove_listener\<close>,
    \<open>remove_intercept\<close>, \<open>clear_intercepts\<close> and the two aliases. The body
    of \<open>add_listener\<close> is \<open>start_listener\<close> plus \<open>listener_event\<close>, and its
    loops are \<open>run_handlers\<close>, \<open>handle_intercepts\<close> and \<open>clear_loop\<close>.
  \<^item> \<open>Pipeline\<close>: the spec's \<open>handlersFor\<close> (\<open>handlers_for\<close>), and what
    \<open>handle_events\<close> sends back.
  \<^item> \<open>Registry\<close>: the invariant \<open>net_inv\<close> (the spec's ActiveSubscription
    invariant), its preservation by each operation, and the behaviour of
    registration, removal and clearing.
  \<^item> \<open>System\<close>: a browser that issues intercept ids, the caller's operations
    (\<open>net_op\<close>, \<open>exec_op\<close>), the step relation \<open>sys_step\<close>, the reachable
    states, and the repository's test as a sequence of operations
    (\<open>test_ops\<close>, used for the witnesses). The per-operation steps of a state
    invariant are factored into \<open>ops_preserve\<close>.
  \<^item> \<open>Session\<close>: \<open>set_context\<close> with the nursery exit \<open>nursery_wait\<close>, the
    caller's block \<open>run_body\<close>, and \<open>disable_cache\<close> on the driver's log.
  \<^item> \<open>Schema\<close> (\<open>common/bidi/network.py\<close>): the typing annotations as
    \<open>pytype\<close> values. It has the six aliases (\<open>InterceptPhase\<close>,
    \<open>UrlPattern\<close>, \<open>Request\<close>, \<open>BytesValue\<close>, \<open>Intercept\<close>,
    \<open>SameSite\<close>), the hints of every dataclass (\<open>*_hints\<close>, collected in
    \<open>schema\<close>), and the executable conformance check \<open>has_type\<close>.
  \<^item> \<open>Conformance\<close>: what \<open>add_handler\<close> sends, checked against those
    annotations.
  \<^item> \<open>Interleave\<close>: \<open>add_handler\<close> split at its \<open>addIntercept\<close> await
    (\<open>add_handler_send\<close>, \<open>add_handler_register\<close>), and \<open>remove_intercept\<close>
    split at its \<open>removeIntercept\<close> await (\<open>remove_intercept_send\<close>,
    \<open>remove_intercept_pop\<close>). It also has the step relation \<open>istep\<close>, in
    which listener events run between the two phases of either operation.
  \<^item> \<open>Lifecycle\<close>: the listener loop inside \<open>set_context\<close>, unfolded one
    event at a time, and what a handler that raises does to the session.
  \<^item> \<open>Scenario\<close>: the repository's test body as written
    (\<open>test_request_handler\<close>), with its title assertions, and a
    page-loading browser \<open>page_browser\<close>, modelled from the spec, which
    matches string URL patterns, blocks matching navigations and loads the
    continued URL. \<open>get_complete\<close> is \<open>get\<close> with the listener step that
    runs while the caller awaits the navigation.
  \<^item> \<open>Sync\<close>: the manager against the page-loading browser, for callers that
    register redirect handlers, remove and clear rules and navigate
    (\<open>page_exec\<close>, reachable states \<open>preach\<close>). Its invariant \<open>psync\<close>
    relates the manager's rule table to the browser's rules.
  \<^item> \<open>RuleSpec\<close>: the contract as an abstract rule registry (\<open>registry\<close>,
    \<open>spec_exec\<close>, \<open>spec_run\<close>): rules of (id, patterns, redirect target) with
    fresh ids, removal by id, clearing, and navigation to the target of the
    last matching rule. \<open>refines\<close> relates it to the states of \<open>Sync\<close>, and
    \<open>page_run\<close> runs a caller's sequence of operations.

  \<^bold>\<open>Concurrency.\<close> trio runs one task at a time. A task switches only at an
  \<open>await\<close> that blocks. \<open>nursery.start_soon\<close> only schedules the listener task.
  The task runs at the caller's next blocking \<open>await\<close>, which is a
  \<open>conn.execute\<close>, so \<open>await_conn\<close> first runs the scheduled task starts
  (\<open>run_pending\<close>) and then the command. A caller's operation is one step, and
  a listener task taking one event from its stream is another
  (\<open>ListenerEvent\<close>). Two awaits inside an operation are split in
  \<open>istep\<close>, and events are handled in between:
  \<^item> the \<open>addIntercept\<close> reply in \<open>add_handler\<close>, where the rule exists in the
    browser but not yet in the client;
  \<^item> the \<open>removeIntercept\<close> reply in \<open>remove_intercept\<close>, where the rule is
    gone from the browser but still in the client.
  In \<open>get_complete\<close> the navigation's await is where the listener continues
  the blocked request. The other awaits (the unsubscribe in
  \<open>remove_intercept\<close>, the continuation in \<open>handle_events\<close>) are not split.
  Around them the listener tasks only read the registry, apart from the
  \<open>defaultdict\<close> inserts, which the invariants allow.

  \<^bold>\<open>What is proved.\<close>
  \<^item> The message model: \<open>from_json\<close> inverts \<open>to_json\<close> on flat instances.
    \<open>to_json\<close> drops exactly the \<open>None\<close> fields. The round trip fails on every
    instance with a set marked field (\<open>type_\<close>). A dataclass object inside a
    nested list stays unencoded, and the command carrying it is refused.
    Decoding an event is not recursive: the request stays a raw dict.
  \<^item> The pipeline refines \<open>handlersFor\<close>. A listener task skips the events
    that are not blocked. After a successful pipeline,
    exactly one continuation is sent. With no applicable handler, or after a
    handler error, nothing is sent, which diverges from spec sections 4.4
    and 7.
  \<^item> The registry: \<open>net_inv\<close> is preserved by every operation. When two
    rules share an event, the second removal tears down the event and sends
    exactly one unsubscribe. Removing an unknown id sends the remote command,
    then raises KeyError. \<open>clear_intercepts\<close> removes one rule and then raises
    RuntimeError. \<open>add_handler\<close> subscribes again on every call. A default
    entry created by a read makes a later \<open>clear_intercepts\<close> raise KeyError.
  \<^item> The system: \<open>net_inv\<close> holds in every reachable state, proved by rule
    induction with the browser's fresh ids as the extra invariant. From every
    reachable state, \<open>add_request_handler\<close> stores a new rule with exactly its
    handler.
  \<^item> An encodable instance encodes to JSON data.
  \<^item> The session: from every reachable state, removing the rules one by one
    lets \<open>set_context\<close> exit normally. With a listener left open, the exit never
    returns normally, and it does not return at all once no more events
    arrive. The spec's scope teardown does not exist in the code.
  \<^item> Interleaving: \<open>net_inv\<close> holds in every configuration of \<open>istep\<close>. A
    request that the new rule blocks before its registration gets no
    continuation, leaves a default entry under the id, and the registration
    then takes the entry over.
  \<^item> The listener tasks: one blocked request whose handlers raise ends the
    whole session with that exception, no continuation is sent, and no later
    event is handled. The spec says such a failure concerns only that request.
  \<^item> Types: \<open>add_handler\<close> sends, for each interception phase, an
    \<open>AddInterceptParameters\<close> object that conforms to its annotations.
    \<open>BeforeRequestSent.from_json\<close> never yields a value of its annotated
    type, since decoding is not recursive.
  \<^item> Against that browser, in every reachable state the client and the browser
    hold the same rule ids in the same order and no request is left blocked.
    Every navigation completes and loads the page that the spec's pipeline
    (\<open>handlers_for\<close> and the fold of the handlers, in \<open>nav_page\<close>) computes.
  \<^item> Refinement: every sequence of adds, removes, navigations and clears of
    at most one rule keeps the system related to the abstract registry
    (one lemma per operation, composed by induction on the sequence), so a
    navigation loads the target of the last registered matching rule. The
    bound on clear is needed, since with two or more rules the code removes
    only one of them (the registry theorem on \<open>clear_intercepts\<close>).

  \<^bold>\<open>Bounds and termination.\<close> No loop needs fuel. The handler loops are
  structural recursion. \<open>clear_loop\<close> terminates by the measure \<open>n - pos\<close>,
  where the dict size \<open>n\<close> is fixed when the iterator is created.
  \<open>nursery_wait\<close> may not return, so it is a \<open>partial_function\<close> in the option
  monad. Its theorems say both when it returns (\<open>Some\<close>, after a teardown) and
  when it does not (\<open>None\<close>). The conformance check \<open>has_type\<close> terminates by the size of the value, then of
  the type. Python's
  integers are unbounded (\<open>int\<close>), and no property depends on a width.

  \<^bold>\<open>Not modelled.\<close> Some parts are left out:
  \<^item> the websocket, \<open>open_cdp\<close>, the stream objects and \<open>listen\<close>/\<open>close\<close>,
    beyond the listener table;
  \<^item> trio's cancellation, beyond the exception propagating out of
    \<open>set_context\<close>;
  \<^item> the unsubscribe await of \<open>remove_intercept\<close> and the continuation await
    of \<open>handle_events\<close>, which are not split;
  \<^item> several callers at once, so a \<open>clear_intercepts\<close> racing an
    \<open>add_request_handler\<close> is not modelled. Once a removal and an insertion
    balance out during the iteration, the dict iterator's next key depends on
    CPython's sparse entry table, with its deleted slots and the remaining-length
    check. The model's dict is a compact association list;
  \<^item> the driver behind \<open>execute_cdp_cmd\<close>, whose commands are only logged;
  \<^item> the generated devtools code behind \<open>event_class\<close>;
  \<^item> in the browser: URL patterns of type \<open>pattern\<close>, redirects, several
    requests blocked at once, and the pages' content beyond the test's titles.
    The types of \<open>browsing_context\<close> and \<open>script\<close>, whose modules are not in
    the repository, are \<open>TExternal\<close> and accept every value;
  \<^item> the module-level \<open>import_devtools\<close> and \<open>Network.__init__\<close> of
    \<open>common/bidi/network.py\<close> (lines 29--30, 200--202). The first is
    generated CDP code. The second only stores the connection, which the command
    wrappers take from the manager's state.
\<close>

end
